(* ===== verification/Prelude.thy ===== *)
theory Prelude
  imports Main
begin

text \<open>
  Shared vocabulary of the development: the names of the model's types, the Python
  exceptions the modelled code can raise, the exception-with-state monad in which the
  stateful methods of \<open>SecureConfigManager\<close> and the Flask handlers are written, and
  Python's \<open>str.startswith\<close>. The collections \<open>exc_simps\<close> and \<open>dict_simps\<close> gather
  the rewrite rules that the component theories hand to \<open>simp\<close>.
\<close>

named_theorems exc_simps "rules that evaluate the exception-with-state monad"
named_theorems dict_simps "rules that evaluate Python dictionary operations"

type_synonym path = string
type_synonym bytes = string

text \<open>
  Python exceptions raised by the modelled code. Messages that no property depends
  on are kept as strings; \<open>OSError p\<close> is any failure of \<open>open\<close>/\<open>unlink\<close> on path \<open>p\<close>
  (\<open>PermissionError\<close>, \<open>FileNotFoundError\<close>, ...). \<open>InvalidToken\<close> is raised by
  \<open>Fernet.decrypt\<close>, \<open>UnicodeDecodeError\<close> by \<open>bytes.decode('utf-8')\<close>,
  \<open>JSONDecodeError\<close> by \<open>json.loads\<close>.
\<close>

datatype exn =
    AttributeError
  | KeyError string
  | TypeError
  | ValueError string
  | OSError path
  | InvalidToken
  | UnicodeDecodeError
  | JSONDecodeError

subsection \<open>Exceptions without state\<close>

definition sbind :: "'e + 'a \<Rightarrow> ('a \<Rightarrow> 'e + 'b) \<Rightarrow> 'e + 'b" where
  "sbind r f = (case r of Inl e \<Rightarrow> Inl e | Inr a \<Rightarrow> f a)"

lemma sbind_Inr [simp, exc_simps]: "sbind (Inr a) f = f a"
  by (simp add: sbind_def)

lemma sbind_Inl [simp, exc_simps]: "sbind (Inl e) f = Inl e"
  by (simp add: sbind_def)

lemma sbind_eq_Inr:
  "sbind r f = Inr b \<longleftrightarrow> (\<exists>a. r = Inr a \<and> f a = Inr b)"
  by (cases r) simp_all

subsection \<open>Exceptions with state\<close>

text \<open>
  A Python method that mutates its object and may raise is a function from the state to
  a result and the state reached. An exception does not roll back what was done before
  it was raised, so the state is returned on both branches.
\<close>

type_synonym ('s, 'a) exc = "'s \<Rightarrow> (exn + 'a) \<times> 's"

definition ret :: "'a \<Rightarrow> ('s, 'a) exc" where
  "ret a = (\<lambda>s. (Inr a, s))"

definition raise :: "exn \<Rightarrow> ('s, 'a) exc" where
  "raise e = (\<lambda>s. (Inl e, s))"

definition ebind :: "('s, 'a) exc \<Rightarrow> ('a \<Rightarrow> ('s, 'b) exc) \<Rightarrow> ('s, 'b) exc" where
  "ebind m f = (\<lambda>s. case m s of (Inl e, s') \<Rightarrow> (Inl e, s') | (Inr a, s') \<Rightarrow> f a s')"

text \<open>\<open>try: m except: h\<close>, the handler seeing the exception and the state reached.\<close>

definition catch :: "('s, 'a) exc \<Rightarrow> (exn \<Rightarrow> ('s, 'a) exc) \<Rightarrow> ('s, 'a) exc" where
  "catch m h = (\<lambda>s. case m s of (Inl e, s') \<Rightarrow> h e s' | (Inr a, s') \<Rightarrow> (Inr a, s'))"

lemma ret_apply [simp, exc_simps]: "ret a s = (Inr a, s)"
  by (simp add: ret_def)

lemma raise_apply [simp, exc_simps]: "raise e s = (Inl e, s)"
  by (simp add: raise_def)

lemma ebind_apply [exc_simps]:
  "ebind m f s = (case m s of (Inl e, s') \<Rightarrow> (Inl e, s') | (Inr a, s') \<Rightarrow> f a s')"
  by (simp add: ebind_def)

lemma ebind_Inr [simp, exc_simps]: "m s = (Inr a, s') \<Longrightarrow> ebind m f s = f a s'"
  by (simp add: ebind_def)

lemma ebind_Inl [simp, exc_simps]: "m s = (Inl e, s') \<Longrightarrow> ebind m f s = (Inl e, s')"
  by (simp add: ebind_def)

lemma catch_apply [exc_simps]:
  "catch m h s = (case m s of (Inl e, s') \<Rightarrow> h e s' | (Inr a, s') \<Rightarrow> (Inr a, s'))"
  by (simp add: catch_def)

lemma ebind_assoc: "ebind (ebind m f) g = ebind m (\<lambda>a. ebind (f a) g)"
  by (rule ext) (simp add: ebind_def split: prod.splits sum.splits)

lemma ebind_ret [simp]: "ebind (ret a) f = f a"
  by (rule ext) (simp add: ebind_def)

subsection \<open>Relations that every outcome respects\<close>

text \<open>
  An action keeps a relation \<open>R\<close> between states when every outcome's state is reached
  from the initial one by \<open>R\<close>-steps. Taking the reflexive transitive closure makes the
  rules for sequencing, handlers and branches hold for every \<open>R\<close>; a reflexive and
  transitive \<open>R\<close> is recovered from its closure by \<open>keeps_apply\<close>.
\<close>

definition keeps :: "('s \<Rightarrow> 's \<Rightarrow> bool) \<Rightarrow> ('s, 'a) exc \<Rightarrow> bool" where
  "keeps R m \<longleftrightarrow> (\<forall>s. R\<^sup>*\<^sup>* s (snd (m s)))"

named_theorems keeps_intros "rules composing actions that keep a relation"

lemma keeps_step: "(\<And>s. R s (snd (m s))) \<Longrightarrow> keeps R m"
  by (simp add: keeps_def r_into_rtranclp)

lemma keeps_unit [keeps_intros]: "keeps R (\<lambda>s. (x, s))"
  by (simp add: keeps_def)

lemma keeps_ret [keeps_intros]: "keeps R (ret a)"
  by (simp add: keeps_def)

lemma keeps_raise [keeps_intros]: "keeps R (raise e)"
  by (simp add: keeps_def)

lemma keeps_ebind [keeps_intros]:
  assumes "keeps R m" "\<And>x. keeps R (f x)"
  shows "keeps R (ebind m f)"
  unfolding keeps_def
proof
  fix s
  obtain y s1 where m: "m s = (y, s1)" by fastforce
  have "R\<^sup>*\<^sup>* s s1" using assms(1) m unfolding keeps_def by (metis snd_conv)
  moreover have "R\<^sup>*\<^sup>* s1 (snd (f a s1))" for a using assms(2) by (simp add: keeps_def)
  ultimately show "R\<^sup>*\<^sup>* s (snd (ebind m f s))"
    using m by (cases y) (auto simp: ebind_def intro: rtranclp_trans)
qed

lemma keeps_catch [keeps_intros]:
  assumes "keeps R m" "\<And>e. keeps R (h e)"
  shows "keeps R (catch m h)"
  unfolding keeps_def
proof
  fix s
  obtain y s1 where m: "m s = (y, s1)" by fastforce
  have "R\<^sup>*\<^sup>* s s1" using assms(1) m unfolding keeps_def by (metis snd_conv)
  moreover have "R\<^sup>*\<^sup>* s1 (snd (h e s1))" for e using assms(2) by (simp add: keeps_def)
  ultimately show "R\<^sup>*\<^sup>* s (snd (catch m h s))"
    using m by (cases y) (auto simp: catch_def intro: rtranclp_trans)
qed

lemma keeps_if [keeps_intros]: "keeps R m1 \<Longrightarrow> keeps R m2 \<Longrightarrow> keeps R (if b then m1 else m2)"
  by simp

lemma keeps_state_if [keeps_intros]:
  "keeps R m1 \<Longrightarrow> keeps R m2 \<Longrightarrow> keeps R (\<lambda>s. if b s then m1 s else m2 s)"
  by (simp add: keeps_def)

lemma keeps_case_prod [keeps_intros]:
  "(\<And>a b. keeps R (f a b)) \<Longrightarrow> keeps R (case p of (a, b) \<Rightarrow> f a b)"
  by (cases p) simp

lemma keeps_case_option [keeps_intros]:
  "keeps R m1 \<Longrightarrow> (\<And>a. keeps R (m2 a)) \<Longrightarrow> keeps R (case x of None \<Rightarrow> m1 | Some a \<Rightarrow> m2 a)"
  by (cases x) simp_all

lemma keeps_state_case_option [keeps_intros]:
  "keeps R m1 \<Longrightarrow> (\<And>a. keeps R (m2 a)) \<Longrightarrow>
   keeps R (\<lambda>s. case g s of None \<Rightarrow> m1 s | Some a \<Rightarrow> m2 a s)"
  by (auto simp: keeps_def split: option.splits)

lemma keeps_apply:
  assumes "keeps R m" "\<And>s. R s s" "\<And>a b c. R a b \<Longrightarrow> R b c \<Longrightarrow> R a c"
  shows "R s (snd (m s))"
proof -
  have "R\<^sup>*\<^sup>* s (snd (m s))" using assms(1) by (simp add: keeps_def)
  then show ?thesis by induction (use assms(2,3) in blast)+
qed

subsection \<open>Results that every normal outcome satisfies\<close>

text \<open>
  An action returns only values satisfying \<open>P\<close> when each of its normal outcomes does;
  an exception satisfies it vacuously. The rules compose like those of \<open>keeps\<close>.
\<close>

definition returns :: "('a \<Rightarrow> bool) \<Rightarrow> ('s, 'a) exc \<Rightarrow> bool" where
  "returns P m \<longleftrightarrow> (\<forall>s. case fst (m s) of Inr a \<Rightarrow> P a | Inl _ \<Rightarrow> True)"

named_theorems returns_intros "rules composing actions whose results satisfy a predicate"

lemma returns_outcome:
  "returns P m \<Longrightarrow> m s = (y, s') \<Longrightarrow> (case y of Inr a \<Rightarrow> P a | Inl _ \<Rightarrow> True)"
  unfolding returns_def by (metis fst_conv)

lemma returns_unit [returns_intros]: "P x \<Longrightarrow> returns P (\<lambda>s. (Inr x, g s))"
  by (simp add: returns_def)

lemma returns_exn [returns_intros]: "returns P (\<lambda>s. (Inl e, g s))"
  by (simp add: returns_def)

lemma returns_ret [returns_intros]: "P a \<Longrightarrow> returns P (ret a)"
  by (simp add: returns_def)

lemma returns_raise [returns_intros]: "returns P (raise e)"
  by (simp add: returns_def)

lemma returns_ebind [returns_intros]:
  assumes "\<And>x. returns P (f x)"
  shows "returns P (ebind m f)"
  unfolding returns_def
proof
  fix s
  obtain y s1 where m: "m s = (y, s1)" by fastforce
  have "case fst (f a s1) of Inr b \<Rightarrow> P b | Inl _ \<Rightarrow> True" for a
    using assms [of a] by (simp add: returns_def)
  with m show "case fst (ebind m f s) of Inr a \<Rightarrow> P a | Inl _ \<Rightarrow> True"
    by (cases y) (simp_all add: ebind_def)
qed

lemma returns_catch [returns_intros]:
  assumes "returns P m" "\<And>e. returns P (h e)"
  shows "returns P (catch m h)"
  unfolding returns_def
proof
  fix s
  obtain y s1 where m: "m s = (y, s1)" by fastforce
  have "case y of Inr b \<Rightarrow> P b | Inl _ \<Rightarrow> True" using assms(1) m by (rule returns_outcome)
  moreover have "case fst (h e s1) of Inr b \<Rightarrow> P b | Inl _ \<Rightarrow> True" for e
    using assms(2) [of e] by (simp add: returns_def)
  ultimately show "case fst (catch m h s) of Inr a \<Rightarrow> P a | Inl _ \<Rightarrow> True"
    using m by (cases y) (simp_all add: catch_def)
qed

lemma returns_if [returns_intros]:
  "returns P m1 \<Longrightarrow> returns P m2 \<Longrightarrow> returns P (if b then m1 else m2)"
  by simp

lemma returns_state_if [returns_intros]:
  "returns P m1 \<Longrightarrow> returns P m2 \<Longrightarrow> returns P (\<lambda>s. if b s then m1 s else m2 s)"
  by (simp add: returns_def)

lemma returns_case_prod [returns_intros]:
  "(\<And>a b. returns P (f a b)) \<Longrightarrow> returns P (case p of (a, b) \<Rightarrow> f a b)"
  by (cases p) simp

lemma returns_case_option [returns_intros]:
  "returns P m1 \<Longrightarrow> (\<And>a. returns P (m2 a)) \<Longrightarrow>
   returns P (case x of None \<Rightarrow> m1 | Some a \<Rightarrow> m2 a)"
  by (cases x) simp_all

lemma returns_state_case_option [returns_intros]:
  "returns P m1 \<Longrightarrow> (\<And>a. returns P (m2 a)) \<Longrightarrow>
   returns P (\<lambda>s. case g s of None \<Rightarrow> m1 s | Some a \<Rightarrow> m2 a s)"
  by (auto simp: returns_def split: option.splits)

lemma returns_apply: "returns P m \<Longrightarrow> fst (m s) = Inr a \<Longrightarrow> P a"
  by (auto simp: returns_def dest: spec [of _ s])

subsection \<open>Python strings\<close>

text \<open>\<open>s.startswith(p)\<close>.\<close>

fun startswith :: "string \<Rightarrow> string \<Rightarrow> bool" where
  "startswith s [] = True"
| "startswith [] (c # p) = False"
| "startswith (x # s) (c # p) = (x = c \<and> startswith s p)"

lemma startswith_iff: "startswith s p \<longleftrightarrow> (\<exists>r. s = p @ r)"
  by (induction s p rule: startswith.induct) auto

lemma startswith_append [simp]: "startswith (p @ r) p"
  by (simp add: startswith_iff)

end
