(* ===== verification/PyValue.thy ===== *)
theory PyValue
  imports Prelude
begin

text \<open>
  The Python values the modelled code handles: the JSON-shaped values that
  \<open>request.get_json()\<close> and \<open>json.loads\<close> produce and \<open>json.dumps\<close> consumes,
  Python truthiness (\<open>if not x\<close>), and the operations of \<open>dict\<close> the code calls
  (\<open>d.get(k)\<close>, \<open>d[k]\<close>, \<open>d[k] = v\<close>, \<open>d.update(u)\<close>). A \<open>dict\<close> is an association list in
  insertion order, as CPython keeps it; its well-formedness is that its keys are distinct.
  Numbers are integers: the configuration the code stores holds no floats.
\<close>

datatype pyval =
    PNone
  | PBool bool
  | PInt int
  | PStr string
  | PList "pyval list"
  | PDict "(string \<times> pyval) list"

type_synonym pydict = "(string \<times> pyval) list"

text \<open>\<open>bool(v)\<close>: \<open>None\<close>, \<open>False\<close>, \<open>0\<close> and empty containers are false.\<close>

fun truthy :: "pyval \<Rightarrow> bool" where
  "truthy PNone = False"
| "truthy (PBool b) = b"
| "truthy (PInt i) = (i \<noteq> 0)"
| "truthy (PStr s) = (s \<noteq> [])"
| "truthy (PList xs) = (xs \<noteq> [])"
| "truthy (PDict d) = (d \<noteq> [])"

subsection \<open>Dictionaries\<close>

definition dict_wf :: "pydict \<Rightarrow> bool" where
  "dict_wf d \<longleftrightarrow> distinct (map fst d)"

text \<open>\<open>d.get(k)\<close>: the value, or \<open>None\<close> when the key is absent.\<close>

definition dict_get :: "pydict \<Rightarrow> string \<Rightarrow> pyval" where
  "dict_get d k = (case map_of d k of None \<Rightarrow> PNone | Some v \<Rightarrow> v)"

text \<open>\<open>d[k] = v\<close>: an existing key keeps its position, a new key goes last.\<close>

definition dict_setitem :: "pydict \<Rightarrow> string \<Rightarrow> pyval \<Rightarrow> pydict" where
  "dict_setitem d k v =
     (if k \<in> set (map fst d) then map (\<lambda>(k', v'). if k' = k then (k', v) else (k', v')) d
      else d @ [(k, v)])"

text \<open>\<open>d.update(u)\<close>: the items of \<open>u\<close> stored one by one, in \<open>u\<close>'s order.\<close>

definition dict_update :: "pydict \<Rightarrow> pydict \<Rightarrow> pydict" where
  "dict_update d u = foldl (\<lambda>acc (k, v). dict_setitem acc k v) d u"

lemma map_of_replace_value:
  "map_of (map (\<lambda>(k', v'). if k' = k then (k', v) else (k', v')) d) x =
     (if x = k \<and> x \<in> set (map fst d) then Some v else map_of d x)"
  by (induction d) (auto simp: rev_image_eqI)

lemma map_of_dict_setitem [simp, dict_simps]:
  "map_of (dict_setitem d k v) = (map_of d)(k \<mapsto> v)"
proof
  fix x
  show "map_of (dict_setitem d k v) x = ((map_of d)(k \<mapsto> v)) x"
  proof (cases "k \<in> set (map fst d)")
    case True
    then show ?thesis by (simp add: dict_setitem_def map_of_replace_value)
  next
    case False
    then have "map_of d k = None"
      by (simp add: map_of_eq_None_iff)
    with False show ?thesis
      by (auto simp: dict_setitem_def map_add_def split: option.splits)
  qed
qed

lemma keys_dict_setitem [dict_simps]:
  "map fst (dict_setitem d k v) =
     (if k \<in> set (map fst d) then map fst d else map fst d @ [k])"
proof -
  have "map fst (map (\<lambda>(k', v'). if k' = k then (k', v) else (k', v')) d) = map fst d"
    by (induction d) auto
  then show ?thesis by (simp add: dict_setitem_def)
qed

lemma dict_wf_setitem [intro]: "dict_wf d \<Longrightarrow> dict_wf (dict_setitem d k v)"
  by (simp add: dict_wf_def keys_dict_setitem)

lemma dict_get_setitem [simp, dict_simps]:
  "dict_get (dict_setitem d k v) k' = (if k' = k then v else dict_get d k')"
  by (simp add: dict_get_def)

lemma map_of_dict_update [dict_simps]:
  "map_of (dict_update d u) = map_of d ++ map_of (rev u)"
proof (induction u arbitrary: d)
  case Nil
  then show ?case by (simp add: dict_update_def)
next
  case (Cons kv u)
  obtain k v where kv: "kv = (k, v)" by fastforce
  have "map_of (dict_update d (kv # u)) = map_of (dict_update (dict_setitem d k v) u)"
    by (simp add: dict_update_def kv)
  also have "\<dots> = (map_of d)(k \<mapsto> v) ++ map_of (rev u)"
    by (simp only: Cons.IH map_of_dict_setitem)
  also have "\<dots> = map_of d ++ map_of (rev (kv # u))"
    by (simp add: kv map_add_upd_left map_add_def fun_eq_iff map_of_append
             split: option.splits)
  finally show ?case .
qed

lemma keys_dict_update:
  "\<exists>r. map fst (dict_update d u) = map fst d @ r \<and>
       set (map fst (dict_update d u)) = set (map fst d) \<union> set (map fst u)"
proof (induction u arbitrary: d)
  case Nil
  then show ?case by (simp add: dict_update_def)
next
  case (Cons kv u)
  obtain k v where kv: "kv = (k, v)" by fastforce
  from Cons.IH [of "dict_setitem d k v"] obtain r where
    r: "map fst (dict_update (dict_setitem d k v) u) = map fst (dict_setitem d k v) @ r"
    and s: "set (map fst (dict_update (dict_setitem d k v) u)) =
            set (map fst (dict_setitem d k v)) \<union> set (map fst u)"
    by blast
  have "dict_update d (kv # u) = dict_update (dict_setitem d k v) u"
    by (simp add: dict_update_def kv)
  with r s show ?case
    by (cases "k \<in> set (map fst d)") (auto simp: keys_dict_setitem kv)
qed

lemma dict_wf_update [intro]: "dict_wf d \<Longrightarrow> dict_wf (dict_update d u)"
proof (induction u arbitrary: d)
  case Nil
  then show ?case by (simp add: dict_update_def)
next
  case (Cons kv u)
  then show ?case
    by (cases kv) (simp add: dict_update_def dict_wf_setitem)
qed

lemma dict_get_update [dict_simps]:
  "dict_get (dict_update d u) k =
     (case map_of (rev u) k of Some v \<Rightarrow> v | None \<Rightarrow> dict_get d k)"
  by (simp add: dict_get_def map_of_dict_update map_add_def split: option.splits)

subsection \<open>Attribute and item access on values\<close>

text \<open>
  \<open>v.get(k)\<close> and \<open>v[k]\<close> on a value whose type is not known statically: only a
  \<open>dict\<close> has \<open>get\<close> (anything else raises \<open>AttributeError\<close>); subscripting a list,
  string, number or \<open>None\<close> with a string raises \<open>TypeError\<close>.
\<close>

definition py_get :: "pyval \<Rightarrow> string \<Rightarrow> exn + pyval" where
  "py_get v k = (case v of PDict d \<Rightarrow> Inr (dict_get d k) | _ \<Rightarrow> Inl AttributeError)"

definition py_getitem :: "pyval \<Rightarrow> string \<Rightarrow> exn + pyval" where
  "py_getitem v k =
     (case v of
        PDict d \<Rightarrow> (case map_of d k of Some x \<Rightarrow> Inr x | None \<Rightarrow> Inl (KeyError k))
      | _ \<Rightarrow> Inl TypeError)"

text \<open>\<open>v.startswith(p)\<close>: a method of \<open>str\<close> only.\<close>

definition py_startswith :: "pyval \<Rightarrow> string \<Rightarrow> exn + bool" where
  "py_startswith v p = (case v of PStr s \<Rightarrow> Inr (startswith s p) | _ \<Rightarrow> Inl AttributeError)"

definition is_str :: "pyval \<Rightarrow> bool" where
  "is_str v = (case v of PStr _ \<Rightarrow> True | _ \<Rightarrow> False)"

lemma py_get_dict [simp, dict_simps]: "py_get (PDict d) k = Inr (dict_get d k)"
  by (simp add: py_get_def)

lemma py_getitem_truthy [dict_simps]:
  "truthy (dict_get d k) \<Longrightarrow> py_getitem (PDict d) k = Inr (dict_get d k)"
  by (simp add: py_getitem_def dict_get_def split: option.splits)

lemma py_startswith_str [simp, dict_simps]: "py_startswith (PStr s) p = Inr (startswith s p)"
  by (simp add: py_startswith_def)

lemma py_startswith_Inl: "py_startswith v p = Inl e \<longleftrightarrow> \<not> is_str v \<and> e = AttributeError"
  by (cases v) (auto simp: py_startswith_def is_str_def)

lemma py_startswith_Inr: "py_startswith v p = Inr b \<longleftrightarrow> (\<exists>s. v = PStr s \<and> b = startswith s p)"
  by (cases v) (auto simp: py_startswith_def)

subsection \<open>Well-formed values\<close>

text \<open>
  The type invariant of the values the code can hold: every \<open>dict\<close>, at any depth,
  has distinct keys (a Python \<open>dict\<close> cannot hold a key twice).
\<close>

fun pyval_wf :: "pyval \<Rightarrow> bool" where
  "pyval_wf (PList xs) = (\<forall>x \<in> set xs. pyval_wf x)"
| "pyval_wf (PDict d) = (distinct (map fst d) \<and> (\<forall>(k, v) \<in> set d. pyval_wf v))"
| "pyval_wf _ = True"

lemma dict_update_distinct:
"distinct (map fst (a @ d)) \<Longrightarrow> dict_update a d = a @ d"
proof (induction d arbitrary: a)
  case Nil
  then show ?case by (simp add: dict_update_def)
next
  case (Cons kv d)
  obtain k v where kv: "kv = (k, v)" by fastforce
  with Cons.prems have "k \<notin> set (map fst a)" by auto
  then have "dict_setitem a k v = a @ [(k, v)]" by (simp add: dict_setitem_def)
  moreover have "distinct (map fst ((a @ [(k, v)]) @ d))"
    using Cons.prems kv by simp
  then have "dict_update (a @ [(k, v)]) d = (a @ [(k, v)]) @ d"
    by (rule Cons.IH)
  ultimately show ?case by (simp add: dict_update_def kv)
qed

end
