(* ===== verification/Validator.thy ===== *)
theory Validator
  imports PyValue
begin

text \<open>
  \<open>validate_setup_data\<close> of \<open>src/movie-agent-demo/config_manager.py\<close>: the check the
  \<open>/setup\<close> handler runs on the submitted form before anything is stored. Its six rules
  are tried in order and the first that fails gives the reason. The code reads the form
  with \<open>data.get\<close> and \<open>data[k].startswith\<close>, so a form that is not a \<open>dict\<close>, or a key
  field that holds a non-empty non-string, raises \<open>AttributeError\<close> instead of returning
  a reason. The rules of the spec (its section 4.2) are stated apart as a table
  \<open>setup_rules\<close> of predicates and messages, and the code is proved to return the
  message of the first rule that fails.
\<close>

definition msg_provider_required :: string where
  "msg_provider_required = ''LLM provider is required''"

definition msg_groq_required :: string where
  "msg_groq_required = ''Groq API key is required when using Groq''"

definition msg_openai_required :: string where
  "msg_openai_required = ''OpenAI API key is required when using OpenAI''"

definition msg_embeddings_required :: string where
  "msg_embeddings_required = ''OpenAI API key is required for embeddings''"

definition msg_openai_format :: string where
  "msg_openai_format = ''OpenAI API key format appears invalid (should start with 'sk-')''"

definition msg_groq_format :: string where
  "msg_groq_format = ''Groq API key format appears invalid (should start with 'gsk_')''"

lemmas validation_messages =
  msg_provider_required_def msg_groq_required_def msg_openai_required_def
  msg_embeddings_required_def msg_openai_format_def msg_groq_format_def

text \<open>\<open>data.get('llm_provider') == prov and not data.get(key)\<close>\<close>

definition key_missing_for :: "pyval \<Rightarrow> string \<Rightarrow> string \<Rightarrow> exn + bool" where
  "key_missing_for data prov key =
     sbind (py_get data ''llm_provider'') (\<lambda>provider.
       if provider = PStr prov
       then sbind (py_get data key) (\<lambda>v. Inr (\<not> truthy v))
       else Inr False)"

text \<open>\<open>data.get(key) and not data[key].startswith(prefix)\<close>\<close>

definition key_format_bad :: "pyval \<Rightarrow> string \<Rightarrow> string \<Rightarrow> exn + bool" where
  "key_format_bad data key prefix =
     sbind (py_get data key) (\<lambda>v.
       if truthy v
       then sbind (py_getitem data key) (\<lambda>x. sbind (py_startswith x prefix) (\<lambda>ok. Inr (\<not> ok)))
       else Inr False)"

definition validate_setup_data :: "pyval \<Rightarrow> exn + (bool \<times> string option)" where
  "validate_setup_data data =
     sbind (py_get data ''llm_provider'') (\<lambda>provider.
     if \<not> truthy provider then Inr (False, Some msg_provider_required) else
     sbind (key_missing_for data ''groq'' ''groq_api_key'') (\<lambda>no_groq_key.
     if no_groq_key then Inr (False, Some msg_groq_required) else
     sbind (key_missing_for data ''openai'' ''openai_api_key'') (\<lambda>no_openai_key.
     if no_openai_key then Inr (False, Some msg_openai_required) else
     sbind (py_get data ''openai_api_key'') (\<lambda>openai_key.
     if \<not> truthy openai_key then Inr (False, Some msg_embeddings_required) else
     sbind (key_format_bad data ''openai_api_key'' ''sk-'') (\<lambda>bad_openai.
     if bad_openai then Inr (False, Some msg_openai_format) else
     sbind (key_format_bad data ''groq_api_key'' ''gsk_'') (\<lambda>bad_groq.
     if bad_groq then Inr (False, Some msg_groq_format) else
     Inr (True, None)))))))"

subsection \<open>The rules of the spec\<close>

text \<open>A key field holds a string with the given prefix.\<close>

definition str_prefix :: "pyval \<Rightarrow> string \<Rightarrow> bool" where
  "str_prefix v p = (case v of PStr s \<Rightarrow> startswith s p | _ \<Rightarrow> False)"

text \<open>
  The six rules of the spec, in its order, each with the reason it names. "Present"
  is read as Python's truthiness, as the code reads it.
\<close>

definition setup_rules :: "((pydict \<Rightarrow> bool) \<times> string) list" where
  "setup_rules =
    [(\<lambda>d. truthy (dict_get d ''llm_provider''), msg_provider_required),
     (\<lambda>d. dict_get d ''llm_provider'' = PStr ''groq'' \<longrightarrow> truthy (dict_get d ''groq_api_key''),
        msg_groq_required),
     (\<lambda>d. dict_get d ''llm_provider'' = PStr ''openai'' \<longrightarrow> truthy (dict_get d ''openai_api_key''),
        msg_openai_required),
     (\<lambda>d. truthy (dict_get d ''openai_api_key''), msg_embeddings_required),
     (\<lambda>d. truthy (dict_get d ''openai_api_key'') \<longrightarrow> str_prefix (dict_get d ''openai_api_key'') ''sk-'',
        msg_openai_format),
     (\<lambda>d. truthy (dict_get d ''groq_api_key'') \<longrightarrow> str_prefix (dict_get d ''groq_api_key'') ''gsk_'',
        msg_groq_format)]"

definition first_failure :: "pydict \<Rightarrow> string option" where
  "first_failure d = map_option snd (find (\<lambda>(rule, _). \<not> rule d) setup_rules)"

definition setup_valid :: "pydict \<Rightarrow> bool" where
  "setup_valid d \<longleftrightarrow> list_all (\<lambda>(rule, _). rule d) setup_rules"

text \<open>The outcome the spec promises: the first failing rule's reason, or acceptance.\<close>

definition spec_outcome :: "pydict \<Rightarrow> bool \<times> string option" where
  "spec_outcome d = (case first_failure d of None \<Rightarrow> (True, None) | Some m \<Rightarrow> (False, Some m))"

subsection \<open>Evaluation on a dictionary\<close>

lemma key_missing_for_dict [simp]:
  "key_missing_for (PDict d) prov key =
     Inr (dict_get d ''llm_provider'' = PStr prov \<and> \<not> truthy (dict_get d key))"
  by (simp add: key_missing_for_def)

lemma key_format_bad_dict:
  "key_format_bad (PDict d) key prefix =
     (if \<not> truthy (dict_get d key) then Inr False
      else if is_str (dict_get d key) then Inr (\<not> str_prefix (dict_get d key) prefix)
      else Inl AttributeError)"
  by (cases "dict_get d key")
     (simp_all add: key_format_bad_def py_getitem_truthy is_str_def str_prefix_def
                   py_startswith_def)

lemma first_failure_None_iff: "first_failure d = None \<longleftrightarrow> setup_valid d"
  by (simp add: first_failure_def setup_valid_def setup_rules_def)

lemmas validate_unfold =
  validate_setup_data_def key_format_bad_dict first_failure_def spec_outcome_def
  setup_rules_def str_prefix_def is_str_def

subsection \<open>Properties\<close>

text \<open>
  C9. Refinement of the spec's rule table: on a form whose two key fields are strings
  (or falsy), \<open>validate_setup_data\<close> raises nothing and returns exactly what the spec
  promises: \<open>(True, None)\<close> when every rule holds, else \<open>(False, reason)\<close> with the
  reason of the first rule, in the spec's order, that fails.
\<close>

theorem validate_spec:
  assumes "\<not> truthy (dict_get d ''openai_api_key'') \<or> is_str (dict_get d ''openai_api_key'')"
    and "\<not> truthy (dict_get d ''groq_api_key'') \<or> is_str (dict_get d ''groq_api_key'')"
  shows "validate_setup_data (PDict d) = Inr (spec_outcome d)"
  using assms by (auto simp: validate_unfold split: pyval.splits)

theorem validate_spec_witness:
  "validate_setup_data (PDict [(''llm_provider'', PStr ''groq''), (''groq_api_key'', PStr ''gsk_1''),
                               (''openai_api_key'', PStr ''bad'')])
   = Inr (False, Some msg_openai_format)"
proof -
  let ?d = "[(''llm_provider'', PStr ''groq''), (''groq_api_key'', PStr ''gsk_1''),
             (''openai_api_key'', PStr ''bad'')]"
  have "validate_setup_data (PDict ?d) = Inr (spec_outcome ?d)"
    by (rule validate_spec) (simp_all add: dict_get_def is_str_def)
  then show ?thesis
    by (simp add: validate_unfold dict_get_def)
qed

text \<open>
  C10. Acceptance: for every dictionary, the validator returns \<open>(True, None)\<close> exactly
  when all six rules of the spec hold; a form it accepts is one the spec accepts, and
  conversely.
\<close>

theorem validate_accepts_iff:
  "validate_setup_data (PDict d) = Inr (True, None) \<longleftrightarrow> setup_valid d"
  by (auto simp: validate_unfold setup_valid_def split: pyval.splits if_splits)

theorem validate_accepts_iff_witness:
  "setup_valid [(''llm_provider'', PStr ''openai''), (''openai_api_key'', PStr ''sk-valid123'')]
   \<and> validate_setup_data (PDict [(''llm_provider'', PStr ''openai''),
                                  (''openai_api_key'', PStr ''sk-valid123'')]) = Inr (True, None)"
proof -
  have v: "setup_valid [(''llm_provider'', PStr ''openai''), (''openai_api_key'', PStr ''sk-valid123'')]"
    by (simp add: setup_valid_def setup_rules_def dict_get_def str_prefix_def)
  with validate_accepts_iff
    [of "[(''llm_provider'', PStr ''openai''), (''openai_api_key'', PStr ''sk-valid123'')]"]
  show ?thesis by simp
qed

text \<open>
  C11. Error path: the validator raises only \<open>AttributeError\<close>, and on a dictionary
  only when the OpenAI or the Groq key field holds a non-empty value that is not a string
  (\<open>data[k].startswith\<close> on an int, list, dict or \<open>True\<close>). The \<open>/setup\<close> handler then
  answers 500 instead of the 400 with a reason that the spec's validator contract
  describes.
\<close>

theorem validate_raises:
  assumes "validate_setup_data data = Inl e"
  shows "e = AttributeError \<and>
         (\<forall>d. data = PDict d \<longrightarrow>
              (truthy (dict_get d ''openai_api_key'') \<and> \<not> is_str (dict_get d ''openai_api_key'')) \<or>
              (truthy (dict_get d ''groq_api_key'') \<and> \<not> is_str (dict_get d ''groq_api_key'')))"
  using assms
  by (cases data)
     (auto simp: validate_unfold py_get_def split: pyval.splits if_splits)

theorem validate_raises_witness:
  "validate_setup_data (PDict [(''llm_provider'', PStr ''openai''), (''openai_api_key'', PInt 5)])
     = Inl AttributeError \<and>
   truthy (PInt 5) \<and> \<not> is_str (PInt 5)"
proof -
  have r: "validate_setup_data (PDict [(''llm_provider'', PStr ''openai''), (''openai_api_key'', PInt 5)])
             = Inl AttributeError"
    by (simp add: validate_unfold dict_get_def)
  from validate_raises [OF r] show ?thesis
    using r by (simp add: dict_get_def)
qed

text \<open>
  The validator scenarios of the spec's section 8, evaluated on the code: the empty
  form, Groq without its key, a bad OpenAI key format, and a valid OpenAI form.
\<close>

theorem validate_spec_scenarios:
  "validate_setup_data (PDict []) = Inr (False, Some ''LLM provider is required'') \<and>
   validate_setup_data (PDict [(''llm_provider'', PStr ''groq'')])
     = Inr (False, Some ''Groq API key is required when using Groq'') \<and>
   validate_setup_data (PDict [(''llm_provider'', PStr ''groq''), (''groq_api_key'', PStr ''gsk_abc''),
                               (''openai_api_key'', PStr ''bad'')])
     = Inr (False, Some ''OpenAI API key format appears invalid (should start with 'sk-')'') \<and>
   validate_setup_data (PDict [(''llm_provider'', PStr ''openai''), (''openai_api_key'', PStr ''sk-valid123'')])
     = Inr (True, None)"
  by (simp add: validate_unfold validation_messages dict_get_def)

end
