(* ===== verification/FileSystem.thy ===== *)
theory FileSystem
  imports Prelude
begin

text \<open>
  The part of the operating system that \<open>SecureConfigManager\<close> touches: a directory
  of files named by path, written through \<open>pathlib.Path.exists\<close>, \<open>open(p, 'rb')\<close>,
  \<open>open(p, 'wb')\<close>, \<open>os.chmod(p, 0o600)\<close> and \<open>Path.unlink\<close>. The state \<open>disk\<close> holds the
  contents of each file, the paths on which \<open>open\<close> and \<open>unlink\<close> fail with
  \<open>PermissionError\<close>, the files whose mode is owner-only, and whether the platform
  supports \<open>chmod\<close> at all (it does not on Windows). The manager's record extends
  \<open>disk\<close>, so these operations apply to the manager's state unchanged.
\<close>

record disk =
  files :: "path \<rightharpoonup> bytes"
  denied :: "path set"
  owner_only :: "path set"
  chmod_ok :: bool

text \<open>\<open>Path(p).exists()\<close>.\<close>

definition path_exists :: "path \<Rightarrow> 'a disk_scheme \<Rightarrow> bool" where
  "path_exists p s \<longleftrightarrow> files s p \<noteq> None"

text \<open>\<open>with open(p, 'rb') as f: return f.read()\<close>.\<close>

definition read_bytes :: "path \<Rightarrow> ('a disk_scheme, bytes) exc" where
  "read_bytes p = (\<lambda>s.
     if p \<in> denied s then (Inl (OSError p), s)
     else (case files s p of None \<Rightarrow> (Inl (OSError p), s) | Some b \<Rightarrow> (Inr b, s)))"

text \<open>
  \<open>with open(p, 'wb') as f: f.write(b)\<close>: the file is created or truncated and
  rewritten. A file that is created gets the default mode (not owner-only); an
  existing file keeps its mode.
\<close>

definition write_bytes :: "path \<Rightarrow> bytes \<Rightarrow> ('a disk_scheme, unit) exc" where
  "write_bytes p b = (\<lambda>s.
     if p \<in> denied s then (Inl (OSError p), s)
     else (Inr (), s\<lparr>files := (files s)(p \<mapsto> b),
                     owner_only := (if files s p = None then owner_only s - {p}
                                    else owner_only s)\<rparr>))"

text \<open>
  \<open>try: os.chmod(p, 0o600) except Exception: pass\<close>: where \<open>chmod\<close> is supported the
  file becomes owner-only; where it raises, the exception is swallowed.
\<close>

definition chmod_600 :: "path \<Rightarrow> ('a disk_scheme, unit) exc" where
  "chmod_600 p = (\<lambda>s.
     (Inr (), if chmod_ok s \<and> files s p \<noteq> None then s\<lparr>owner_only := insert p (owner_only s)\<rparr>
              else s))"

text \<open>\<open>Path(p).unlink()\<close>.\<close>

definition unlink :: "path \<Rightarrow> ('a disk_scheme, unit) exc" where
  "unlink p = (\<lambda>s.
     if p \<in> denied s \<or> files s p = None then (Inl (OSError p), s)
     else (Inr (), s\<lparr>files := (files s)(p := None), owner_only := owner_only s - {p}\<rparr>))"

lemmas disk_ops = path_exists_def read_bytes_def write_bytes_def chmod_600_def unlink_def

lemma read_bytes_ok [simp]:
  "p \<notin> denied s \<Longrightarrow> files s p = Some b \<Longrightarrow> read_bytes p s = (Inr b, s)"
  by (simp add: read_bytes_def)

lemma read_bytes_result: "read_bytes p s = (r, s') \<Longrightarrow> s' = s"
  by (auto simp: read_bytes_def split: if_splits option.splits)

lemma write_bytes_ok [simp]:
  "p \<notin> denied s \<Longrightarrow> write_bytes p b s =
     (Inr (), s\<lparr>files := (files s)(p \<mapsto> b),
                owner_only := (if files s p = None then owner_only s - {p} else owner_only s)\<rparr>)"
  by (simp add: write_bytes_def)

lemma write_bytes_denied [simp]: "p \<in> denied s \<Longrightarrow> write_bytes p b s = (Inl (OSError p), s)"
  by (simp add: write_bytes_def)

lemma chmod_600_files: "chmod_600 p s = (r, s') \<Longrightarrow> files s' = files s"
  by (auto simp: chmod_600_def split: if_splits)

lemma unlink_ok [simp]:
  "p \<notin> denied s \<Longrightarrow> files s p \<noteq> None \<Longrightarrow>
   unlink p s = (Inr (), s\<lparr>files := (files s)(p := None), owner_only := owner_only s - {p}\<rparr>)"
  by (simp add: unlink_def)

end
