(* ===== verification/Fernet.thy ===== *)
theory Fernet
  imports Prelude
begin

text \<open>
  The interface the manager uses of \<open>cryptography.fernet.Fernet\<close>, a library the
  sources only call: \<open>Fernet.generate_key()\<close>, the constructor \<open>Fernet(key)\<close> (which
  rejects a malformed key with \<open>ValueError\<close>), \<open>encrypt\<close> and \<open>decrypt\<close> (which raises
  \<open>InvalidToken\<close>). Randomness (the key's bytes, the token's IV and timestamp) is an
  explicit seed of type \<open>nat\<close>. The contract \<open>fernet_ok\<close> is what an authenticated
  symmetric scheme promises: generated keys are well formed, decryption inverts
  encryption, and a token decrypts only if it was produced by \<open>encrypt\<close> under that key
  (ciphertext integrity, idealised). \<open>toy_fernet\<close> is an implementation that meets the
  contract, so that the theorems stated for every such scheme can be run on a
  concrete input.
\<close>

record fernet =
  generate_key :: "nat \<Rightarrow> bytes"
  valid_key :: "bytes \<Rightarrow> bool"
  encrypt :: "bytes \<Rightarrow> nat \<Rightarrow> bytes \<Rightarrow> bytes"
  decrypt :: "bytes \<Rightarrow> bytes \<Rightarrow> bytes option"

definition fernet_ok :: "fernet \<Rightarrow> bool" where
  "fernet_ok F \<longleftrightarrow>
     (\<forall>r. valid_key F (generate_key F r)) \<and>
     (\<forall>k r p. valid_key F k \<longrightarrow> decrypt F k (encrypt F k r p) = Some p) \<and>
     (\<forall>k c p. decrypt F k c = Some p \<longrightarrow> (\<exists>r. c = encrypt F k r p))"

lemma fernet_generate_valid: "fernet_ok F \<Longrightarrow> valid_key F (generate_key F r)"
  unfolding fernet_ok_def by blast

lemma fernet_decrypt_encrypt [simp]:
  "fernet_ok F \<Longrightarrow> valid_key F k \<Longrightarrow> decrypt F k (encrypt F k r p) = Some p"
  unfolding fernet_ok_def by blast

lemma fernet_decrypt_authentic:
  "fernet_ok F \<Longrightarrow> decrypt F k c = Some p \<Longrightarrow> \<exists>r. c = encrypt F k r p"
  unfolding fernet_ok_def by blast

subsection \<open>An implementation of the contract\<close>

text \<open>
  Keys are non-empty; a token is the key followed by the plaintext. It is no cipher,
  but it meets \<open>fernet_ok\<close>, which is all the manager's theorems assume.
\<close>

definition toy_fernet :: fernet where
  "toy_fernet =
     \<lparr>generate_key = (\<lambda>r. replicate (Suc r) CHR ''k''),
      valid_key = (\<lambda>k. k \<noteq> []),
      encrypt = (\<lambda>k r p. k @ p),
      decrypt = (\<lambda>k c. if startswith c k then Some (drop (length k) c) else None)\<rparr>"

lemma toy_fernet_ok: "fernet_ok toy_fernet"
  by (auto simp: fernet_ok_def toy_fernet_def startswith_iff)

end
