(* ===== verification/JsonCodec.thy ===== *)
theory JsonCodec
  imports PyValue
begin

text \<open>
  The serialisation \<open>save_config\<close> and \<open>load_config\<close> go through:
  \<open>json.dumps(config, indent=2)\<close> then \<open>.encode('utf-8')\<close>, and back
  \<open>.decode('utf-8')\<close> then \<open>json.loads\<close>. The encoder follows CPython's
  \<open>_make_iterencode\<close> with \<open>indent = '  '\<close>, item separator \<open>','\<close>, key separator
  \<open>': '\<close> and \<open>ensure_ascii=True\<close> (every character outside \<open>' '..'~'\<close> is escaped);
  the decoder follows the scanner of \<open>json.decoder\<close> (\<open>JSONObject\<close>, \<open>JSONArray\<close>,
  \<open>scanstring\<close> in strict mode, \<open>NUMBER_RE\<close>). Python strings are modelled as
  \<open>string\<close>, whose characters are the code points 0..255; a \<open>\uXXXX\<close> escape beyond
  that range, and a number with a fraction or an exponent (a float), are outside the
  model and decode to failure. The decoder is recursive through arrays and objects and
  carries fuel; \<open>json_loads\<close> gives it one unit more than twice the length of its
  input. Every call either consumes input or is followed by one that does, so that fuel
  is enough: with any larger fuel the decoder returns the same result.
\<close>

abbreviation bslash :: char where "bslash \<equiv> CHR 0x5C"
abbreviation dquote :: char where "dquote \<equiv> CHR 0x22"
abbreviation newline :: char where "newline \<equiv> CHR 0x0A"

subsection \<open>Encoding\<close>

definition hexdigit :: "nat \<Rightarrow> char" where
  "hexdigit n = ''0123456789abcdef'' ! n"

text \<open>\<open>ESCAPE_DCT\<close> and the \<open>\u{0:04x}\<close> replacement of \<open>py_encode_basestring_ascii\<close>.\<close>

definition escape_char :: "char \<Rightarrow> string" where
  "escape_char c =
     (if c = bslash then [bslash, bslash]
      else if c = dquote then [bslash, dquote]
      else if c = newline then [bslash, CHR ''n'']
      else if c = CHR 0x0D then [bslash, CHR ''r'']
      else if c = CHR 0x09 then [bslash, CHR ''t'']
      else if c = CHR 0x08 then [bslash, CHR ''b'']
      else if c = CHR 0x0C then [bslash, CHR ''f'']
      else if 32 \<le> (of_char c :: nat) \<and> (of_char c :: nat) \<le> 126 then [c]
      else [bslash, CHR ''u'', CHR ''0'', CHR ''0'',
            hexdigit (of_char c div 16), hexdigit (of_char c mod 16)])"

definition encode_basestring_ascii :: "string \<Rightarrow> string" where
  "encode_basestring_ascii s = dquote # concat (map escape_char s) @ [dquote]"

fun nat_repr :: "nat \<Rightarrow> string" where
  "nat_repr n = (if n < 10 then [char_of (48 + n)] else nat_repr (n div 10) @ [char_of (48 + n mod 10)])"

declare nat_repr.simps [simp del]

text \<open>\<open>int.__repr__\<close>\<close>

definition int_repr :: "int \<Rightarrow> string" where
  "int_repr i = (if i < 0 then CHR ''-'' # nat_repr (nat (- i)) else nat_repr (nat i))"

text \<open>\<open>'\n' + indent * level\<close>\<close>

definition newline_indent :: "nat \<Rightarrow> string" where
  "newline_indent l = newline # replicate (2 * l) (CHR '' '')"

fun join :: "string \<Rightarrow> string list \<Rightarrow> string" where
  "join sep [] = []"
| "join sep [x] = x"
| "join sep (x # xs) = x @ sep @ join sep xs"

text \<open>
  \<open>_iterencode\<close> at nesting level \<open>l\<close>: an empty container is \<open>[]\<close> or \<open>{}\<close>; a
  non-empty one puts each item on its own line, indented one level deeper, and the
  closing bracket on a line at level \<open>l\<close>.
\<close>

fun dumps_at :: "nat \<Rightarrow> pyval \<Rightarrow> string" where
  "dumps_at l PNone = ''null''"
| "dumps_at l (PBool b) = (if b then ''true'' else ''false'')"
| "dumps_at l (PInt i) = int_repr i"
| "dumps_at l (PStr s) = encode_basestring_ascii s"
| "dumps_at l (PList xs) =
     (if xs = [] then ''[]''
      else CHR ''['' # newline_indent (Suc l)
           @ join (CHR '','' # newline_indent (Suc l)) (map (dumps_at (Suc l)) xs)
           @ newline_indent l @ '']'')"
| "dumps_at l (PDict d) =
     (if d = [] then ''{}''
      else CHR ''{'' # newline_indent (Suc l)
           @ join (CHR '','' # newline_indent (Suc l))
                  (map (\<lambda>(k, v). encode_basestring_ascii k @ '': '' @ dumps_at (Suc l) v) d)
           @ newline_indent l @ ''}'')"

definition json_dumps :: "pyval \<Rightarrow> string" where
  "json_dumps v = dumps_at 0 v"

subsection \<open>Decoding\<close>

definition is_ws :: "char \<Rightarrow> bool" where
  "is_ws c \<longleftrightarrow> c = CHR '' '' \<or> c = CHR 0x09 \<or> c = newline \<or> c = CHR 0x0D"

text \<open>\<open>WHITESPACE.match(s, end).end()\<close>\<close>

fun skip_ws :: "string \<Rightarrow> string" where
  "skip_ws [] = []"
| "skip_ws (c # s) = (if is_ws c then skip_ws s else c # s)"

definition hexval :: "char \<Rightarrow> nat option" where
  "hexval c =
     (let n = (of_char c :: nat) in
      if 48 \<le> n \<and> n \<le> 57 then Some (n - 48)
      else if 97 \<le> n \<and> n \<le> 102 then Some (n - 87)
      else if 65 \<le> n \<and> n \<le> 70 then Some (n - 55)
      else None)"

text \<open>\<open>BACKSLASH\<close>: the one-character escapes.\<close>

definition backslash_escape :: "char \<Rightarrow> char option" where
  "backslash_escape e =
     (if e = dquote then Some dquote
      else if e = bslash then Some bslash
      else if e = CHR ''/'' then Some (CHR ''/'')
      else if e = CHR ''b'' then Some (CHR 0x08)
      else if e = CHR ''f'' then Some (CHR 0x0C)
      else if e = CHR ''n'' then Some newline
      else if e = CHR ''r'' then Some (CHR 0x0D)
      else if e = CHR ''t'' then Some (CHR 0x09)
      else None)"

text \<open>
  \<open>scanstring(s, end, strict=True)\<close>, from just after the opening quote; the
  characters read so far are kept reversed in \<open>acc\<close>. An unterminated string, a raw
  control character, an unknown escape or a malformed \<open>\uXXXX\<close> is an error.
\<close>

fun scanstring :: "string \<Rightarrow> string \<Rightarrow> (string \<times> string) option" where
  "scanstring acc [] = None"
| "scanstring acc (c # s) =
     (if c = dquote then Some (rev acc, s)
      else if c = bslash then
        (case s of
           [] \<Rightarrow> None
         | e # s' \<Rightarrow>
             (if e = CHR ''u'' then
                (case s' of
                   a # b # c # d # r \<Rightarrow>
                     (case (hexval a, hexval b, hexval c, hexval d) of
                        (Some x1, Some x2, Some x3, Some x4) \<Rightarrow>
                          (let n = ((x1 * 16 + x2) * 16 + x3) * 16 + x4 in
                           if n < 256 then scanstring (char_of n # acc) r else None)
                      | _ \<Rightarrow> None)
                 | _ \<Rightarrow> None)
              else (case backslash_escape e of
                      None \<Rightarrow> None
                    | Some ch \<Rightarrow> scanstring (ch # acc) s')))
      else if (of_char c :: nat) < 32 then None
      else scanstring (c # acc) s)"

definition is_digit :: "char \<Rightarrow> bool" where
  "is_digit c \<longleftrightarrow> 48 \<le> (of_char c :: nat) \<and> (of_char c :: nat) \<le> 57"

definition digit_val :: "char \<Rightarrow> nat" where
  "digit_val c = of_char c - 48"

definition digits_value :: "string \<Rightarrow> nat" where
  "digits_value ds = foldl (\<lambda>n c. 10 * n + digit_val c) 0 ds"

text \<open>
  \<open>NUMBER_RE = (-?(?:0|[1-9]\d*))(\.\d+)?([eE][-+]?\d+)?\<close>: the integer part, and
  whether a fraction or an exponent follows (then \<open>float\<close> is called).
\<close>

definition has_float_part :: "string \<Rightarrow> bool" where
  "has_float_part r \<longleftrightarrow>
     (case r of
        c # d # _ \<Rightarrow>
          (c = CHR ''.'' \<and> is_digit d) \<or>
          ((c = CHR ''e'' \<or> c = CHR ''E'') \<and>
             (is_digit d \<or> ((d = CHR ''+'' \<or> d = CHR ''-'') \<and>
                            (case drop 2 r of x # _ \<Rightarrow> is_digit x | [] \<Rightarrow> False))))
      | _ \<Rightarrow> False)"

definition match_number :: "string \<Rightarrow> (pyval \<times> string) option" where
  "match_number s =
     (let (neg, s1) = (case s of c # r \<Rightarrow> if c = CHR ''-'' then (True, r) else (False, s)
                               | [] \<Rightarrow> (False, s)) in
      case s1 of
        [] \<Rightarrow> None
      | c # r \<Rightarrow>
          (if c = CHR ''0'' then
             (if has_float_part r then None else Some (PInt 0, r))
           else if is_digit c then
             (let ds = c # takeWhile is_digit r; rest = dropWhile is_digit r;
                  n = int (digits_value ds) in
              if has_float_part rest then None
              else Some (PInt (if neg then - n else n), rest))
           else None))"

text \<open>
  \<open>scan_once\<close> with \<open>JSONArray\<close> and \<open>JSONObject\<close>, each call spending one unit of
  fuel. \<open>parse_array_items\<close> starts at an element, \<open>parse_object_items\<close> just after
  the opening quote of a key; both keep the items read so far reversed. An object is
  built with \<open>dict(pairs)\<close>: a repeated key keeps its first position and its last value.
\<close>

fun parse_value :: "nat \<Rightarrow> string \<Rightarrow> (pyval \<times> string) option"
and parse_array_items :: "nat \<Rightarrow> pyval list \<Rightarrow> string \<Rightarrow> (pyval \<times> string) option"
and parse_object_items :: "nat \<Rightarrow> pydict \<Rightarrow> string \<Rightarrow> (pyval \<times> string) option" where
  "parse_value 0 s = None"
| "parse_value (Suc n) s =
     (case s of
        [] \<Rightarrow> None
      | c # r \<Rightarrow>
          (if c = dquote then map_option (\<lambda>(str, rest). (PStr str, rest)) (scanstring [] r)
           else if c = CHR ''{'' then
             (case skip_ws r of
                [] \<Rightarrow> None
              | c' # r' \<Rightarrow>
                  if c' = CHR ''}'' then Some (PDict [], r')
                  else if c' = dquote then parse_object_items n [] r'
                  else None)
           else if c = CHR ''['' then
             (case skip_ws r of
                [] \<Rightarrow> None
              | c' # r' \<Rightarrow>
                  if c' = CHR '']'' then Some (PList [], r')
                  else parse_array_items n [] (c' # r'))
           else if startswith s ''null'' then Some (PNone, drop 4 s)
           else if startswith s ''true'' then Some (PBool True, drop 4 s)
           else if startswith s ''false'' then Some (PBool False, drop 5 s)
           else match_number s))"
| "parse_array_items 0 acc s = None"
| "parse_array_items (Suc n) acc s =
     (case parse_value n s of
        None \<Rightarrow> None
      | Some (v, rest) \<Rightarrow>
          (case skip_ws rest of
             [] \<Rightarrow> None
           | c # r \<Rightarrow>
               if c = CHR '']'' then Some (PList (rev (v # acc)), r)
               else if c = CHR '','' then
                 (case skip_ws r of
                    [] \<Rightarrow> None
                  | c' # r' \<Rightarrow>
                      if c' = CHR '']'' then None
                      else parse_array_items n (v # acc) (c' # r'))
               else None))"
| "parse_object_items 0 acc s = None"
| "parse_object_items (Suc n) acc s =
     (case scanstring [] s of
        None \<Rightarrow> None
      | Some (key, r) \<Rightarrow>
          (case skip_ws r of
             [] \<Rightarrow> None
           | c # r1 \<Rightarrow>
               if c \<noteq> CHR '':'' then None
               else
                 (case parse_value n (skip_ws r1) of
                    None \<Rightarrow> None
                  | Some (v, r2) \<Rightarrow>
                      (case skip_ws r2 of
                         [] \<Rightarrow> None
                       | c2 # r3 \<Rightarrow>
                           if c2 = CHR ''}'' then
                             Some (PDict (dict_update [] (rev ((key, v) # acc))), r3)
                           else if c2 = CHR '','' then
                             (case skip_ws r3 of
                                [] \<Rightarrow> None
                              | c3 # r4 \<Rightarrow>
                                  if c3 = dquote then parse_object_items n ((key, v) # acc) r4
                                  else None)
                           else None))))"

text \<open>
  \<open>JSONDecoder.decode\<close>: leading whitespace, one value, trailing whitespace, and
  nothing else (\<open>"Extra data"\<close>).
\<close>

definition json_loads :: "string \<Rightarrow> pyval option" where
  "json_loads s =
     (case parse_value (Suc (2 * length s)) (skip_ws s) of
        None \<Rightarrow> None
      | Some (v, rest) \<Rightarrow> if skip_ws rest = [] then Some v else None)"

subsection \<open>UTF-8\<close>

text \<open>
  \<open>str.encode('utf-8')\<close> on code points below 256, and \<open>bytes.decode('utf-8')\<close> on
  the byte sequences that decode to such code points; every other byte sequence (invalid
  UTF-8, or a code point the model's strings cannot hold) is a failure.
\<close>

definition utf8_encode_char :: "char \<Rightarrow> bytes" where
  "utf8_encode_char c =
     (let n = (of_char c :: nat) in
      if n < 128 then [c] else [char_of (192 + n div 64), char_of (128 + n mod 64)])"

definition utf8_encode :: "string \<Rightarrow> bytes" where
  "utf8_encode s = concat (map utf8_encode_char s)"

fun utf8_decode :: "bytes \<Rightarrow> string option" where
  "utf8_decode [] = Some []"
| "utf8_decode (b # bs) =
     (let n = (of_char b :: nat) in
      if n < 128 then map_option (Cons b) (utf8_decode bs)
      else if n = 194 \<or> n = 195 then
        (case bs of
           [] \<Rightarrow> None
         | b2 # bs' \<Rightarrow>
             (let m = (of_char b2 :: nat) in
              if 128 \<le> m \<and> m < 192
              then map_option (Cons (char_of ((n - 192) * 64 + (m - 128)))) (utf8_decode bs')
              else None))
      else None)"

subsection \<open>Round trip\<close>

text \<open>
  What a value's text may be followed by (\<open>delim\<close>: the end of the input, the
  item separator or a line break, so a number is not continued), the fuel the decoder
  spends on a value, and "the value's text at any nesting level, followed by any
  delimiter, decodes back to the value" (\<open>parses_back\<close>).
\<close>

definition delim :: "string \<Rightarrow> bool" where
  "delim rest \<longleftrightarrow> (case rest of [] \<Rightarrow> True | c # _ \<Rightarrow> c = CHR '','' \<or> c = newline)"

fun fuel_need :: "pyval \<Rightarrow> nat" where
  "fuel_need (PList xs) = Suc (sum_list (map (\<lambda>x. Suc (fuel_need x)) xs))"
| "fuel_need (PDict d) = Suc (sum_list (map (\<lambda>(k, v). Suc (fuel_need v)) d))"
| "fuel_need _ = 1"

definition parses_back :: "pyval \<Rightarrow> bool" where
  "parses_back x \<longleftrightarrow>
     (\<forall>n l rest. fuel_need x \<le> n \<longrightarrow> delim rest \<longrightarrow>
        parse_value n (dumps_at l x @ rest) = Some (x, rest))"

abbreviation dict_item :: "nat \<Rightarrow> string \<times> pyval \<Rightarrow> string" where
  "dict_item l \<equiv> (\<lambda>(k, v). encode_basestring_ascii k @ '': '' @ dumps_at (Suc l) v)"

lemma hexval_hexdigit: "k < 16 \<Longrightarrow> hexval (hexdigit k) = Some k"
  by (auto simp: less_Suc_eq numeral_eq_Suc hexval_def hexdigit_def)

lemma scanstring_unicode_escape:
  "scanstring acc ([bslash, CHR ''u'', CHR ''0'', CHR ''0'',
                    hexdigit (of_char c div 16), hexdigit (of_char c mod 16)] @ t)
   = scanstring (c # acc) t"
proof -
  have lt: "(of_char c :: nat) < 256" by (rule nat_of_char_less_256)
  then have d: "(of_char c :: nat) div 16 < 16"
    by (simp add: less_mult_imp_div_less)
  have m: "(of_char c :: nat) mod 16 < 16" by simp
  have n: "(of_char c :: nat) div 16 * 16 + of_char c mod 16 = of_char c"
    by simp
  have z: "hexval (CHR ''0'') = Some 0" by (simp add: hexval_def)
  show ?thesis
    using lt by (simp add: hexval_hexdigit [OF d] hexval_hexdigit [OF m] z n)
qed

lemma scanstring_escape_char:
  "scanstring acc (escape_char c @ t) = scanstring (c # acc) t"
proof (cases "c = bslash \<or> c = dquote \<or> c = newline \<or> c = CHR 0x0D \<or> c = CHR 0x09 \<or>
              c = CHR 0x08 \<or> c = CHR 0x0C")
  case True
  then show ?thesis by (auto simp: escape_char_def backslash_escape_def)
next
  case special: False
  show ?thesis
  proof (cases "32 \<le> (of_char c :: nat) \<and> (of_char c :: nat) \<le> 126")
    case True
    with special show ?thesis by (simp add: escape_char_def)
  next
    case False
    with special have "escape_char c = [bslash, CHR ''u'', CHR ''0'', CHR ''0'',
                          hexdigit (of_char c div 16), hexdigit (of_char c mod 16)]"
      by (simp add: escape_char_def)
    then show ?thesis by (simp only: scanstring_unicode_escape)
  qed
qed

lemma scanstring_escaped:
  "scanstring acc (concat (map escape_char s) @ dquote # rest) = Some (rev acc @ s, rest)"
  by (induction s arbitrary: acc) (simp_all add: scanstring_escape_char)

lemma is_digit_char_of: "(k::nat) < 10 \<Longrightarrow> is_digit (char_of (48 + k))"
  by (simp add: is_digit_def)

lemma digit_val_char_of: "(k::nat) < 10 \<Longrightarrow> digit_val (char_of (48 + k)) = k"
  by (simp add: digit_val_def)

lemma nat_repr_digits: "\<forall>c \<in> set (nat_repr n). is_digit c"
  by (induction n rule: nat_repr.induct) (subst nat_repr.simps, auto simp: is_digit_char_of)

lemma digits_value_snoc: "digits_value (ds @ [c]) = 10 * digits_value ds + digit_val c"
  by (simp add: digits_value_def)

lemma digits_value_nat_repr: "digits_value (nat_repr n) = n"
proof (induction n rule: nat_repr.induct)
  case (1 n)
  show ?case
  proof (cases "n < 10")
    case True
    then show ?thesis by (subst nat_repr.simps) (simp add: digits_value_def digit_val_char_of)
  next
    case False
    with "1.IH" show ?thesis
      by (subst nat_repr.simps) (simp add: digits_value_snoc digit_val_char_of)
  qed
qed

lemma char_of_digit_zero: "(k::nat) < 10 \<Longrightarrow> char_of (48 + k) = CHR ''0'' \<longleftrightarrow> k = 0"
proof -
  assume "k < 10"
  have "(of_char (CHR ''0'') :: nat) = 48" by simp
  then have "CHR ''0'' = char_of (48::nat)"
    by (metis char_of_char)
  then have "char_of (48 + k) = CHR ''0'' \<longleftrightarrow> (48 + k) mod 256 = (48::nat) mod 256"
    by (simp only: char_of_quasi_inj)
  with \<open>k < 10\<close> show ?thesis by simp
qed

lemma nat_repr_Cons: "\<exists>d ds. nat_repr n = d # ds \<and> (d = CHR ''0'' \<longleftrightarrow> n = 0)"
proof (induction n rule: nat_repr.induct)
  case (1 n)
  show ?case
  proof (cases "n < 10")
    case True
    then show ?thesis by (subst nat_repr.simps) (simp add: char_of_digit_zero)
  next
    case False
    from "1.IH" [OF False] obtain d ds where
      "nat_repr (n div 10) = d # ds" and "d = CHR ''0'' \<longleftrightarrow> n div 10 = 0"
      by auto
    with False show ?thesis by (subst nat_repr.simps) simp
  qed
qed

lemma delim_Cons_not_digit: "delim (c # r) \<Longrightarrow> \<not> is_digit c"
  by (auto simp: delim_def is_digit_def)

lemma delim_no_float: "delim rest \<Longrightarrow> \<not> has_float_part rest"
  by (auto simp: delim_def has_float_part_def split: list.splits)

lemma delim_dropWhile_digit: "delim rest \<Longrightarrow> dropWhile is_digit rest = rest"
  by (cases rest) (auto dest: delim_Cons_not_digit)

lemma delim_takeWhile_digit: "delim rest \<Longrightarrow> takeWhile is_digit rest = []"
  by (cases rest) (auto dest: delim_Cons_not_digit)

lemma match_number_pos:
  assumes "is_digit d" "d \<noteq> CHR ''0''" "delim rest" "\<forall>c\<in>set ds. is_digit c"
  shows "match_number (d # ds @ rest) = Some (PInt (int (digits_value (d # ds))), rest)"
proof -
  have "d \<noteq> CHR ''-''" using assms(1) by (auto simp: is_digit_def)
  moreover have "\<not> has_float_part (dropWhile is_digit (ds @ rest))"
    using assms by (simp add: delim_dropWhile_digit delim_no_float)
  ultimately show ?thesis
    using assms by (simp add: match_number_def delim_takeWhile_digit delim_dropWhile_digit)
qed

lemma match_number_neg:
  assumes "is_digit d" "d \<noteq> CHR ''0''" "delim rest" "\<forall>c\<in>set ds. is_digit c"
  shows "match_number (CHR ''-'' # d # ds @ rest) = Some (PInt (- int (digits_value (d # ds))), rest)"
proof -
  have "\<not> has_float_part (dropWhile is_digit (ds @ rest))"
    using assms by (simp add: delim_dropWhile_digit delim_no_float)
  then show ?thesis
    using assms by (simp add: match_number_def delim_takeWhile_digit delim_dropWhile_digit)
qed

lemma match_number_zero: "delim rest \<Longrightarrow> match_number (CHR ''0'' # rest) = Some (PInt 0, rest)"
  by (simp add: match_number_def delim_no_float)

lemma match_number_nat_repr:
  assumes "delim rest"
  shows "match_number (nat_repr m @ rest) = Some (PInt (int m), rest)"
    and "0 < m \<Longrightarrow> match_number (CHR ''-'' # nat_repr m @ rest) = Some (PInt (- int m), rest)"
proof -
  obtain d ds where nr: "nat_repr m = d # ds" and z: "d = CHR ''0'' \<longleftrightarrow> m = 0"
    using nat_repr_Cons [of m] by metis
  have dig: "is_digit d" "\<forall>c \<in> set ds. is_digit c"
    using nat_repr_digits [of m] nr by simp_all
  have val: "digits_value (d # ds) = m"
    using digits_value_nat_repr [of m] nr by simp
  show "match_number (nat_repr m @ rest) = Some (PInt (int m), rest)"
  proof (cases "m = 0")
    case True
    then have "nat_repr m = [CHR ''0'']" using nr z by (simp add: nat_repr.simps)
    with True assms show ?thesis by (simp add: match_number_zero)
  next
    case False
    with z have "d \<noteq> CHR ''0''" by simp
    with dig val assms nr show ?thesis by (simp add: match_number_pos)
  qed
  show "match_number (CHR ''-'' # nat_repr m @ rest) = Some (PInt (- int m), rest)" if "0 < m"
  proof -
    from that z have "d \<noteq> CHR ''0''" by simp
    with dig val assms nr show ?thesis by (simp add: match_number_neg)
  qed
qed

lemma match_number_int_repr:
  "delim rest \<Longrightarrow> match_number (int_repr i @ rest) = Some (PInt i, rest)"
  using match_number_nat_repr [of rest "nat (- i)"] match_number_nat_repr [of rest "nat i"]
  by (auto simp: int_repr_def)

lemma skip_ws_spaces: "skip_ws (replicate k (CHR '' '') @ t) = skip_ws t"
  by (induction k) (simp_all add: is_ws_def)

lemma skip_ws_newline_indent [simp]: "skip_ws (newline_indent l @ t) = skip_ws t"
  by (simp add: newline_indent_def is_ws_def skip_ws_spaces)

lemma delim_newline_indent [simp]: "delim (newline_indent l @ t)"
  by (simp add: newline_indent_def delim_def)

lemma delim_comma [simp]: "delim (CHR '','' # t)"
  by (simp add: delim_def)

lemma delim_Nil [simp]: "delim []"
  by (simp add: delim_def)

lemma int_repr_Cons: "\<exists>c r. int_repr i = c # r \<and> (c = CHR ''-'' \<or> is_digit c)"
proof -
  obtain d ds where "nat_repr (nat (if i < 0 then - i else i)) = d # ds"
    using nat_repr_Cons by metis
  moreover have "is_digit d"
    using nat_repr_digits [of "nat (if i < 0 then - i else i)"] calculation by simp
  ultimately show ?thesis by (auto simp: int_repr_def)
qed

lemma dumps_at_Cons:
  "\<exists>c r. dumps_at l v = c # r \<and> \<not> is_ws c \<and> c \<noteq> CHR '']'' \<and> c \<noteq> CHR ''}''"
proof (cases v)
  case (PInt i)
  then show ?thesis
    using int_repr_Cons [of i] by (auto simp: is_ws_def is_digit_def)
qed (auto simp: is_ws_def encode_basestring_ascii_def)

lemma skip_ws_dumps_at [simp]: "skip_ws (dumps_at l v @ t) = dumps_at l v @ t"
  using dumps_at_Cons [of l v] by auto


lemma join_Cons: "join sep (x # xs) = x @ (if xs = [] then [] else sep @ join sep xs)"
  by (cases xs) simp_all

lemma parse_array_dumps:
  assumes "\<forall>x \<in> set xs. parses_back x" "xs \<noteq> []"
    and "sum_list (map (\<lambda>x. Suc (fuel_need x)) xs) \<le> n"
  shows "parse_array_items n acc
           (join (CHR '','' # newline_indent (Suc l)) (map (dumps_at (Suc l)) xs)
            @ newline_indent l @ CHR '']'' # rest)
         = Some (PList (rev acc @ xs), rest)"
  using assms
proof (induction xs arbitrary: acc n)
  case Nil
  then show ?case by simp
next
  case (Cons x xs)
  from Cons.prems(3) obtain n' where n: "n = Suc n'" and fx: "fuel_need x \<le> n'"
    and fxs: "sum_list (map (\<lambda>x. Suc (fuel_need x)) xs) \<le> n'"
    by (cases n) auto
  have px: "parse_value n' (dumps_at (Suc l) x @ t) = Some (x, t)" if "delim t" for t
    using Cons.prems(1) fx that by (simp add: parses_back_def)
  show ?case
  proof (cases xs)
    case Nil
    have "parse_value n' (dumps_at (Suc l) x @ newline_indent l @ CHR '']'' # rest)
            = Some (x, newline_indent l @ CHR '']'' # rest)"
      by (rule px) simp
    with Nil n show ?thesis by (simp add: is_ws_def)
  next
    case (Cons y ys)
    obtain c r where cr: "dumps_at (Suc l) y = c # r" "\<not> is_ws c" "c \<noteq> CHR '']''"
      using dumps_at_Cons by blast
    let ?rest' = "join (CHR '','' # newline_indent (Suc l)) (map (dumps_at (Suc l)) (y # ys))
                  @ newline_indent l @ CHR '']'' # rest"
    have "parse_value n' (dumps_at (Suc l) x @ (CHR '','' # newline_indent (Suc l)) @ ?rest')
            = Some (x, (CHR '','' # newline_indent (Suc l)) @ ?rest')"
      by (rule px) simp
    moreover have "parse_array_items n' (x # acc) ?rest' = Some (PList (rev (x # acc) @ xs), rest)"
      using Cons.IH [of n' "x # acc"] Cons.prems(1) fxs \<open>xs = y # ys\<close> by simp
    ultimately show ?thesis
      using n cr \<open>xs = y # ys\<close> by (simp add: is_ws_def join_Cons)
  qed
qed

lemma parse_object_dumps:
  assumes "\<forall>(k, v) \<in> set d. parses_back v" "d \<noteq> []"
    and "sum_list (map (\<lambda>(k, v). Suc (fuel_need v)) d) \<le> n"
  shows "parse_object_items n acc
           (tl (join (CHR '','' # newline_indent (Suc l)) (map (dict_item l) d)
                @ newline_indent l @ CHR ''}'' # rest))
         = Some (PDict (dict_update [] (rev acc @ d)), rest)"
  using assms
proof (induction d arbitrary: acc n)
  case Nil
  then show ?case by simp
next
  case (Cons kv d)
  obtain k v where kv: "kv = (k, v)" by fastforce
  from Cons.prems(3) kv obtain n' where n: "n = Suc n'" and fv: "fuel_need v \<le> n'"
    and fd: "sum_list (map (\<lambda>(k, v). Suc (fuel_need v)) d) \<le> n'"
    by (cases n) auto
  have pv: "parse_value n' (dumps_at (Suc l) v @ t) = Some (v, t)" if "delim t" for t
    using Cons.prems(1) kv fv that by (auto simp: parses_back_def)
  let ?R = "(if d = [] then [] else (CHR '','' # newline_indent (Suc l))
              @ join (CHR '','' # newline_indent (Suc l)) (map (dict_item l) d))
            @ newline_indent l @ CHR ''}'' # rest"
  have R: "delim ?R"
    by simp
  have scan: "scanstring [] (concat (map escape_char k) @ dquote # '': '' @ dumps_at (Suc l) v @ ?R)
              = Some (k, '': '' @ dumps_at (Suc l) v @ ?R)"
    using scanstring_escaped [of "[]" k] by simp
  have val: "parse_value n' (dumps_at (Suc l) v @ ?R) = Some (v, ?R)"
    using R by (rule pv)
  show ?case
  proof (cases d)
    case Nil
    with scan val n kv show ?thesis
      by (simp add: join_Cons encode_basestring_ascii_def is_ws_def)
  next
    case (Cons kv' d')
    obtain k' v' where kv': "kv' = (k', v')" by fastforce
    have "parse_object_items n' ((k, v) # acc)
            (tl (join (CHR '','' # newline_indent (Suc l)) (map (dict_item l) d)
                 @ newline_indent l @ CHR ''}'' # rest))
          = Some (PDict (dict_update [] (rev ((k, v) # acc) @ d)), rest)"
      using Cons.IH [of n' "(k, v) # acc"] Cons.prems(1) fd \<open>d = kv' # d'\<close> by simp
    with scan val n kv kv' \<open>d = kv' # d'\<close> show ?thesis
      by (simp add: join_Cons encode_basestring_ascii_def is_ws_def)
  qed
qed

lemma parse_value_str:
  "parse_value (Suc n) (encode_basestring_ascii s @ rest) = Some (PStr s, rest)"
  using scanstring_escaped [of "[]" s rest] by (simp add: encode_basestring_ascii_def)

lemma parse_value_int:
  assumes "delim rest"
  shows "parse_value (Suc n) (int_repr i @ rest) = Some (PInt i, rest)"
proof -
  obtain c r where cr: "int_repr i = c # r" "c = CHR ''-'' \<or> is_digit c"
    using int_repr_Cons by blast
  have m: "match_number (c # r @ rest) = Some (PInt i, rest)"
    using match_number_int_repr [OF assms, of i] cr(1) by simp
  have "c \<noteq> dquote \<and> c \<noteq> CHR ''{'' \<and> c \<noteq> CHR ''['' \<and> c \<noteq> CHR ''n'' \<and> c \<noteq> CHR ''t'' \<and> c \<noteq> CHR ''f''"
    using cr(2) by (auto simp: is_digit_def)
  then show ?thesis
    using m by (simp add: cr(1))
qed

lemma parse_value_list:
  assumes "\<forall>x \<in> set xs. parses_back x" "fuel_need (PList xs) \<le> n" "delim rest"
  shows "parse_value n (dumps_at l (PList xs) @ rest) = Some (PList xs, rest)"
proof -
  from assms(2) obtain n' where n: "n = Suc n'"
    and f: "sum_list (map (\<lambda>x. Suc (fuel_need x)) xs) \<le> n'"
    by (cases n) auto
  show ?thesis
  proof (cases xs)
    case Nil
    then show ?thesis by (simp add: n is_ws_def)
  next
    case (Cons x xs')
    let ?T = "newline_indent l @ CHR '']'' # rest"
    obtain c r where c: "dumps_at (Suc l) x = c # r" "\<not> is_ws c" "c \<noteq> CHR '']''"
      using dumps_at_Cons by blast
    then obtain r' where
      J: "join (CHR '','' # newline_indent (Suc l)) (dumps_at (Suc l) x # map (dumps_at (Suc l)) xs')
          @ ?T = c # r'"
      by (simp add: join_Cons)
    have A: "parse_array_items n' [] (c # r') = Some (PList xs, rest)"
      using parse_array_dumps [OF assms(1) _ f, of "[]" l rest] Cons by (simp add: J)
    show ?thesis
      using Cons n c(2,3) A by (simp add: J)
  qed
qed

lemma parse_value_dict:
  assumes "\<forall>(k, v) \<in> set d. parses_back v" "distinct (map fst d)"
    and "fuel_need (PDict d) \<le> n" "delim rest"
  shows "parse_value n (dumps_at l (PDict d) @ rest) = Some (PDict d, rest)"
proof -
  from assms(3) obtain n' where n: "n = Suc n'"
    and f: "sum_list (map (\<lambda>(k, v). Suc (fuel_need v)) d) \<le> n'"
    by (cases n) auto
  show ?thesis
  proof (cases d)
    case Nil
    then show ?thesis by (simp add: n is_ws_def)
  next
    case (Cons kv d')
    obtain X where X: "X = join (CHR '','' # newline_indent (Suc l)) (map (dict_item l) d)
                           @ newline_indent l @ CHR ''}'' # rest"
      by simp
    have E: "dumps_at l (PDict d) @ rest = CHR ''{'' # newline_indent (Suc l) @ X"
      using Cons X by simp
    have S: "skip_ws X = dquote # tl X"
      using Cons X by (cases kv) (simp add: join_Cons encode_basestring_ascii_def is_ws_def)
    have "parse_object_items n' [] (tl X) = Some (PDict (dict_update [] d), rest)"
      using parse_object_dumps [OF assms(1) _ f, of "[]" l rest] Cons X by simp
    moreover have "dict_update [] d = d"
      using dict_update_distinct [of "[]" d] assms(2) by simp
    ultimately show ?thesis
      unfolding E by (simp add: n S)
  qed
qed

lemma fuel_need_pos: "0 < fuel_need v"
  by (cases v) simp_all

lemma parses_back_intro:
  assumes "\<And>m l rest. delim rest \<Longrightarrow> fuel_need v \<le> Suc m \<Longrightarrow>
             parse_value (Suc m) (dumps_at l v @ rest) = Some (v, rest)"
  shows "parses_back v"
  unfolding parses_back_def
proof (intro allI impI)
  fix n l rest
  assume "fuel_need v \<le> n" "delim rest"
  moreover from this(1) fuel_need_pos [of v] obtain m where "n = Suc m"
    by (cases n) auto
  ultimately show "parse_value n (dumps_at l v @ rest) = Some (v, rest)"
    using assms by simp
qed

lemma parses_back_wf: "pyval_wf v \<Longrightarrow> parses_back v"
proof (induction v)
  case PNone
  show ?case by (rule parses_back_intro) simp
next
  case (PBool b)
  show ?case
    by (rule parses_back_intro) simp
next
  case (PInt i)
  show ?case by (rule parses_back_intro) (simp del: parse_value.simps add: parse_value_int)
next
  case (PStr s)
  show ?case by (rule parses_back_intro) (simp del: parse_value.simps add: parse_value_str)
next
  case (PList xs)
  then have pb: "\<forall>x \<in> set xs. parses_back x" by simp
  show ?case
    unfolding parses_back_def using parse_value_list [OF pb] by blast
next
  case (PDict d)
  then have pb: "\<forall>(k, v) \<in> set d. parses_back v" and dist: "distinct (map fst d)"
    by fastforce+
  show ?case
    unfolding parses_back_def using parse_value_dict [OF pb dist] by blast
qed

lemma length_join:
  "xs \<noteq> [] \<Longrightarrow> length (join sep xs) + length sep = sum_list (map (\<lambda>x. length x + length sep) xs)"
  by (induction sep xs rule: join.induct) simp_all

lemma join_length_bound:
  assumes "xs \<noteq> []" and "\<And>x. x \<in> set xs \<Longrightarrow> f x \<le> length (g x) + length sep"
  shows "sum_list (map f xs) \<le> length (join sep (map g xs)) + length sep"
proof -
  have "sum_list (map f xs) \<le> sum_list (map (\<lambda>y. length y + length sep) (map g xs))"
    unfolding map_map o_def by (rule sum_list_mono) (rule assms(2))
  also have "\<dots> = length (join sep (map g xs)) + length sep"
    using length_join [of "map g xs" sep] assms(1) by simp
  finally show ?thesis .
qed

lemma fuel_need_le_length: "fuel_need v \<le> length (dumps_at l v)"
proof (induction v arbitrary: l)
  case (PInt i)
  then show ?case using int_repr_Cons [of i] by auto
next
  case (PStr s)
  then show ?case by (simp add: encode_basestring_ascii_def)
next
  case (PList xs)
  have "sum_list (map (\<lambda>x. Suc (fuel_need x)) xs)
        \<le> length (join (CHR '','' # newline_indent (Suc l)) (map (dumps_at (Suc l)) xs))
          + length (CHR '','' # newline_indent (Suc l))" if "xs \<noteq> []"
    using that by (rule join_length_bound) (auto intro: trans_le_add1 PList.IH)
  then show ?case by (cases "xs = []") (simp_all add: newline_indent_def)
next
  case (PDict d)
  have "sum_list (map (\<lambda>(k, v). Suc (fuel_need v)) d)
        \<le> length (join (CHR '','' # newline_indent (Suc l)) (map (dict_item l) d))
          + length (CHR '','' # newline_indent (Suc l))" if "d \<noteq> []"
    using that by (rule join_length_bound) (auto dest: PDict.IH [of _ _ "Suc l"])
  then show ?case by (cases "d = []") (simp_all add: newline_indent_def)
qed simp_all


subsection \<open>ASCII output, UTF-8, decoder invariant\<close>

lemma hexdigit_ascii: "n < 16 \<Longrightarrow> (of_char (hexdigit n) :: nat) < 128"
  by (auto simp: hexdigit_def less_Suc_eq numeral_eq_Suc)

lemma escape_char_ascii: "\<forall>x \<in> set (escape_char c). (of_char x :: nat) < 128"
proof -
  have "(of_char c :: nat) div 16 < 16"
    using nat_of_char_less_256 [of c] by (simp add: less_mult_imp_div_less)
  then show ?thesis
    by (auto simp: escape_char_def hexdigit_ascii)
qed

lemma nat_repr_ascii: "\<forall>x \<in> set (nat_repr n). (of_char x :: nat) < 128"
  using nat_repr_digits [of n] by (auto simp: is_digit_def)

lemma set_join: "set (join sep xs) \<subseteq> set sep \<union> \<Union> (set ` set xs)"
  by (induction sep xs rule: join.induct) auto

lemma join_all:
  "\<forall>y \<in> set ys. \<forall>x \<in> set y. P x \<Longrightarrow> \<forall>x \<in> set sep. P x \<Longrightarrow> \<forall>x \<in> set (join sep ys). P x"
  by (induction sep ys rule: join.induct) auto

lemma dumps_at_ascii: "\<forall>x \<in> set (dumps_at l v). (of_char x :: nat) < 128"
proof (induction v arbitrary: l)
  case (PInt i)
  then show ?case using nat_repr_ascii by (auto simp: int_repr_def)
next
  case (PStr s)
  then show ?case using escape_char_ascii by (auto simp: encode_basestring_ascii_def)
next
  case (PList xs)
  then have "\<forall>y \<in> set (map (dumps_at (Suc l)) xs). \<forall>x \<in> set y. (of_char x :: nat) < 128"
    by auto
  then have "\<forall>x \<in> set (join (CHR '','' # newline_indent (Suc l)) (map (dumps_at (Suc l)) xs)).
               (of_char x :: nat) < 128"
    by (rule join_all) (simp add: newline_indent_def)
  then show ?case
    by (auto simp: newline_indent_def)
next
  case (PDict d)
  have "\<forall>y \<in> set (map (\<lambda>(k, v). encode_basestring_ascii k @ '': '' @ dumps_at (Suc l) v) d).
          \<forall>x \<in> set y. (of_char x :: nat) < 128"
    using PDict.IH escape_char_ascii
    by (fastforce simp: encode_basestring_ascii_def intro: snds.intros)
  then have "\<forall>x \<in> set (join (CHR '','' # newline_indent (Suc l))
                 (map (\<lambda>(k, v). encode_basestring_ascii k @ '': '' @ dumps_at (Suc l) v) d)).
               (of_char x :: nat) < 128"
    by (rule join_all) (simp add: newline_indent_def)
  then show ?case
    by (auto simp: newline_indent_def)
qed auto

lemma utf8_encode_ascii: "\<forall>x \<in> set s. (of_char x :: nat) < 128 \<Longrightarrow> utf8_encode s = s"
  by (induction s) (simp_all add: utf8_encode_def utf8_encode_char_def)

lemma utf8_decode_char:
  "utf8_decode (utf8_encode_char c @ t) = map_option (Cons c) (utf8_decode t)"
proof (cases "(of_char c :: nat) < 128")
  case True
  then show ?thesis by (simp add: utf8_encode_char_def)
next
  case False
  let ?n = "of_char c :: nat"
  have lt: "?n < 256" by simp
  then have hi: "?n div 64 = 2 \<or> ?n div 64 = 3"
    using False by linarith
  have b1: "(of_char (char_of (192 + ?n div 64)) :: nat) = 192 + ?n div 64"
    using hi by auto
  have b2: "(of_char (char_of (128 + ?n mod 64)) :: nat) = 128 + ?n mod 64"
    by simp
  have e: "?n div 64 * 64 + ?n mod 64 = ?n" by (rule div_mult_mod_eq)
  have c2: "char_of (128 + ?n mod 64) = c" if "?n div 64 = 2"
  proof -
    from e that have "128 + ?n mod 64 = ?n" by simp
    then show ?thesis by (metis char_of_char)
  qed
  have c3: "char_of (192 + ?n mod 64) = c" if "?n div 64 = 3"
  proof -
    from e that have "192 + ?n mod 64 = ?n" by simp
    then show ?thesis by (metis char_of_char)
  qed
  show ?thesis
    using False hi by (auto simp: utf8_encode_char_def Let_def b1 b2 c2 c3)
qed

lemma utf8_decode_encode: "utf8_decode (utf8_encode s) = Some s"
proof (induction s)
  case Nil
  then show ?case by (simp add: utf8_encode_def)
next
  case (Cons c s)
  have "utf8_decode (utf8_encode (c # s)) = utf8_decode (utf8_encode_char c @ utf8_encode s)"
    by (simp add: utf8_encode_def)
  also have "\<dots> = Some (c # s)"
    by (simp add: utf8_decode_char Cons.IH)
  finally show ?case .
qed

lemma json_loads_dumps: "pyval_wf v \<Longrightarrow> json_loads (json_dumps v) = Some v"
proof -
  assume "pyval_wf v"
  then have "parses_back v" by (rule parses_back_wf)
  moreover have "fuel_need v \<le> Suc (2 * length (dumps_at 0 v))"
    using fuel_need_le_length [of v 0] by simp
  ultimately have "parse_value (Suc (2 * length (dumps_at 0 v))) (dumps_at 0 v @ []) = Some (v, [])"
    unfolding parses_back_def using delim_Nil by blast
  then have P: "parse_value (Suc (2 * length (dumps_at 0 v))) (dumps_at 0 v) = Some (v, [])"
    by (simp del: parse_value.simps)
  have S: "skip_ws (dumps_at 0 v) = dumps_at 0 v"
    using skip_ws_dumps_at [of 0 v "[]"] by simp
  show ?thesis
    unfolding json_loads_def json_dumps_def using P S by (simp del: parse_value.simps)
qed

text \<open>
  C12. Round trip of the persisted format: every well-formed value (every nested dict with
  distinct keys, as a Python dict is) that \<open>json.dumps(config, indent=2)\<close> writes is
  read back by \<open>json.loads\<close> as the same value, within the fuel the decoder is given.
\<close>

theorem json_roundtrip: "pyval_wf v \<Longrightarrow> json_loads (json_dumps v) = Some v"
  by (rule json_loads_dumps)

lemma values_dict_setitem: "snd ` set (dict_setitem d k v) \<subseteq> snd ` set d \<union> {v}"
  by (auto simp: dict_setitem_def split: if_splits)

lemma values_dict_update: "snd ` set (dict_update d u) \<subseteq> snd ` set d \<union> snd ` set u"
proof (induction u arbitrary: d)
  case Nil
  then show ?case by (simp add: dict_update_def)
next
  case (Cons kv u)
  obtain k v where kv: "kv = (k, v)" by fastforce
  have "dict_update d (kv # u) = dict_update (dict_setitem d k v) u"
    by (simp add: dict_update_def kv)
  then show ?case
    using Cons.IH [of "dict_setitem d k v"] values_dict_setitem [of d k v] kv by auto
qed

lemma pyval_wf_dict_update:
  assumes "\<forall>(k, x) \<in> set u. pyval_wf x"
  shows "pyval_wf (PDict (dict_update [] u))"
proof -
  have "dict_wf (dict_update [] u)" by (rule dict_wf_update) (simp add: dict_wf_def)
  moreover have "\<forall>x \<in> snd ` set (dict_update [] u). pyval_wf x"
    using values_dict_update [of "[]" u] assms by fastforce
  ultimately show ?thesis by (fastforce simp: dict_wf_def)
qed

lemma match_number_PInt: "match_number s = Some (v, r) \<Longrightarrow> \<exists>i. v = PInt i"
  by (auto simp: match_number_def Let_def split: list.splits if_splits prod.splits)

lemma parse_wf:
  "parse_value n s = Some (v, r) \<Longrightarrow> pyval_wf v"
  "parse_array_items n acc s = Some (v, r) \<Longrightarrow> \<forall>x \<in> set acc. pyval_wf x \<Longrightarrow> pyval_wf v"
  "parse_object_items n pairs s = Some (v, r) \<Longrightarrow> \<forall>(k, x) \<in> set pairs. pyval_wf x \<Longrightarrow> pyval_wf v"
proof (induction n s and n acc s and n pairs s arbitrary: v r and v r and v r
       rule: parse_value_parse_array_items_parse_object_items.induct)
  case (2 n s)
  then show ?case
    by (auto split: list.splits if_splits option.splits prod.splits dest: match_number_PInt)
next
  case (4 n acc s)
  then show ?case
    by (auto split: list.splits if_splits option.splits prod.splits)
next
  case (6 n pairs s)
  then show ?case
    by (auto split: list.splits if_splits option.splits prod.splits intro!: pyval_wf_dict_update)
qed simp_all

lemma json_loads_pyval_wf: "json_loads s = Some v \<Longrightarrow> pyval_wf v"
  by (auto simp: json_loads_def simp del: parse_value.simps
           split: option.splits prod.splits if_splits dest: parse_wf(1))

theorem json_roundtrip_witness:
  "pyval_wf (PDict [(''llm_provider'', PStr ''openai''), (''openai_api_key'', PStr ''sk-x''),
                    (''enable_vision'', PBool True), (''memory_max_turns'', PInt 10)]) \<and>
   json_loads (json_dumps (PDict [(''llm_provider'', PStr ''openai''), (''openai_api_key'', PStr ''sk-x''),
                    (''enable_vision'', PBool True), (''memory_max_turns'', PInt 10)]))
   = Some (PDict [(''llm_provider'', PStr ''openai''), (''openai_api_key'', PStr ''sk-x''),
                    (''enable_vision'', PBool True), (''memory_max_turns'', PInt 10)])"
proof -
  have w: "pyval_wf (PDict [(''llm_provider'', PStr ''openai''), (''openai_api_key'', PStr ''sk-x''),
                    (''enable_vision'', PBool True), (''memory_max_turns'', PInt 10)])"
    by simp
  show ?thesis using json_roundtrip [OF w] w by simp
qed

subsection \<open>The decoder's fuel\<close>

text \<open>
  Every call of the decoder that returns consumes input, and fuel beyond twice the length
  of the input is never used up: a call at a value spends one unit and hands at most the
  rest of its input on, a call at an item of an array or object spends one unit and
  first reads a value there.
\<close>

lemma skip_ws_length: "length (skip_ws s) \<le> length s"
  by (induction s) auto

lemma scanstring_length: "scanstring acc s = Some (x, rest) \<Longrightarrow> length rest < length s"
proof (induction acc s rule: scanstring.induct)
  case (2 acc c s)
  then show ?case
    by (auto split: if_splits list.splits option.splits simp: Let_def) (metis less_SucI)+
qed simp

lemma dropWhile_length: "length (dropWhile P r) \<le> length r"
  by (induction r) auto

lemma match_number_length: "match_number s = Some (v, rest) \<Longrightarrow> length rest < length s"
  by (auto simp: match_number_def Let_def split: if_splits list.splits
           intro: le_less_trans [OF dropWhile_length])


lemma skip_ws_less: "skip_ws r = c # r' \<Longrightarrow> length r' < length r"
  using skip_ws_length [of r] by simp

lemma parse_length:
  "parse_value n s = Some (v, rest) \<Longrightarrow> length rest < length s"
  "parse_array_items n acc s = Some (v, rest) \<Longrightarrow> length rest < length s"
  "parse_object_items n d s = Some (v, rest) \<Longrightarrow> length rest < length s"
proof (induction n s and n acc s and n d s arbitrary: v rest and acc v rest and d v rest
       rule: parse_value_parse_array_items_parse_object_items.induct)
  case (2 n s)
  then show ?case
    apply (auto simp del: parse_value.simps(1) split: if_splits list.splits option.splits
             dest!: scanstring_length match_number_length skip_ws_less
             intro: less_SucI less_trans)
    subgoal premises p using p(1) [OF refl refl p(3)] p(4) by simp
    subgoal premises p using p(1) [OF refl refl p(3) p(4)] p(5) by simp
    done
next
  case (4 n acc s)
  then show ?case
    apply (auto split: if_splits list.splits option.splits dest!: skip_ws_less)
    subgoal premises p using p(2) [OF refl refl refl refl p(4) p(5)] p(1,6,7) by simp
    done
next
  case (6 n d s)
  then show ?case
    apply (auto split: if_splits list.splits option.splits dest!: skip_ws_less scanstring_length)
    subgoal premises p for a b x22 aa ba
      using p(3) [OF refl refl refl refl] skip_ws_length [of x22] p(1,2,6) by simp
    subgoal premises p for a b x22 aa ba x22a x22b
      using p(3) [OF refl refl refl refl] p(4) [OF refl refl refl refl refl refl refl p(6)]
            skip_ws_length [of x22] p(1,2,7,8) by simp
    done
qed simp_all


lemma parse_fuel_stable:
  "2 * length s < n \<Longrightarrow> 2 * length s < m \<Longrightarrow> parse_value n s = parse_value m s"
  "Suc (2 * length s) < n \<Longrightarrow> Suc (2 * length s) < m \<Longrightarrow>
   parse_array_items n acc s = parse_array_items m acc s"
  "Suc (2 * length s) < n \<Longrightarrow> Suc (2 * length s) < m \<Longrightarrow>
   parse_object_items n d s = parse_object_items m d s"
proof (induction n s and n acc s and n d s arbitrary: m and m and m
       rule: parse_value_parse_array_items_parse_object_items.induct)
  case (2 n s)
  note IH = "2.IH" and P = "2.prems"
  from P obtain m' where m: "m = Suc m'" by (cases m) auto
  show ?case
  proof (cases s)
    case (Cons c r)
    have b: "2 * length r + 2 \<le> n" "2 * length r + 1 < m'" using P Cons m by simp_all
    have poi: "parse_object_items n [] r' = parse_object_items m' [] r'"
      if "skip_ws r = c' # r'" "c = CHR ''{''" "c' = dquote" for c' r'
      by (rule IH(1) [OF Cons _ _ that(1)]) (use that b skip_ws_less [OF that(1)] in simp_all)
    have pai: "parse_array_items n [] (c' # r') = parse_array_items m' [] (c' # r')"
      if "skip_ws r = c' # r'" "c = CHR ''[''" "c' \<noteq> CHR '']''" for c' r'
      by (rule IH(2) [OF Cons _ _ _ that(1)]) (use that b skip_ws_less [OF that(1)] in simp_all)
    show ?thesis
      using Cons by (simp add: m pai poi split: list.split)
  qed (simp add: m)
next
  case (4 n acc s)
  note IH = "4.IH" and P = "4.prems"
  from P obtain m' where m: "m = Suc m'" by (cases m) auto
  have pv: "parse_value m' s = parse_value n s" using IH(1) [of m'] P m by simp
  have pai: "parse_array_items n (v # acc) (c' # r') = parse_array_items m' (v # acc) (c' # r')"
    if "parse_value n s = Some (v, y)" "skip_ws y = c # r" "c = CHR '',''"
       "skip_ws r = c' # r'" "c' \<noteq> CHR '']''" for v y c r c' r'
    by (rule IH(2) [OF that(1) refl that(2) _ that(3) that(4) that(5)])
       (use that P m parse_length(1) [OF that(1)] skip_ws_less [OF that(2)]
            skip_ws_less [OF that(4)] in simp_all)
  show ?case
    by (simp add: m pv pai split: option.split prod.split list.split)
next
  case (6 n d s)
  note IH = "6.IH" and P = "6.prems"
  from P obtain m' where m: "m = Suc m'" by (cases m) auto
  have pv: "parse_value m' (skip_ws r1) = parse_value n (skip_ws r1)"
    if "scanstring [] s = Some (k, y)" "skip_ws y = c # r1" "c = CHR '':''" for k y c r1
    using IH(1) [OF that(1) refl that(2), of m'] that P m scanstring_length [OF that(1)]
          skip_ws_less [OF that(2)] skip_ws_length [of r1] by simp
  have poi: "parse_object_items n ((k, v) # d) r4 = parse_object_items m' ((k, v) # d) r4"
    if "scanstring [] s = Some (k, y)" "skip_ws y = c # r1" "c = CHR '':''"
       "parse_value n (skip_ws r1) = Some (v, r2)" "skip_ws r2 = c2 # r3" "c2 = CHR '',''"
       "skip_ws r3 = c3 # r4" "c3 = dquote" for k y c r1 v r2 c2 r3 c3 r4
    by (rule IH(2) [OF that(1) refl that(2) _ that(4) refl that(5) _ that(6) that(7) that(8)])
       (use that P m scanstring_length [OF that(1)] skip_ws_less [OF that(2)]
            skip_ws_length [of r1] parse_length(1) [OF that(4)] skip_ws_less [OF that(5)]
            skip_ws_less [OF that(7)] in simp_all)
  show ?case
    by (simp add: m pv poi split: option.split prod.split list.split)
qed simp_all

text \<open>
  Adequacy of the fuel: \<open>json_loads\<close> returns what the decoder returns with any fuel
  larger than twice the length of the text, so the bound never cuts off a decoding that
  Python's unbounded recursion would complete.
\<close>

theorem json_loads_fuel_enough:
  assumes "2 * length s < n"
  shows "json_loads s =
           (case parse_value n (skip_ws s) of
              None \<Rightarrow> None
            | Some (v, rest) \<Rightarrow> if skip_ws rest = [] then Some v else None)"
proof -
  have "parse_value (Suc (2 * length s)) (skip_ws s) = parse_value n (skip_ws s)"
    using assms skip_ws_length [of s] by (intro parse_fuel_stable(1)) simp_all
  then show ?thesis by (simp add: json_loads_def)
qed

theorem json_loads_fuel_enough_witness:
  "2 * length ''[1, {\"a\": null}]'' < (1000::nat) \<and>
   json_loads ''[1, {\"a\": null}]'' =
     (case parse_value 1000 (skip_ws ''[1, {\"a\": null}]'') of
        None \<Rightarrow> None
      | Some (v, rest) \<Rightarrow> if skip_ws rest = [] then Some v else None)"
proof -
  have h: "2 * length ''[1, {\"a\": null}]'' < (1000::nat)" by simp
  from json_loads_fuel_enough [OF h] h show ?thesis by blast
qed

end
