(* ===== verification/ConfigManager.thy ===== *)
theory ConfigManager
  imports FileSystem Fernet JsonCodec
begin

text \<open>
  \<open>SecureConfigManager\<close> (src/movie-agent-demo/config_manager.py, lines 13-122). Its
  state is the record \<open>mgr\<close>: the filesystem it works on (\<open>disk\<close>, extended) and the
  three attributes \<open>__init__\<close> sets, \<open>config_file\<close>, \<open>master_key_file\<close> and \<open>_cipher\<close>,
  the cached \<open>Fernet\<close> object, represented by the key it was built from. Each method is
  an operation of the exception-with-state monad of the Prelude, parametrised by the
  \<open>Fernet\<close> implementation and by the seed of the randomness it draws
  (\<open>Fernet.generate_key\<close>, the token's IV).
\<close>

record mgr = disk +
  config_file :: path
  master_key_file :: path
  cipher :: "bytes option"

text \<open>\<open>SecureConfigManager(config_file, master_key_file)\<close> on the current filesystem.\<close>

definition SecureConfigManager_init :: "path \<Rightarrow> path \<Rightarrow> 'a mgr_scheme \<Rightarrow> 'a mgr_scheme" where
  "SecureConfigManager_init cf kf s = s\<lparr>config_file := cf, master_key_file := kf, cipher := None\<rparr>"

text \<open>\<open>SecureConfigManager()\<close> with the default paths, as app.py constructs it.\<close>

definition SecureConfigManager_default :: "'a mgr_scheme \<Rightarrow> 'a mgr_scheme" where
  "SecureConfigManager_default s = SecureConfigManager_init ''config.encrypted'' ''.master_key'' s"

definition is_configured :: "'a mgr_scheme \<Rightarrow> bool" where
  "is_configured s \<longleftrightarrow> path_exists (config_file s) s \<and> path_exists (master_key_file s) s"

definition get_or_create_master_key :: "fernet \<Rightarrow> nat \<Rightarrow> ('a mgr_scheme, bytes) exc" where
  "get_or_create_master_key F r = (\<lambda>s.
     if path_exists (master_key_file s) s then read_bytes (master_key_file s) s
     else (let key = generate_key F r in
           ebind (write_bytes (master_key_file s) key)
             (\<lambda>_. ebind (chmod_600 (master_key_file s)) (\<lambda>_. ret key)) s))"

text \<open>\<open>Fernet(key)\<close>: a malformed key is rejected.\<close>

definition fernet_init :: "fernet \<Rightarrow> bytes \<Rightarrow> ('s, bytes) exc" where
  "fernet_init F key =
     (if valid_key F key then ret key
      else raise (ValueError ''Fernet key must be 32 url-safe base64-encoded bytes.''))"

definition get_cipher :: "fernet \<Rightarrow> nat \<Rightarrow> ('a mgr_scheme, bytes) exc" where
  "get_cipher F r = (\<lambda>s.
     case cipher s of
       Some k \<Rightarrow> (Inr k, s)
     | None \<Rightarrow> ebind (get_or_create_master_key F r)
                 (\<lambda>key. ebind (fernet_init F key) (\<lambda>k s'. (Inr k, s'\<lparr>cipher := Some k\<rparr>))) s)"

definition save_config :: "fernet \<Rightarrow> nat \<Rightarrow> pyval \<Rightarrow> ('a mgr_scheme, unit) exc" where
  "save_config F r config =
     ebind (get_cipher F r) (\<lambda>k s.
       (let encrypted = encrypt F k r (utf8_encode (json_dumps config)) in
        ebind (write_bytes (config_file s) encrypted) (\<lambda>_. chmod_600 (config_file s)) s))"

text \<open>
  \<open>str(e)\<close> of the exceptions \<open>load_config\<close> catches; only the kind of the exception
  matters to the theorems, the texts follow CPython's in outline.
\<close>

fun exn_str :: "exn \<Rightarrow> string" where
  "exn_str AttributeError = ''object has no attribute''"
| "exn_str (KeyError k) = k"
| "exn_str TypeError = ''unsupported operand type''"
| "exn_str (ValueError m) = m"
| "exn_str (OSError p) = ''[Errno 13] Permission denied: '' @ p"
| "exn_str InvalidToken = ''''"
| "exn_str UnicodeDecodeError = ''utf-8 codec can't decode byte''"
| "exn_str JSONDecodeError = ''Expecting value''"

definition load_error :: "exn \<Rightarrow> exn" where
  "load_error e = ValueError (''Failed to load configuration: '' @ exn_str e)"

text \<open>\<open>json.loads(cipher.decrypt(encrypted).decode('utf-8'))\<close>.\<close>

definition decode_config :: "fernet \<Rightarrow> bytes \<Rightarrow> bytes \<Rightarrow> exn + pyval" where
  "decode_config F k encrypted =
     (case decrypt F k encrypted of
        None \<Rightarrow> Inl InvalidToken
      | Some decrypted \<Rightarrow>
          (case utf8_decode decrypted of
             None \<Rightarrow> Inl UnicodeDecodeError
           | Some text \<Rightarrow>
               (case json_loads text of None \<Rightarrow> Inl JSONDecodeError | Some c \<Rightarrow> Inr c)))"

definition load_config :: "fernet \<Rightarrow> nat \<Rightarrow> ('a mgr_scheme, pyval option) exc" where
  "load_config F r = (\<lambda>s.
     if \<not> is_configured s then (Inr None, s)
     else catch
       (ebind (get_cipher F r) (\<lambda>k.
          ebind (read_bytes (config_file s)) (\<lambda>encrypted s'.
            (case decode_config F k encrypted of Inl e \<Rightarrow> Inl e | Inr c \<Rightarrow> Inr (Some c), s'))))
       (\<lambda>e. raise (load_error e)) s)"

text \<open>\<open>self.load_config() or {}\<close>: \<open>None\<close> and every false value give a new empty dict.\<close>

definition or_empty :: "pyval option \<Rightarrow> pyval" where
  "or_empty c = (case c of Some v \<Rightarrow> if truthy v then v else PDict [] | None \<Rightarrow> PDict [])"

definition update_config :: "fernet \<Rightarrow> nat \<Rightarrow> pydict \<Rightarrow> ('a mgr_scheme, unit) exc" where
  "update_config F r updates =
     ebind (load_config F r) (\<lambda>c.
       case or_empty c of
         PDict current \<Rightarrow> save_config F r (PDict (dict_update current updates))
       | _ \<Rightarrow> raise AttributeError)"

definition delete_config :: "('a mgr_scheme, unit) exc" where
  "delete_config =
     ebind (\<lambda>s. if path_exists (config_file s) s then unlink (config_file s) s else (Inr (), s))
       (\<lambda>_ s. if path_exists (master_key_file s) s then unlink (master_key_file s) s else (Inr (), s))"

subsection \<open>The key invariant\<close>

text \<open>
  The state the manager keeps consistent while it is used through \<open>save_config\<close>,
  \<open>load_config\<close> and \<open>update_config\<close>: the two paths differ, a cached cipher was built
  from the key that is on disk, and the key on disk is one \<open>Fernet\<close> accepts.
  \<open>delete_config\<close> does not keep it: it removes the key file and leaves the cipher.
\<close>

definition mgr_inv :: "fernet \<Rightarrow> 'a mgr_scheme \<Rightarrow> bool" where
  "mgr_inv F s \<longleftrightarrow>
     config_file s \<noteq> master_key_file s \<and>
     (case cipher s of None \<Rightarrow> True | Some k \<Rightarrow> files s (master_key_file s) = Some k) \<and>
     (case files s (master_key_file s) of None \<Rightarrow> True | Some k \<Rightarrow> valid_key F k)"

text \<open>The key \<open>_get_cipher\<close> hands out: the cached one, else the one on disk, else a new one.\<close>

definition active_key :: "fernet \<Rightarrow> nat \<Rightarrow> 'a mgr_scheme \<Rightarrow> bytes" where
  "active_key F r s =
     (case cipher s of Some k \<Rightarrow> k
      | None \<Rightarrow> (case files s (master_key_file s) of Some k \<Rightarrow> k | None \<Rightarrow> generate_key F r))"

text \<open>The fields of the state an operation may not change.\<close>

definition same_frame :: "'a mgr_scheme \<Rightarrow> 'a mgr_scheme \<Rightarrow> bool" where
  "same_frame s s' \<longleftrightarrow>
     config_file s' = config_file s \<and> master_key_file s' = master_key_file s \<and>
     denied s' = denied s \<and> chmod_ok s' = chmod_ok s \<and> more s' = more s"

text \<open>
  States for the examples: a manager with the default paths (as app.py builds it) on a
  directory with the given files, the given unwritable paths and the given cached key.
\<close>

abbreviation demo_mgr :: "(path \<rightharpoonup> bytes) \<Rightarrow> path set \<Rightarrow>
    bytes option \<Rightarrow> mgr" where
  "demo_mgr fs dn c \<equiv>
     \<lparr>files = fs, denied = dn, owner_only = {}, chmod_ok = True,
      config_file = ''config.encrypted'', master_key_file = ''.master_key'', cipher = c\<rparr>"

lemma same_frame_refl [simp]: "same_frame s s"
  by (simp add: same_frame_def)

text \<open>
  Frame lemmas: on every outcome, the manager's operations keep the paths, the
  permissions, the platform and the extension of the record (the rest of the program's
  state); \<open>load_config\<close> and \<open>delete_config\<close> do not touch the cached cipher's consistency
  with their own writes.
\<close>

lemma get_cipher_frame: "same_frame s (snd (get_cipher F r s))"
  by (auto simp: get_cipher_def get_or_create_master_key_def fernet_init_def same_frame_def
                 disk_ops ebind_def Let_def split: option.splits if_splits sum.splits prod.splits)

lemma get_cipher_files_configured:
  "path_exists (master_key_file s) s \<Longrightarrow> files (snd (get_cipher F r s)) = files s"
  by (auto simp: get_cipher_def get_or_create_master_key_def fernet_init_def read_bytes_def
                 ebind_def split: option.splits if_splits sum.splits prod.splits)

lemma save_config_frame: "same_frame s (snd (save_config F r c s))"
proof -
  obtain x s1 where g: "get_cipher F r s = (x, s1)" by fastforce
  with get_cipher_frame [of s F r] have "same_frame s s1" by simp
  with g show ?thesis
    by (auto simp: save_config_def ebind_def Let_def write_bytes_def chmod_600_def same_frame_def
             split: sum.splits)
qed

lemma load_config_frame:
  "same_frame s (snd (load_config F r s)) \<and> files (snd (load_config F r s)) = files s"
proof (cases "is_configured s")
  case True
  obtain x s1 where g: "get_cipher F r s = (x, s1)" by fastforce
  with get_cipher_frame [of s F r] have "same_frame s s1" by simp
  moreover from True g have "files s1 = files s"
    using get_cipher_files_configured [of s F r] by (simp add: is_configured_def)
  ultimately show ?thesis using g True
    by (auto simp: load_config_def ebind_def catch_def read_bytes_def same_frame_def
             split: sum.splits if_splits option.splits)
qed (simp add: load_config_def)

lemma delete_config_frame:
  "same_frame s (snd (delete_config s)) \<and> cipher (snd (delete_config s)) = cipher s"
  by (auto simp: delete_config_def ebind_def unlink_def same_frame_def
           split: if_splits prod.splits sum.splits)

text \<open>\<open>save_config\<close> with a cached cipher: no key file is read or written.\<close>

lemma save_cached:
  assumes k: "cipher s = Some k" and cf: "config_file s \<notin> denied s"
  shows "save_config F r c s =
           (Inr (), snd (chmod_600 (config_file s)
              (snd (write_bytes (config_file s) (encrypt F k r (utf8_encode (json_dumps c))) s))))"
  using k cf by (simp add: save_config_def get_cipher_def ebind_def Let_def chmod_600_def)

lemma get_cipher_ok:
  assumes F: "fernet_ok F" and inv: "mgr_inv F s" and kf: "master_key_file s \<notin> denied s"
  shows "\<exists>s'. get_cipher F r s = (Inr (active_key F r s), s') \<and> mgr_inv F s' \<and> same_frame s s' \<and>
              files s' = (files s)(master_key_file s \<mapsto> active_key F r s) \<and>
              cipher s' = Some (active_key F r s)"
proof (cases "cipher s")
  case None
  show ?thesis
  proof (cases "files s (master_key_file s)")
    case None': None
    with None F inv kf show ?thesis
      by (auto simp: get_cipher_def get_or_create_master_key_def fernet_init_def active_key_def
                     mgr_inv_def same_frame_def chmod_600_def path_exists_def ebind_def Let_def
                     fernet_generate_valid)
  next
    case (Some k)
    with None F inv kf show ?thesis
      by (auto simp: get_cipher_def get_or_create_master_key_def fernet_init_def active_key_def
                     mgr_inv_def same_frame_def path_exists_def ebind_def)
  qed
next
  case (Some k)
  with inv show ?thesis
    by (auto simp: get_cipher_def active_key_def mgr_inv_def)
qed

lemma active_key_valid:
  "fernet_ok F \<Longrightarrow> mgr_inv F s \<Longrightarrow> valid_key F (active_key F r s)"
  by (auto simp: active_key_def mgr_inv_def fernet_generate_valid split: option.splits)

lemma active_key_configured:
  "mgr_inv F s \<Longrightarrow> files s (master_key_file s) = Some k \<Longrightarrow> active_key F r s = k"
  by (auto simp: active_key_def mgr_inv_def split: option.splits)

lemma save_config_ok:
  assumes F: "fernet_ok F" and inv: "mgr_inv F s"
    and kf: "master_key_file s \<notin> denied s" and cf: "config_file s \<notin> denied s"
  shows "\<exists>s'. save_config F r c s = (Inr (), s') \<and> mgr_inv F s' \<and> same_frame s s' \<and>
              files s' = (files s)(master_key_file s \<mapsto> active_key F r s,
                 config_file s \<mapsto> encrypt F (active_key F r s) r (utf8_encode (json_dumps c))) \<and>
              cipher s' = Some (active_key F r s)"
proof -
  obtain s1 where g: "get_cipher F r s = (Inr (active_key F r s), s1)" and i1: "mgr_inv F s1"
    and f1: "same_frame s s1" "files s1 = (files s)(master_key_file s \<mapsto> active_key F r s)"
    and c1: "cipher s1 = Some (active_key F r s)"
    using get_cipher_ok [OF F inv kf] by blast
  from i1 f1 have ne: "config_file s1 \<noteq> master_key_file s1" by (simp add: mgr_inv_def)
  show ?thesis
    using g i1 f1 c1 cf ne
    by (auto simp: save_config_def ebind_def chmod_600_def same_frame_def mgr_inv_def Let_def)
qed

lemma load_config_unconfigured [simp]: "\<not> is_configured s \<Longrightarrow> load_config F r s = (Inr None, s)"
  by (simp add: load_config_def)

lemma load_config_ok:
  assumes F: "fernet_ok F" and inv: "mgr_inv F s" and conf: "is_configured s"
    and kf: "master_key_file s \<notin> denied s" and cf: "config_file s \<notin> denied s"
    and b: "files s (config_file s) = Some b"
  shows "\<exists>s'. load_config F r s =
                ((case decode_config F (active_key F r s) b of
                    Inl e \<Rightarrow> Inl (load_error e) | Inr c \<Rightarrow> Inr (Some c)), s') \<and>
              mgr_inv F s' \<and> same_frame s s' \<and> files s' = files s \<and>
              cipher s' = Some (active_key F r s)"
proof -
  obtain s1 where g: "get_cipher F r s = (Inr (active_key F r s), s1)" and i1: "mgr_inv F s1"
    and f1: "same_frame s s1" "files s1 = (files s)(master_key_file s \<mapsto> active_key F r s)"
    and c1: "cipher s1 = Some (active_key F r s)"
    using get_cipher_ok [OF F inv kf] by blast
  from conf obtain k where "files s (master_key_file s) = Some k"
    by (auto simp: is_configured_def path_exists_def)
  with inv have "files s1 = files s"
    using f1 by (auto simp: active_key_configured)
  then show ?thesis
    using g i1 f1 c1 cf b conf
    by (auto simp: load_config_def ebind_def catch_def same_frame_def read_bytes_def
             split: sum.splits)
qed

lemma decode_config_encrypt:
  "fernet_ok F \<Longrightarrow> valid_key F k \<Longrightarrow> pyval_wf c \<Longrightarrow>
   decode_config F k (encrypt F k r (utf8_encode (json_dumps c))) = Inr c"
  by (simp add: decode_config_def utf8_decode_encode json_loads_dumps)

text \<open>Every outcome of the operations, exceptions included, keeps the invariant.\<close>

lemma get_cipher_inv:
  assumes F: "fernet_ok F" and inv: "mgr_inv F s" and g: "get_cipher F r s = (x, s')"
  shows "mgr_inv F s' \<and> same_frame s s' \<and>
         (\<forall>p. p \<noteq> master_key_file s \<longrightarrow> files s' p = files s p)"
  using F inv g
  by (auto simp: get_cipher_def get_or_create_master_key_def fernet_init_def mgr_inv_def
                 same_frame_def disk_ops ebind_def Let_def fernet_generate_valid
           split: option.splits if_splits sum.splits prod.splits)

lemma save_config_inv:
  assumes F: "fernet_ok F" and inv: "mgr_inv F s"
  shows "mgr_inv F (snd (save_config F r c s)) \<and> same_frame s (snd (save_config F r c s))"
proof -
  obtain x s1 where g: "get_cipher F r s = (x, s1)" by fastforce
  from get_cipher_inv [OF F inv g] have i1: "mgr_inv F s1" and f1: "same_frame s s1" by simp_all
  then have "config_file s1 \<noteq> master_key_file s1" by (simp add: mgr_inv_def)
  with g i1 f1 show ?thesis
    by (auto simp: save_config_def ebind_def Let_def write_bytes_def chmod_600_def mgr_inv_def
                   same_frame_def split: sum.splits option.splits)
qed

lemma load_config_inv:
  assumes F: "fernet_ok F" and inv: "mgr_inv F s"
  shows "mgr_inv F (snd (load_config F r s)) \<and> same_frame s (snd (load_config F r s))"
proof (cases "is_configured s")
  case True
  obtain x s1 where g: "get_cipher F r s = (x, s1)" by fastforce
  from get_cipher_inv [OF F inv g] have i1: "mgr_inv F s1" and f1: "same_frame s s1" by simp_all
  with g True show ?thesis
    by (auto simp: load_config_def ebind_def catch_def read_bytes_def same_frame_def
             split: sum.splits if_splits option.splits)
qed (use inv in simp)

lemma update_config_inv:
  assumes F: "fernet_ok F" and inv: "mgr_inv F s"
  shows "mgr_inv F (snd (update_config F r u s)) \<and> same_frame s (snd (update_config F r u s))"
proof -
  obtain x s1 where l: "load_config F r s = (x, s1)" by fastforce
  from load_config_inv [OF F inv, of r] l have i1: "mgr_inv F s1" and f1: "same_frame s s1"
    by simp_all
  have "mgr_inv F (snd (save_config F r c s1)) \<and> same_frame s (snd (save_config F r c s1))" for c
    using save_config_inv [OF F i1, of r c] f1 by (simp add: same_frame_def)
  with l i1 f1 show ?thesis
    by (auto simp: update_config_def ebind_def split: sum.splits pyval.splits)
qed

subsection \<open>Round trips\<close>

lemma pyval_wf_merge:
  assumes d: "pyval_wf (PDict d)" and u: "pyval_wf (PDict u)"
  shows "pyval_wf (PDict (dict_update d u))"
proof -
  have "dict_wf (dict_update d u)" using d by (intro dict_wf_update) (simp add: dict_wf_def)
  moreover have "\<forall>x \<in> snd ` set (dict_update d u). pyval_wf x"
    using values_dict_update [of d u] d u by fastforce
  ultimately show ?thesis by (fastforce simp: dict_wf_def)
qed

lemma decode_config_wf: "decode_config F k b = Inr v \<Longrightarrow> pyval_wf v"
  by (auto simp: decode_config_def json_loads_pyval_wf split: option.splits)

lemma load_config_wf: "load_config F r s = (Inr (Some v), s') \<Longrightarrow> pyval_wf v"
  unfolding load_config_def catch_def ebind_def
  by (auto split: if_splits prod.splits sum.splits dest: decode_config_wf)

lemma configured_after_save:
  "save_config F r c s = (Inr (), s') \<Longrightarrow> mgr_inv F s' \<Longrightarrow> same_frame s s' \<Longrightarrow>
   files s' = (files s)(master_key_file s \<mapsto> k, config_file s \<mapsto> b) \<Longrightarrow> is_configured s'"
  by (simp add: is_configured_def path_exists_def same_frame_def)

text \<open>A load on a configured manager whose blob is the encryption of \<open>c\<close> under its key returns \<open>c\<close>.\<close>

lemma load_saved:
  assumes F: "fernet_ok F" and inv: "mgr_inv F t" and conf: "is_configured t"
    and kf: "master_key_file t \<notin> denied t" and cf: "config_file t \<notin> denied t"
    and k: "active_key F r t = k" "valid_key F k" and c: "pyval_wf c"
    and b: "files t (config_file t) = Some (encrypt F k r0 (utf8_encode (json_dumps c)))"
  shows "\<exists>t'. load_config F r t = (Inr (Some c), t')"
proof -
  have dec: "decode_config F (active_key F r t) (encrypt F k r0 (utf8_encode (json_dumps c))) = Inr c"
    unfolding k(1) by (rule decode_config_encrypt [OF F k(2) c])
  obtain t' where "load_config F r t =
      ((case decode_config F (active_key F r t) (encrypt F k r0 (utf8_encode (json_dumps c))) of
          Inl e \<Rightarrow> Inl (load_error e) | Inr c \<Rightarrow> Inr (Some c)), t')"
    using load_config_ok [OF F inv conf kf cf b, of r] by blast
  with dec show ?thesis by auto
qed

text \<open>After a successful save, every later load on the same manager returns what was saved.\<close>

lemma save_then_load:
  assumes F: "fernet_ok F" and inv: "mgr_inv F s"
    and kf: "master_key_file s \<notin> denied s" and cf: "config_file s \<notin> denied s"
    and c: "pyval_wf c"
  shows "\<exists>s'. save_config F r c s = (Inr (), s') \<and> mgr_inv F s' \<and> same_frame s s' \<and>
              is_configured s' \<and> (\<forall>r'. \<exists>s''. load_config F r' s' = (Inr (Some c), s''))"
proof -
  let ?k = "active_key F r s"
  obtain s' where sv: "save_config F r c s = (Inr (), s')" and i': "mgr_inv F s'"
    and f': "same_frame s s'"
    and fl: "files s' = (files s)(master_key_file s \<mapsto> ?k,
                config_file s \<mapsto> encrypt F ?k r (utf8_encode (json_dumps c)))"
    and c': "cipher s' = Some ?k"
    using save_config_ok [OF F inv kf cf] by blast
  have conf: "is_configured s'" by (rule configured_after_save [OF sv i' f' fl])
  have "\<exists>s''. load_config F r' s' = (Inr (Some c), s'')" for r'
  proof (rule load_saved [OF F i' conf])
    show "active_key F r' s' = ?k" using c' by (simp add: active_key_def)
  qed (use f' fl kf cf active_key_valid [OF F inv] c in \<open>simp_all add: same_frame_def\<close>)
  with sv i' f' conf show ?thesis by blast
qed

lemma delete_config_ok:
  assumes "config_file s \<notin> denied s" "master_key_file s \<notin> denied s"
  shows "\<exists>s'. delete_config s = (Inr (), s') \<and> same_frame s s' \<and> cipher s' = cipher s \<and>
              files s' = (files s)(config_file s := None, master_key_file s := None)"
  using assms
  by (auto simp: delete_config_def ebind_def path_exists_def unlink_def same_frame_def fun_upd_twist
           split: if_splits)

lemma update_config_ok:
  assumes F: "fernet_ok F" and inv: "mgr_inv F s"
    and kf: "master_key_file s \<notin> denied s" and cf: "config_file s \<notin> denied s"
    and u: "pyval_wf (PDict u)"
    and l: "load_config F r s = (Inr c, s1)" and d: "or_empty c = PDict d"
  shows "\<exists>s'. update_config F r u s = (Inr (), s') \<and> mgr_inv F s' \<and> same_frame s s' \<and>
              is_configured s' \<and>
              (\<forall>r'. \<exists>s''. load_config F r' s' = (Inr (Some (PDict (dict_update d u))), s''))"
proof -
  from load_config_inv [OF F inv, of r] l have i1: "mgr_inv F s1" and f1: "same_frame s s1"
    by simp_all
  have "pyval_wf (PDict d)"
    using l d load_config_wf [of F r s _ s1]
    by (auto simp: or_empty_def split: option.splits if_splits)
  then have w: "pyval_wf (PDict (dict_update d u))" by (rule pyval_wf_merge [OF _ u])
  have "master_key_file s1 \<notin> denied s1" "config_file s1 \<notin> denied s1"
    using f1 kf cf by (simp_all add: same_frame_def)
  from save_then_load [OF F i1 this w, of r] obtain s' where
    "save_config F r (PDict (dict_update d u)) s1 = (Inr (), s')" "mgr_inv F s'"
    "same_frame s1 s'" "is_configured s'"
    "\<forall>r'. \<exists>s''. load_config F r' s' = (Inr (Some (PDict (dict_update d u))), s'')"
    by blast
  with l d f1 show ?thesis
    by (auto simp: update_config_def ebind_def same_frame_def)
qed

lemma decode_config_forged:
  assumes F: "fernet_ok F" and b: "\<forall>r0 p. b \<noteq> encrypt F k r0 p"
  shows "decode_config F k b = Inl InvalidToken"
proof (cases "decrypt F k b")
  case (Some p)
  with fernet_decrypt_authentic [OF F] b show ?thesis by blast
qed (simp add: decode_config_def)

lemma map_of_rev_distinct: "distinct (map fst u) \<Longrightarrow> map_of (rev u) = map_of u"
proof (induction u)
  case (Cons kv u)
  then show ?case
    by (cases kv) (auto simp: map_of_append map_add_comm dom_map_of_conv_image_fst
                        intro!: map_add_comm)
qed simp

subsection \<open>Properties of the manager\<close>

text \<open>
  C1. Round trip through one manager (section 8 of the spec, \<open>load_config(save_config(m))
  == m\<close>): on a manager whose state satisfies the invariant and whose two files can be
  written, \<open>save_config(m)\<close> succeeds for every well-formed \<open>m\<close>, and a following
  \<open>load_config()\<close> returns \<open>m\<close>, whatever randomness either call draws.
\<close>

theorem save_load_roundtrip:
  assumes "fernet_ok F" "mgr_inv F s" "master_key_file s \<notin> denied s" "config_file s \<notin> denied s"
    "pyval_wf c"
  shows "\<exists>s' s''. save_config F r c s = (Inr (), s') \<and> load_config F r' s' = (Inr (Some c), s'')"
  using save_then_load [OF assms] by blast

theorem save_load_roundtrip_witness:
  "mgr_inv toy_fernet (demo_mgr Map.empty {} None) \<and>
   (\<exists>s' s''. save_config toy_fernet 3 (PDict [(''llm_provider'', PStr ''openai''),
                 (''openai_api_key'', PStr ''sk-x'')]) (demo_mgr Map.empty {} None) = (Inr (),
                     s') \<and>
             load_config toy_fernet 5 s' = (Inr (Some (PDict [(''llm_provider'', PStr ''openai''),
                 (''openai_api_key'', PStr ''sk-x'')])), s''))"
  using save_load_roundtrip [OF toy_fernet_ok, of "demo_mgr Map.empty {} None"
      "PDict [(''llm_provider'', PStr ''openai''), (''openai_api_key'', PStr ''sk-x'')]" 3 5]
  by (simp add: mgr_inv_def)

text \<open>
  C2. Round trip across instances (section 8 of the spec): after one manager saves
  \<open>m\<close>, a freshly constructed manager on the same two paths, with no cached key, reads
  the key from disk and loads \<open>m\<close>.
\<close>

theorem fresh_instance_roundtrip:
  assumes F: "fernet_ok F" and inv: "mgr_inv F s"
    and kf: "master_key_file s \<notin> denied s" and cf: "config_file s \<notin> denied s"
    and c: "pyval_wf c"
  shows "\<exists>s' s''. save_config F r c s = (Inr (), s') \<and>
           load_config F r' (SecureConfigManager_init (config_file s) (master_key_file s) s')
             = (Inr (Some c), s'')"
proof -
  let ?k = "active_key F r s"
  obtain s' where sv: "save_config F r c s = (Inr (), s')" and i': "mgr_inv F s'"
    and f': "same_frame s s'"
    and fl: "files s' = (files s)(master_key_file s \<mapsto> ?k,
                config_file s \<mapsto> encrypt F ?k r (utf8_encode (json_dumps c)))"
    and c': "cipher s' = Some ?k"
    using save_config_ok [OF F inv kf cf] by blast
  let ?t = "SecureConfigManager_init (config_file s) (master_key_file s) s'"
  have ne: "config_file s \<noteq> master_key_file s" using inv by (simp add: mgr_inv_def)
  have v: "valid_key F ?k" by (rule active_key_valid [OF F inv])
  have "\<exists>t'. load_config F r' ?t = (Inr (Some c), t')"
  proof (rule load_saved [OF F _ _ _ _ _ v c])
    show "mgr_inv F ?t"
      using ne fl v by (simp add: mgr_inv_def SecureConfigManager_init_def)
    show "is_configured ?t"
      using fl by (simp add: is_configured_def path_exists_def SecureConfigManager_init_def)
    show "active_key F r' ?t = ?k"
      using ne fl by (simp add: active_key_def SecureConfigManager_init_def)
  qed (use f' fl kf cf in \<open>simp_all add: same_frame_def SecureConfigManager_init_def\<close>)
  with sv show ?thesis by blast
qed

theorem fresh_instance_roundtrip_witness:
  "mgr_inv toy_fernet (demo_mgr Map.empty {} None) \<and>
   (\<exists>s' s''. save_config toy_fernet 1 (PDict [(''enable_vision'', PBool True)])
       (demo_mgr Map.empty {} None) = (Inr (), s') \<and>
       load_config toy_fernet 2 (SecureConfigManager_init ''config.encrypted'' ''.master_key'' s')
         = (Inr (Some (PDict [(''enable_vision'', PBool True)])), s''))"
  using fresh_instance_roundtrip [OF toy_fernet_ok, of "demo_mgr Map.empty {} None"
      "PDict [(''enable_vision'', PBool True)]" 1 2]
  by (simp add: mgr_inv_def)

text \<open>
  C3. After \<open>delete_config()\<close>, where both files can be removed, neither file exists,
  \<open>is_configured()\<close> is false and \<open>load_config()\<close> returns \<open>None\<close> (not configured), not an
  error.
\<close>

theorem delete_unconfigures:
  assumes "config_file s \<notin> denied s" "master_key_file s \<notin> denied s"
  shows "\<exists>s'. delete_config s = (Inr (), s') \<and>
              files s' (config_file s) = None \<and> files s' (master_key_file s) = None \<and>
              \<not> is_configured s' \<and> load_config F r s' = (Inr None, s')"
proof -
  obtain s' where d: "delete_config s = (Inr (), s')" and f: "same_frame s s'"
    and fl: "files s' = (files s)(config_file s := None, master_key_file s := None)"
    using delete_config_ok [OF assms] by blast
  then have "\<not> is_configured s'"
    by (simp add: is_configured_def path_exists_def same_frame_def)
  with d fl show ?thesis by simp
qed

theorem delete_unconfigures_witness:
  "\<exists>s'. delete_config (demo_mgr [''config.encrypted'' \<mapsto> ''KY'', ''.master_key''
      \<mapsto> ''K''] {} (Some ''K'')) = (Inr (), s') \<and>
        files s' ''config.encrypted'' = None \<and> files s' ''.master_key'' = None \<and>
        \<not> is_configured s' \<and> load_config toy_fernet 0 s' = (Inr None, s')"
  using delete_unconfigures [of "(demo_mgr [''config.encrypted'' \<mapsto> ''KY'',
      ''.master_key'' \<mapsto> ''K''] {} (Some ''K''))" toy_fernet 0] by simp

text \<open>
  C4. Tampering is detected (section 8 of the spec): if the stored blob is not a token
  that \<open>encrypt\<close> produces under the manager's key, for any plaintext and randomness,
  \<open>load_config()\<close> raises \<open>ValueError\<close> (wrapping \<open>InvalidToken\<close>) instead of returning a
  mapping.
\<close>

theorem tampered_blob_rejected:
  assumes F: "fernet_ok F" and inv: "mgr_inv F s" and conf: "is_configured s"
    and kf: "master_key_file s \<notin> denied s" and cf: "config_file s \<notin> denied s"
    and b: "files s (config_file s) = Some b"
    and forged: "\<forall>r0 p. b \<noteq> encrypt F (active_key F r s) r0 p"
  shows "\<exists>s'. load_config F r s = (Inl (load_error InvalidToken), s')"
  using load_config_ok [OF F inv conf kf cf b, of r] decode_config_forged [OF F forged]
  by auto

theorem tampered_blob_rejected_witness:
  "is_configured (demo_mgr [''config.encrypted'' \<mapsto> ''X'', ''.master_key'' \<mapsto>
      ''K''] {} None) \<and> (\<forall>r0 p. ''X'' \<noteq> encrypt toy_fernet (active_key
          toy_fernet 0 (demo_mgr [''config.encrypted'' \<mapsto> ''X'', ''.master_key''
              \<mapsto> ''K''] {} None)) r0 p) \<and>
   (\<exists>s'. load_config toy_fernet 0 (demo_mgr [''config.encrypted'' \<mapsto> ''X'',
       ''.master_key'' \<mapsto> ''K''] {} None) = (Inl (load_error InvalidToken), s'))"
  using tampered_blob_rejected [OF toy_fernet_ok, of "demo_mgr [''config.encrypted'' \<mapsto>
      ''X'', ''.master_key'' \<mapsto> ''K''] {} None" "''X''" 0]
  by (simp add: mgr_inv_def is_configured_def path_exists_def active_key_def toy_fernet_def)

text \<open>
  C5. Two updates merge (section 8 of the spec): starting from any state in which
  \<open>load_config()\<close> returns a value whose \<open>or {}\<close> is the dict \<open>d0\<close> (for instance
  \<open>None\<close>, not configured), \<open>update_config(u1)\<close> then \<open>update_config(u2)\<close> succeed and
  the stored mapping is \<open>d0\<close> updated by \<open>u1\<close> then by \<open>u2\<close>: a key of \<open>u2\<close> has its value
  from \<open>u2\<close>, a key of \<open>u1\<close> only has its value from \<open>u1\<close>, every other key keeps its old value.
\<close>

theorem update_merges:
  assumes F: "fernet_ok F" and inv: "mgr_inv F s"
    and kf: "master_key_file s \<notin> denied s" and cf: "config_file s \<notin> denied s"
    and u1: "pyval_wf (PDict u1)" and u2: "pyval_wf (PDict u2)"
    and l: "load_config F r1 s = (Inr c0, s0)" and d0: "or_empty c0 = PDict d0"
  shows "\<exists>s1 s2 s3. update_config F r1 u1 s = (Inr (), s1) \<and>
           update_config F r2 u2 s1 = (Inr (), s2) \<and>
           load_config F r3 s2 = (Inr (Some (PDict (dict_update (dict_update d0 u1) u2))), s3) \<and>
           map_of (dict_update (dict_update d0 u1) u2) = map_of d0 ++ map_of u1 ++ map_of u2"
proof -
  obtain s1 where up1: "update_config F r1 u1 s = (Inr (), s1)" and i1: "mgr_inv F s1"
    and f1: "same_frame s s1"
    and l1: "\<forall>r'. \<exists>s''. load_config F r' s' = (Inr (Some (PDict (dict_update d0 u1))), s'')"
            if "s' = s1" for s'
    using update_config_ok [OF F inv kf cf u1 l d0] by blast
  obtain s1' where l2: "load_config F r2 s1 = (Inr (Some (PDict (dict_update d0 u1))), s1')"
    using l1 by blast
  have kf1: "master_key_file s1 \<notin> denied s1" and cf1: "config_file s1 \<notin> denied s1"
    using f1 kf cf by (simp_all add: same_frame_def)
  have e: "or_empty (Some (PDict (dict_update d0 u1))) = PDict (dict_update d0 u1)"
    by (simp add: or_empty_def)
  obtain s2 where up2: "update_config F r2 u2 s1 = (Inr (), s2)"
    and l3: "\<forall>r'. \<exists>s''. load_config F r' s2 =
                    (Inr (Some (PDict (dict_update (dict_update d0 u1) u2))), s'')"
    using update_config_ok [OF F i1 kf1 cf1 u2 l2 e] by blast
  have "map_of (dict_update (dict_update d0 u1) u2) = map_of d0 ++ map_of u1 ++ map_of u2"
    using u1 u2 by (simp add: map_of_dict_update map_of_rev_distinct)
  with up1 up2 l3 show ?thesis by blast
qed

theorem update_merges_witness:
  "load_config toy_fernet 0 (demo_mgr Map.empty {} None) = (Inr None, (demo_mgr Map.empty {}
      None)) \<and>
   (\<exists>s1 s2 s3. update_config toy_fernet 0 [(''a'', PInt 1)] (demo_mgr Map.empty {}
       None) = (Inr (), s1) \<and>
      update_config toy_fernet 1 [(''b'', PInt 2), (''a'', PInt 3)] s1 = (Inr (), s2) \<and>
      load_config toy_fernet 2 s2 =
        (Inr (Some (PDict [(''a'', PInt 3), (''b'', PInt 2)])), s3))"
proof -
  have l: "load_config toy_fernet 0 (demo_mgr Map.empty {} None) = (Inr None, (demo_mgr
      Map.empty {} None))"
    by (simp add: is_configured_def path_exists_def)
  have "or_empty None = PDict []" by (simp add: or_empty_def)
  from update_merges [OF toy_fernet_ok _ _ _ _ _ l this, of "[(''a'', PInt 1)]"
      "[(''b'', PInt 2), (''a'', PInt 3)]" 1 2] l show ?thesis
    by (simp add: mgr_inv_def dict_update_def dict_setitem_def fun_upd_twist)
qed

text \<open>
  C6. Invariant: on a state where the cached cipher matches the key on disk and that
  key is well formed, \<open>_get_cipher\<close>, \<open>save_config\<close>, \<open>load_config\<close> and \<open>update_config\<close>
  keep it, on every outcome, exceptions included.
\<close>

theorem mgr_inv_preserved:
  assumes "fernet_ok F" "mgr_inv F s"
  shows "mgr_inv F (snd (get_cipher F r s)) \<and> mgr_inv F (snd (save_config F r c s)) \<and>
         mgr_inv F (snd (load_config F r s)) \<and> mgr_inv F (snd (update_config F r u s))"
proof -
  obtain x s' where "get_cipher F r s = (x, s')" by fastforce
  with get_cipher_inv [OF assms this] save_config_inv [OF assms] load_config_inv [OF assms]
       update_config_inv [OF assms]
  show ?thesis by simp
qed

theorem mgr_inv_preserved_witness:
  "mgr_inv toy_fernet (demo_mgr [''config.encrypted'' \<mapsto> ''KY'', ''.master_key''
      \<mapsto> ''K''] {} (Some ''K'')) \<and> mgr_inv toy_fernet (snd (save_config toy_fernet
          0 (PInt 7) (demo_mgr [''config.encrypted'' \<mapsto> ''KY'', ''.master_key''
              \<mapsto> ''K''] {} (Some ''K''))))"
  using mgr_inv_preserved [OF toy_fernet_ok, of "(demo_mgr [''config.encrypted'' \<mapsto>
      ''KY'', ''.master_key'' \<mapsto> ''K''] {} (Some ''K''))" 0 "PInt 7"]
  by (simp add: mgr_inv_def toy_fernet_def)

text \<open>
  C7. Reset leaves a stale cipher (a defect of \<open>delete_config\<close>): on a manager that has
  cached its cipher, \<open>delete_config()\<close> followed by \<open>save_config(m)\<close> succeeds, but the
  save reuses the cached key and does not recreate the key file, so the manager is
  not configured afterwards and \<open>load_config()\<close> returns \<open>None\<close>: what was saved cannot be
  read back, by this instance or by any later one.
\<close>

theorem reset_then_save_loses_config:
  assumes "cipher s \<noteq> None" "config_file s \<notin> denied s" "master_key_file s \<notin> denied s"
    and ne: "config_file s \<noteq> master_key_file s"
  shows "\<exists>s1 s2. delete_config s = (Inr (), s1) \<and> save_config F r c s1 = (Inr (), s2) \<and>
            files s2 (master_key_file s) = None \<and> \<not> is_configured s2 \<and>
            load_config F r' s2 = (Inr None, s2)"
proof -
  obtain s1 where d: "delete_config s = (Inr (), s1)" and f: "same_frame s s1"
    and c: "cipher s1 = cipher s"
    and fl: "files s1 = (files s)(config_file s := None, master_key_file s := None)"
    using delete_config_ok [OF assms(2,3)] by blast
  obtain k where k: "cipher s1 = Some k" using assms(1) c by auto
  let ?s2 = "snd (save_config F r c s1)"
  have sv: "save_config F r c s1 = (Inr (), ?s2)"
    and "files ?s2 (master_key_file s) = None"
    using k f fl assms(2) c ne
    by (auto simp: save_config_def get_cipher_def ebind_def chmod_600_def same_frame_def Let_def
                   mgr_inv_def)
  moreover have "\<not> is_configured ?s2"
    using calculation(2) k f fl assms(2) ne
    by (auto simp: is_configured_def path_exists_def save_config_def get_cipher_def ebind_def
                   chmod_600_def same_frame_def Let_def)
  ultimately show ?thesis using d by auto
qed

theorem reset_then_save_loses_config_witness:
  "cipher (demo_mgr [''config.encrypted'' \<mapsto> ''KY'', ''.master_key'' \<mapsto> ''K''] {}
      (Some ''K'')) \<noteq> None \<and>
   (\<exists>s1 s2. delete_config (demo_mgr [''config.encrypted'' \<mapsto> ''KY'',
       ''.master_key'' \<mapsto> ''K''] {} (Some ''K'')) = (Inr (), s1) \<and>
      save_config toy_fernet 0 (PDict [(''llm_provider'', PStr ''groq'')]) s1 = (Inr (), s2) \<and>
      files s2 ''.master_key'' = None \<and> \<not> is_configured s2 \<and>
      load_config toy_fernet 0 s2 = (Inr None, s2))"
  using reset_then_save_loses_config [of "(demo_mgr [''config.encrypted'' \<mapsto> ''KY'',
      ''.master_key'' \<mapsto> ''K''] {} (Some ''K''))" toy_fernet 0 "PDict [(''llm_provider'', PStr ''groq'')]" 0]
  by simp

text \<open>
  C8. Every exception \<open>load_config\<close> raises is a \<open>ValueError\<close> "Failed to load
  configuration: ...", whatever its cause: an unreadable file (\<open>OSError\<close>) is reported
  the same way as a forged or undecodable blob.
\<close>

theorem load_raises_only_value_error:
  "load_config F r s = (Inl e, s') \<Longrightarrow> \<exists>e0. e = load_error e0"
  by (auto simp: load_config_def catch_def split: if_splits prod.splits sum.splits)

theorem load_raises_only_value_error_witness:
  "load_config toy_fernet 0 (demo_mgr [''config.encrypted'' \<mapsto> ''KY'', ''.master_key''
      \<mapsto> ''K''] {''config.encrypted''} None) = (Inl (load_error (OSError
          ''config.encrypted'')), (demo_mgr [''config.encrypted'' \<mapsto> ''KY'',
              ''.master_key'' \<mapsto> ''K''] {''config.encrypted''} (Some ''K''))) \<and>
   (\<exists>e0. load_error (OSError ''config.encrypted'') = load_error e0)"
proof -
  have l: "load_config toy_fernet 0 (demo_mgr [''config.encrypted'' \<mapsto> ''KY'',
      ''.master_key'' \<mapsto> ''K''] {''config.encrypted''} None) = (Inl (load_error (OSError
          ''config.encrypted'')), (demo_mgr [''config.encrypted'' \<mapsto> ''KY'',
              ''.master_key'' \<mapsto> ''K''] {''config.encrypted''} (Some ''K'')))"
    by (simp add: load_config_def is_configured_def path_exists_def get_cipher_def
                  get_or_create_master_key_def fernet_init_def toy_fernet_def ebind_def catch_def
                  read_bytes_def)
  show ?thesis using load_raises_only_value_error [OF l] l by simp
qed

end
