(* ===== verification/AgentService.thy ===== *)
theory AgentService
  imports PyValue
begin

text \<open>
  The external movie-agent library that app.py drives (\<open>movie_agent.config.MovieAgentConfig\<close>,
  \<open>movie_agent.app.MovieAgentApp\<close>), outside this repository and modelled from the
  collaborator contract of section 6 of the spec: a configuration object, an agent built
  from it and initialised (which may fail, depending on the configuration and on the
  environment variables holding the API keys), \<open>chat\<close> and \<open>analyze_poster\<close> returning a
  response or raising. An agent is identified with the configuration it was built from.
  The library's behaviour is a parameter \<open>agent_lib\<close>; \<open>demo_agent\<close> is one instance, used by
  the examples.
\<close>

text \<open>\<open>MovieAgentConfig(...)\<close> as app.py fills it.\<close>

record agent_config =
  cfg_llm_provider :: pyval
  cfg_llm_model :: pyval
  cfg_enable_vision :: pyval
  cfg_enable_memory :: pyval
  cfg_memory_max_turns :: pyval
  cfg_faiss_index_path :: pyval
  cfg_warmup_on_start :: bool
  cfg_verbose :: bool

text \<open>The fields of the response of \<open>MovieAgentApp.chat\<close> that app.py reads.\<close>

record chat_response =
  answer :: pyval
  movies :: pyval
  tools_used :: pyval
  llm_latency_ms :: pyval
  tool_latency_ms :: pyval
  latency_ms :: pyval
  reasoning_type :: pyval
  resolution_metadata :: pyval
  quiz_data :: pyval

text \<open>The fields of the response of \<open>MovieAgentApp.analyze_poster\<close> that app.py reads.\<close>

record poster_response =
  title :: pyval
  caption :: pyval
  mood :: pyval
  confidence :: pyval
  inferred_genres :: pyval

text \<open>
  The library: whether \<open>MovieAgentApp(config)\<close> and \<open>initialize()\<close> return normally
  under the given \<open>os.environ\<close>; the reply of \<open>chat(query, session_id)\<close> and of
  \<open>analyze_poster(path, session_id)\<close>, \<open>None\<close> when the call raises; whether the agent
  has the attribute \<open>_service\<close> (\<open>hasattr(agent_app, '_service')\<close>), and whether
  \<open>_service.clear_memory(session_id)\<close> returns normally (\<open>False\<close> when it raises).
\<close>

record agent_lib =
  agent_starts :: "agent_config \<Rightarrow> (string \<rightharpoonup> string) \<Rightarrow> bool"
  agent_chat :: "agent_config \<Rightarrow> string \<Rightarrow> string \<Rightarrow> chat_response option"
  agent_analyze_poster :: "agent_config \<Rightarrow> string \<Rightarrow> string \<Rightarrow> poster_response option"
  agent_has_service :: "agent_config \<Rightarrow> bool"
  agent_clear_memory :: "agent_config \<Rightarrow> string \<Rightarrow> bool"

text \<open>
  An instance for the examples: the agent starts when an OpenAI key is in the
  environment, echoes the query, names every poster \<open>Alien\<close>, and clears its memory.
\<close>

definition demo_agent :: agent_lib where
  "demo_agent =
     \<lparr>agent_starts = (\<lambda>c env. env ''OPENAI_API_KEY'' \<noteq> None),
      agent_chat = (\<lambda>c q sid. Some \<lparr>answer = PStr q, movies = PList [], tools_used = PList [],
                      llm_latency_ms = PInt 1, tool_latency_ms = PInt 0, latency_ms = PInt 1,
                      reasoning_type = PStr ''direct'', resolution_metadata = PNone,
                      quiz_data = PNone\<rparr>),
      agent_analyze_poster = (\<lambda>c p sid. Some \<lparr>title = PStr ''Alien'', caption = PStr ''a poster'',
                      mood = PStr ''dark'', confidence = PInt 1, inferred_genres = PList []\<rparr>),
      agent_has_service = (\<lambda>c. True),
      agent_clear_memory = (\<lambda>c sid. True)\<rparr>"

end
