(* ===== verification/App.thy ===== *)
theory App
  imports Validator ConfigManager AgentService
begin

text \<open>
  The Flask application of src/app.py: the module-level state (the shared
  \<open>config_manager\<close>, the global \<open>agent_app\<close>, the process environment \<open>os.environ\<close>)
  and one client's \<open>session\<close>, and the handlers \<open>index\<close>, \<open>setup\<close> (GET and POST),
  \<open>chat\<close>, \<open>poster\<close>, \<open>reset_config\<close> and \<open>clear_poster\<close>, with
  \<open>_initialize_agent_from_config\<close>. The state \<open>app\<close> extends the manager's record, so the
  manager's operations run on it unchanged. A handler maps the state to a response and
  the next state; the randomness it draws (\<open>uuid4\<close>, the temporary file's name, the
  clock, the manager's seed) and the request's body are its arguments.
\<close>

datatype response =
    Redirect string
  | Page string
  | Json pyval nat

text \<open>
  The Flask session of one client, as the code uses it: \<open>session_id\<close>, \<open>poster_state\<close>
  and \<open>poster_history\<close>, each absent or holding what the code stores there (the session
  cookie is signed, so only the code writes it).
\<close>

record flask_session =
  session_id :: "string option"
  poster_state :: "pyval option"
  poster_history :: "pyval list option"

record app = mgr +
  agent_app :: "agent_config option"
  environ :: "string \<rightharpoonup> string"
  sess :: flask_session

subsection \<open>Helpers\<close>

definition lift_exc :: "exn + 'a \<Rightarrow> ('s, 'a) exc" where
  "lift_exc r = (\<lambda>s. (r, s))"

text \<open>\<open>try: m finally: f\<close>: \<open>f\<close> runs on both outcomes; an exception it raises wins.\<close>

definition finally_exc :: "('s, 'a) exc \<Rightarrow> ('s, unit) exc \<Rightarrow> ('s, 'a) exc" where
  "finally_exc m f = (\<lambda>s.
     case m s of (r, s') \<Rightarrow>
       (case f s' of (Inl e, s'') \<Rightarrow> (Inl e, s'') | (Inr _, s'') \<Rightarrow> (r, s'')))"

definition json_error :: "string \<Rightarrow> nat \<Rightarrow> response" where
  "json_error msg code = Json (PDict [(''error'', PStr msg)]) code"

definition success_json :: "string \<Rightarrow> response" where
  "success_json msg = Json (PDict [(''status'', PStr ''success''), (''message'', PStr msg)]) 200"

text \<open>A handler's outer \<open>except Exception as e: return jsonify({"error": str(e)}), 500\<close>.\<close>

definition handle_500 :: "('s, response) exc \<Rightarrow> 's \<Rightarrow> response \<times> 's" where
  "handle_500 m s =
     (case m s of (Inr resp, s') \<Rightarrow> (resp, s') | (Inl e, s') \<Rightarrow> (json_error (exn_str e) 500, s'))"

text \<open>\<open>v.get(k, default)\<close>.\<close>

definition py_get_or :: "pyval \<Rightarrow> string \<Rightarrow> pyval \<Rightarrow> exn + pyval" where
  "py_get_or v k dflt =
     (case v of PDict d \<Rightarrow> Inr (case map_of d k of Some x \<Rightarrow> x | None \<Rightarrow> dflt)
      | _ \<Rightarrow> Inl AttributeError)"

text \<open>\<open>os.environ[k] = v\<close>: only a \<open>str\<close> can be stored.\<close>

definition set_env :: "string \<Rightarrow> pyval \<Rightarrow> ('a app_scheme, unit) exc" where
  "set_env k v = (\<lambda>s.
     case v of PStr x \<Rightarrow> (Inr (), s\<lparr>environ := (environ s)(k \<mapsto> x)\<rparr>) | _ \<Rightarrow> (Inl TypeError, s))"

text \<open>\<open>if config_data.get(key): os.environ[var] = config_data[key]\<close>, telling whether it fired.\<close>

definition set_env_if :: "pyval \<Rightarrow> string \<Rightarrow> string \<Rightarrow> ('a app_scheme, bool) exc" where
  "set_env_if cd key var =
     ebind (lift_exc (py_get cd key)) (\<lambda>v.
       if truthy v then ebind (lift_exc (py_getitem cd key)) (\<lambda>x. ebind (set_env var x) (\<lambda>_. ret True))
       else ret False)"

subsection \<open>Agent initialisation\<close>

text \<open>Lines 87-102: the API keys the service layer reads from the environment.\<close>

definition set_provider_env :: "pyval \<Rightarrow> ('a app_scheme, unit) exc" where
  "set_provider_env cd =
     ebind (lift_exc (py_get_or cd ''llm_provider'' (PStr ''groq''))) (\<lambda>llm_provider.
     ebind (if llm_provider = PStr ''groq'' then
              ebind (set_env_if cd ''groq_api_key'' ''GROQ_API_KEY'') (\<lambda>_. ret ())
            else if llm_provider = PStr ''openai'' then
              ebind (set_env_if cd ''openai_llm_api_key'' ''OPENAI_API_KEY'') (\<lambda>fired.
                if fired then ret ()
                else ebind (set_env_if cd ''openai_api_key'' ''OPENAI_API_KEY'') (\<lambda>_. ret ()))
            else ret ())
       (\<lambda>_. ebind (set_env_if cd ''openai_api_key'' ''OPENAI_API_KEY'') (\<lambda>_. ret ())))"

text \<open>Lines 106-115: \<open>MovieAgentConfig(...)\<close> from the stored mapping, with the code's defaults.\<close>

definition make_agent_config :: "pyval \<Rightarrow> exn + agent_config" where
  "make_agent_config cd =
     sbind (py_get_or cd ''llm_provider'' (PStr ''openai'')) (\<lambda>p.
     sbind (py_get_or cd ''llm_model'' (PStr ''gpt-4o-mini'')) (\<lambda>m.
     sbind (py_get_or cd ''enable_vision'' (PBool True)) (\<lambda>v.
     sbind (py_get_or cd ''enable_memory'' (PBool True)) (\<lambda>em.
     sbind (py_get_or cd ''memory_max_turns'' (PInt 10)) (\<lambda>t.
     sbind (py_get cd ''faiss_index_path'') (\<lambda>f.
       Inr \<lparr>cfg_llm_provider = p, cfg_llm_model = m, cfg_enable_vision = v, cfg_enable_memory = em,
            cfg_memory_max_turns = t, cfg_faiss_index_path = f, cfg_warmup_on_start = False,
            cfg_verbose = True\<rparr>))))))"

text \<open>
  \<open>_initialize_agent_from_config\<close>: an existing agent is kept; without a configuration
  nothing happens; otherwise the configuration is loaded, the environment set, and the
  agent built and initialised, any exception leaving \<open>agent_app = None\<close>.
\<close>

definition initialize_agent_from_config ::
  "agent_lib \<Rightarrow> fernet \<Rightarrow> nat \<Rightarrow> ('a app_scheme, unit) exc" where
  "initialize_agent_from_config A F r = (\<lambda>s.
     if agent_app s \<noteq> None then (Inr (), s)
     else if \<not> is_configured s then (Inr (), s)
     else catch
       (ebind (load_config F r) (\<lambda>c.
          let config_data = (case c of Some v \<Rightarrow> v | None \<Rightarrow> PNone) in
          ebind (set_provider_env config_data) (\<lambda>_.
          ebind (lift_exc (make_agent_config config_data)) (\<lambda>config s'.
            if agent_starts A config (environ s') then (Inr (), s'\<lparr>agent_app := Some config\<rparr>)
            else (Inl (ValueError ''agent initialisation failed''), s')))))
       (\<lambda>e s'. (Inr (), s'\<lparr>agent_app := None\<rparr>)) s)"

subsection \<open>Handlers\<close>

definition index :: "'a app_scheme \<Rightarrow> response \<times> 'a app_scheme" where
  "index s = (if \<not> is_configured s then Redirect ''/setup'' else Page ''index.html'', s)"

definition setup_get :: "'a app_scheme \<Rightarrow> response \<times> 'a app_scheme" where
  "setup_get s = (if is_configured s then Redirect ''/'' else Page ''setup.html'', s)"

definition setup_post :: "agent_lib \<Rightarrow> fernet \<Rightarrow> nat \<Rightarrow> pyval \<Rightarrow> 'a app_scheme \<Rightarrow> response \<times> 'a app_scheme" where
  "setup_post A F r data = handle_500
     (if \<not> truthy data then ret (json_error ''No JSON data provided'' 400)
      else ebind (lift_exc (validate_setup_data data)) (\<lambda>(is_valid, error_message).
        if \<not> is_valid
        then ret (Json (PDict [(''error'', case error_message of Some m \<Rightarrow> PStr m | None \<Rightarrow> PNone)]) 400)
        else ebind (save_config F r data) (\<lambda>_.
               ebind (initialize_agent_from_config A F r) (\<lambda>_.
                 ret (success_json ''Configuration saved'')))))"

definition reset_config :: "'a app_scheme \<Rightarrow> response \<times> 'a app_scheme" where
  "reset_config = handle_500 (ebind delete_config (\<lambda>_. ret (success_json ''Configuration reset'')))"

text \<open>\<open>if 'session_id' not in session: session['session_id'] = str(uuid.uuid4())\<close>.\<close>

definition ensure_session_id :: "string \<Rightarrow> ('a app_scheme, string) exc" where
  "ensure_session_id fresh = (\<lambda>s.
     case session_id (sess s) of
       Some sid \<Rightarrow> (Inr sid, s)
     | None \<Rightarrow> (Inr fresh, s\<lparr>sess := (sess s)\<lparr>session_id := Some fresh\<rparr>\<rparr>))"

text \<open>\<open>k in v\<close> for a key, element or substring, by the type of \<open>v\<close>.\<close>

fun py_in_str :: "string \<Rightarrow> string \<Rightarrow> bool" where
  "py_in_str k [] = (k = [])"
| "py_in_str k (c # s) = (startswith (c # s) k \<or> py_in_str k s)"

definition py_contains :: "pyval \<Rightarrow> string \<Rightarrow> exn + bool" where
  "py_contains v k =
     (case v of PDict d \<Rightarrow> Inr (k \<in> set (map fst d)) | PList xs \<Rightarrow> Inr (PStr k \<in> set xs)
      | PStr s \<Rightarrow> Inr (py_in_str k s) | _ \<Rightarrow> Inl TypeError)"

text \<open>\<open>str.strip()\<close>: the whitespace of \<open>str.isspace\<close> below code point 256.\<close>

definition py_space :: "char \<Rightarrow> bool" where
  "py_space c \<longleftrightarrow> (of_char c :: nat) \<in> set [9, 10, 11, 12, 13, 28, 29, 30, 31, 32, 133, 160]"

definition py_strip :: "string \<Rightarrow> string" where
  "py_strip s = rev (dropWhile py_space (rev (dropWhile py_space s)))"

definition py_str_strip :: "pyval \<Rightarrow> exn + string" where
  "py_str_strip v = (case v of PStr s \<Rightarrow> Inr (py_strip s) | _ \<Rightarrow> Inl AttributeError)"

text \<open>Lines 210-226: the JSON body of a chat answer.\<close>

definition chat_result :: "chat_response \<Rightarrow> pyval" where
  "chat_result resp = PDict
     ([(''answer'', answer resp), (''movies'', movies resp), (''tools_used'', tools_used resp),
       (''llm_latency_ms'', llm_latency_ms resp), (''tool_latency_ms'', tool_latency_ms resp),
       (''latency_ms'', latency_ms resp), (''reasoning_type'', reasoning_type resp)] @
      (if truthy (resolution_metadata resp)
       then [(''resolution_metadata'', resolution_metadata resp)] else []) @
      (if truthy (quiz_data resp) then [(''quiz_data'', quiz_data resp)] else []))"

definition not_configured_503 :: response where
  "not_configured_503 = json_error ''Service not configured. Please complete setup first.'' 503"

definition agent_failed_500 :: response where
  "agent_failed_500 = json_error ''Agent initialization failed. Please check configuration.'' 500"

text \<open>Lines 182-231: the part of \<open>chat\<close> after the agent is known to exist.\<close>

definition chat_query ::
  "agent_lib \<Rightarrow> agent_config \<Rightarrow> string \<Rightarrow> pyval \<Rightarrow> ('a app_scheme, response) exc" where
  "chat_query A agent fresh data =
     (let missing = json_error ''Missing 'query' in request body'' 400 in
      if \<not> truthy data then ret missing
      else ebind (lift_exc (py_contains data ''query'')) (\<lambda>present.
        if \<not> present then ret missing
        else ebind (lift_exc (py_getitem data ''query'')) (\<lambda>q.
          ebind (lift_exc (py_str_strip q)) (\<lambda>query.
            if query = [] then ret (json_error ''Empty query'' 400)
            else ebind (ensure_session_id fresh) (\<lambda>sid.
              case agent_chat A agent query sid of
                None \<Rightarrow> raise (ValueError ''agent error'')
              | Some resp \<Rightarrow> ret (Json (chat_result resp) 200))))))"

definition chat ::
  "agent_lib \<Rightarrow> fernet \<Rightarrow> nat \<Rightarrow> string \<Rightarrow> pyval \<Rightarrow> 'a app_scheme \<Rightarrow> response \<times> 'a app_scheme" where
  "chat A F r fresh data = handle_500 (\<lambda>s.
     if \<not> is_configured s then (Inr not_configured_503, s)
     else ebind (initialize_agent_from_config A F r) (\<lambda>_ s1.
       case agent_app s1 of
         None \<Rightarrow> (Inr agent_failed_500, s1)
       | Some agent \<Rightarrow> chat_query A agent fresh data s1) s)"

text \<open>Lines 291-308: the poster state and the bounded history.\<close>

definition poster_state_of :: "poster_response \<Rightarrow> string \<Rightarrow> pyval" where
  "poster_state_of pr now = PDict
     [(''title'', title pr), (''mood'', mood pr), (''confidence'', confidence pr),
      (''caption'', caption pr), (''timestamp'', PStr now)]"

definition push_poster_history :: "pyval \<Rightarrow> flask_session \<Rightarrow> flask_session" where
  "push_poster_history ps se =
     (let h = (case poster_history se of None \<Rightarrow> [] | Some xs \<Rightarrow> xs) @ [ps] in
      se\<lparr>poster_history := Some (if length h > 3 then drop (length h - 3) h else h)\<rparr>)"

definition poster_json :: "poster_response \<Rightarrow> pyval" where
  "poster_json pr = PDict
     [(''title'', title pr), (''caption'', caption pr), (''mood'', mood pr),
      (''confidence'', confidence pr), (''inferred_genres'', inferred_genres pr)]"

text \<open>Lines 265-321: inside the temporary file's \<open>try ... finally\<close>.\<close>

definition poster_analyse ::
  "agent_lib \<Rightarrow> agent_config \<Rightarrow> string \<Rightarrow> path \<Rightarrow> string \<Rightarrow> ('a app_scheme, response) exc" where
  "poster_analyse A agent fresh tmp now =
     ebind (ensure_session_id fresh) (\<lambda>sid s.
       (let s' = s\<lparr>sess := (sess s)\<lparr>poster_state := None\<rparr>\<rparr> in
        case agent_analyze_poster A agent tmp sid of
          None \<Rightarrow> (Inl (ValueError ''orchestration error''), s')
        | Some pr \<Rightarrow>
            (let ps = poster_state_of pr now in
             (Inr (Json (poster_json pr) 200),
              s'\<lparr>sess := push_poster_history ps ((sess s')\<lparr>poster_state := Some ps\<rparr>)\<rparr>))))"

text \<open>
  Lines 250-324: the upload is saved to a new temporary file \<open>tmp\<close>
  (\<open>NamedTemporaryFile(delete=False)\<close>, then \<open>file.save\<close>), analysed, and unlinked in the
  \<open>finally\<close> clause.
\<close>

definition poster_upload ::
  "agent_lib \<Rightarrow> agent_config \<Rightarrow> string \<Rightarrow> path \<Rightarrow> string \<Rightarrow> (string \<times> bytes) option \<Rightarrow>
   ('a app_scheme, response) exc" where
  "poster_upload A agent fresh tmp now upload =
     (case upload of
        None \<Rightarrow> ret (json_error ''Missing 'image' file in form data'' 400)
      | Some (filename, content) \<Rightarrow>
          if filename = [] then ret (json_error ''Empty file'' 400)
          else ebind (write_bytes tmp content) (\<lambda>_.
                 finally_exc (poster_analyse A agent fresh tmp now) (unlink tmp)))"

definition poster ::
  "agent_lib \<Rightarrow> fernet \<Rightarrow> nat \<Rightarrow> string \<Rightarrow> path \<Rightarrow> string \<Rightarrow> (string \<times> bytes) option \<Rightarrow>
   'a app_scheme \<Rightarrow> response \<times> 'a app_scheme" where
  "poster A F r fresh tmp now upload s =
     (if \<not> is_configured s then (not_configured_503, s)
      else (let s1 = snd (initialize_agent_from_config A F r s) in
            case agent_app s1 of
              None \<Rightarrow> (agent_failed_500, s1)
            | Some agent \<Rightarrow> handle_500 (poster_upload A agent fresh tmp now upload) s1))"

text \<open>
  Lines 352-354: \<open>if agent_app and hasattr(agent_app, '_service'):
  agent_app._service.clear_memory(session_id)\<close>; an exception of the call propagates.
\<close>

definition clear_service_memory :: "agent_lib \<Rightarrow> string \<Rightarrow> ('a app_scheme, unit) exc" where
  "clear_service_memory A sid = (\<lambda>s.
     case agent_app s of
       None \<Rightarrow> (Inr (), s)
     | Some agent \<Rightarrow>
         if agent_has_service A agent \<and> \<not> agent_clear_memory A agent sid
         then (Inl (ValueError ''clear_memory failed''), s) else (Inr (), s))"

text \<open>Lines 343-364: \<open>clear_poster\<close>.\<close>

definition clear_poster :: "agent_lib \<Rightarrow> string \<Rightarrow> 'a app_scheme \<Rightarrow> response \<times> 'a app_scheme" where
  "clear_poster A fresh = handle_500
     (ebind (ensure_session_id fresh) (\<lambda>sid.
      ebind (clear_service_memory A sid) (\<lambda>_ s.
        (Inr (success_json ''Poster state cleared''),
         s\<lparr>sess := (sess s)\<lparr>poster_state := None, poster_history := None\<rparr>\<rparr>))))"

subsection \<open>Routing and runs\<close>

text \<open>
  The routes of app.py (\<open>@app.route\<close>), one constructor per handler carrying the
  request's body and the randomness the handler draws; \<open>serve\<close> dispatches a request as
  Flask does, \<open>run\<close> serves a sequence of requests of one client in order.
\<close>

datatype request =
    GetIndex
  | GetSetup
  | PostSetup nat pyval
  | PostChat nat string pyval
  | PostPoster nat string path string "(string \<times> bytes) option"
  | PostResetConfig
  | PostClearPoster string

fun serve :: "agent_lib \<Rightarrow> fernet \<Rightarrow> request \<Rightarrow> 'a app_scheme \<Rightarrow> response \<times> 'a app_scheme" where
  "serve A F GetIndex s = index s"
| "serve A F GetSetup s = setup_get s"
| "serve A F (PostSetup r d) s = setup_post A F r d s"
| "serve A F (PostChat r fresh d) s = chat A F r fresh d s"
| "serve A F (PostPoster r fresh tmp now u) s = poster A F r fresh tmp now u s"
| "serve A F PostResetConfig s = reset_config s"
| "serve A F (PostClearPoster fresh) s = clear_poster A fresh s"

fun run :: "agent_lib \<Rightarrow> fernet \<Rightarrow> request list \<Rightarrow> 'a app_scheme \<Rightarrow> response list \<times> 'a app_scheme" where
  "run A F [] s = ([], s)"
| "run A F (q # qs) s =
     (let (resp, s') = serve A F q s; (resps, s'') = run A F qs s' in (resp # resps, s''))"

inductive reachable :: "agent_lib \<Rightarrow> fernet \<Rightarrow> 'a app_scheme \<Rightarrow> 'a app_scheme \<Rightarrow> bool"
  for A F s0 where
  start: "reachable A F s0 s0"
| step: "reachable A F s0 s \<Longrightarrow> reachable A F s0 (snd (serve A F q s))"

text \<open>
  The state after app.py is imported (lines 65-68): the manager with its default paths
  and no cached cipher, no agent, the environment \<open>load_dotenv\<close> produced, and a client
  with an empty session, on a directory with the given files.
\<close>

definition app_init ::
  "(path \<rightharpoonup> bytes) \<Rightarrow> path set \<Rightarrow> bool \<Rightarrow> (string \<rightharpoonup> string) \<Rightarrow> app" where
  "app_init fs dn ck env =
     \<lparr>files = fs, denied = dn, owner_only = {}, chmod_ok = ck,
      config_file = ''config.encrypted'', master_key_file = ''.master_key'', cipher = None,
      agent_app = None, environ = env,
      sess = \<lparr>session_id = None, poster_state = None, poster_history = None\<rparr>\<rparr>"

text \<open>
  The ways the handlers may change a client's session, as an abstract specification: a
  session id is set only when there is none, the poster state is cleared or set together
  with a push onto the bounded history, and /clear-poster drops both. Every request is
  such a step (lemma \<open>serve_session_step\<close>).
\<close>

inductive session_step :: "flask_session \<Rightarrow> flask_session \<Rightarrow> bool" where
  keep: "session_step se se"
| set_id: "session_id se = None \<Longrightarrow> session_step se (se\<lparr>session_id := Some x\<rparr>)"
| clear_state: "session_step se (se\<lparr>poster_state := None\<rparr>)"
| push: "session_step se (push_poster_history ps (se\<lparr>poster_state := Some ps\<rparr>))"
| clear_all: "session_step se (se\<lparr>poster_state := None, poster_history := None\<rparr>)"
| trans: "session_step se se' \<Longrightarrow> session_step se' se'' \<Longrightarrow> session_step se se''"

text \<open>The history bound of lines 305-308.\<close>

definition history_ok :: "flask_session \<Rightarrow> bool" where
  "history_ok se \<longleftrightarrow> (case poster_history se of None \<Rightarrow> True | Some xs \<Rightarrow> length xs \<le> 3)"

text \<open>An action whose every outcome is a session step.\<close>

definition sess_rel :: "'a app_scheme \<Rightarrow> 'a app_scheme \<Rightarrow> bool" where
  "sess_rel s s' \<longleftrightarrow> session_step (sess s) (sess s')"

abbreviation sess_mono :: "('a app_scheme, 'b) exc \<Rightarrow> bool" where
  "sess_mono m \<equiv> keeps sess_rel m"

text \<open>
  The answers the front-end handles: redirects to \<open>/setup\<close> and \<open>/\<close>, the two
  templates, and JSON objects with the status codes 200, 400, 500 and 503.
\<close>

fun response_ok :: "response \<Rightarrow> bool" where
  "response_ok (Redirect u) \<longleftrightarrow> u \<in> {''/setup'', ''/''}"
| "response_ok (Page t) \<longleftrightarrow> t \<in> {''index.html'', ''setup.html''}"
| "response_ok (Json v c) \<longleftrightarrow>
     (case v of PDict _ \<Rightarrow> True | _ \<Rightarrow> False) \<and> c \<in> {200, 400, 500, 503}"

text \<open>An agent configuration for the examples: the one a minimal OpenAI setup produces.\<close>

abbreviation demo_config :: agent_config where
  "demo_config \<equiv>
     \<lparr>cfg_llm_provider = PStr ''openai'', cfg_llm_model = PStr ''gpt-4o-mini'',
      cfg_enable_vision = PBool True, cfg_enable_memory = PBool True,
      cfg_memory_max_turns = PInt 10, cfg_faiss_index_path = PNone,
      cfg_warmup_on_start = False, cfg_verbose = True\<rparr>"

subsection \<open>Agent initialisation never raises\<close>

text \<open>The part of the state the handlers keep: files, paths, permissions and the session.\<close>

definition disk_frame :: "'a app_scheme \<Rightarrow> 'a app_scheme \<Rightarrow> bool" where
  "disk_frame s s' \<longleftrightarrow>
     files s' = files s \<and> config_file s' = config_file s \<and>
     master_key_file s' = master_key_file s \<and> denied s' = denied s \<and> sess s' = sess s"

text \<open>A step that changes \<open>os.environ\<close> only.\<close>

definition env_only :: "'a app_scheme \<Rightarrow> 'a app_scheme \<Rightarrow> bool" where
  "env_only s s' \<longleftrightarrow> s' = s\<lparr>environ := environ s'\<rparr>"

lemma env_only_trans: "env_only s s1 \<Longrightarrow> env_only s1 s2 \<Longrightarrow> env_only s s2"
  unfolding env_only_def by (metis app.update_convs(2) app.surjective)

named_theorems env_only_intros "steps that change only the environment"

lemma env_only_ebind [env_only_intros]:
  assumes "\<And>t. env_only t (snd (m t))" and "\<And>x t. env_only t (snd (f x t))"
  shows "env_only s (snd (ebind m f s))"
proof -
  obtain x s1 where m: "m s = (x, s1)" by fastforce
  from assms(1) [of s] m have e1: "env_only s s1" by simp
  show ?thesis
  proof (cases x)
    case (Inr a)
    obtain y s2 where f: "f a s1 = (y, s2)" by fastforce
    from assms(2) [where x = a and t = s1] f have "env_only s1 s2" by simp
    with e1 m f Inr show ?thesis by (simp add: ebind_def env_only_trans)
  qed (use m e1 in \<open>simp add: ebind_def\<close>)
qed

lemma env_only_ret [env_only_intros]: "env_only s (snd (ret a s))"
  by (simp add: env_only_def)

lemma env_only_lift [env_only_intros]: "env_only s (snd (lift_exc r s))"
  by (simp add: env_only_def lift_exc_def)

lemma env_only_set_env [env_only_intros]: "env_only s (snd (set_env k v s))"
  by (simp add: env_only_def set_env_def split: pyval.splits)

lemma env_only_if [env_only_intros]:
  "(b \<Longrightarrow> env_only s (snd (m1 s))) \<Longrightarrow> (\<not> b \<Longrightarrow> env_only s (snd (m2 s))) \<Longrightarrow>
   env_only s (snd ((if b then m1 else m2) s))"
  by simp

lemma env_only_set_env_if [env_only_intros]: "env_only s (snd (set_env_if cd k v s))"
  unfolding set_env_if_def by (intro env_only_intros)

lemma env_only_set_provider_env: "env_only s (snd (set_provider_env cd s))"
  unfolding set_provider_env_def by (intro env_only_intros)

text \<open>The program's state outside the manager lives in the manager record's extension.\<close>

lemma more_app_fields:
  "mgr.more s1 = mgr.more (s :: 'a app_scheme) \<Longrightarrow>
   sess s1 = sess s \<and> agent_app s1 = agent_app s \<and> environ s1 = environ s"
  unfolding app.select_defs mgr.select_defs disk.select_defs o_def by simp

lemma same_frame_disk_frame:
  assumes sf: "same_frame s s1" and f: "files s1 = files s"
  shows "disk_frame s s1 \<and> agent_app s1 = agent_app s"
proof -
  from sf have "mgr.more s1 = mgr.more s" by (simp add: same_frame_def)
  from more_app_fields [OF this] have "sess s1 = sess s" "agent_app s1 = agent_app s" by blast+
  with sf f show ?thesis by (simp add: same_frame_def disk_frame_def)
qed

lemma env_only_keeps:
  assumes "env_only s s'"
  shows "disk_frame s s' \<and> cipher s' = cipher s \<and> agent_app s' = agent_app s"
proof -
  from assms obtain e where "s' = s\<lparr>environ := e\<rparr>" unfolding env_only_def by blast
  then show ?thesis by (simp add: disk_frame_def)
qed

lemma disk_frame_trans [trans]: "disk_frame s s1 \<Longrightarrow> disk_frame s1 s2 \<Longrightarrow> disk_frame s s2"
  by (simp add: disk_frame_def)

lemma disk_frame_refl [simp]: "disk_frame s s"
  by (simp add: disk_frame_def)

lemma disk_frame_agent [simp]: "disk_frame s (s\<lparr>agent_app := a\<rparr>)"
  by (simp add: disk_frame_def)

lemma load_config_cached: "cipher s = Some k \<Longrightarrow> cipher (snd (load_config F r s)) = Some k"
  by (auto simp: load_config_def get_cipher_def ebind_def catch_def read_bytes_def
           split: prod.splits sum.splits if_splits option.splits)

text \<open>
  \<open>_initialize_agent_from_config\<close> always returns normally; it changes neither the files,
  nor the session, nor a cached cipher, and it does nothing when an agent exists or the
  manager is not configured.
\<close>

lemma init_agent_loaded:
  assumes "agent_app s = None" "is_configured s" "load_config F r s = (Inr c, s1)"
    and "set_provider_env (case c of Some v \<Rightarrow> v | None \<Rightarrow> PNone) s1 = (y, s2)"
  shows "\<exists>a. initialize_agent_from_config A F r s = (Inr (), s2\<lparr>agent_app := a\<rparr>)"
  using assms
  by (auto simp: initialize_agent_from_config_def catch_def ebind_def lift_exc_def Let_def
           split: sum.split if_split)

lemma init_agent_result:
  "\<exists>s'. initialize_agent_from_config A F r s = (Inr (), s') \<and> disk_frame s s' \<and>
        (\<forall>k. cipher s = Some k \<longrightarrow> cipher s' = Some k) \<and>
        (agent_app s \<noteq> None \<longrightarrow> s' = s) \<and> (\<not> is_configured s \<longrightarrow> s' = s)"
proof (cases "agent_app s \<noteq> None \<or> \<not> is_configured s")
  case True
  then show ?thesis by (auto simp: initialize_agent_from_config_def)
next
  case False
  obtain x s1 where l: "load_config F r s = (x, s1)" by fastforce
  have f1: "disk_frame s s1"
    using load_config_frame [of s F r] l same_frame_disk_frame by auto
  have c1: "\<forall>k. cipher s = Some k \<longrightarrow> cipher s1 = Some k"
    using load_config_cached [of s _ F r] l by auto
  show ?thesis
  proof (cases x)
    case (Inl e)
    with False l f1 c1 show ?thesis
      by (auto simp: initialize_agent_from_config_def catch_def ebind_def disk_frame_def)
  next
    case (Inr c)
    let ?cd = "case c of Some v \<Rightarrow> v | None \<Rightarrow> PNone"
    obtain y s2 where p: "set_provider_env ?cd s1 = (y, s2)" by fastforce
    from env_only_set_provider_env [of s1 ?cd] p
    have f2: "disk_frame s1 s2" and c2: "cipher s2 = cipher s1"
      using env_only_keeps by auto
    with f1 c1 have f12: "disk_frame s s2" and c12: "\<forall>k. cipher s = Some k \<longrightarrow> cipher s2 = Some k"
      using disk_frame_trans by auto
    obtain a where a: "initialize_agent_from_config A F r s = (Inr (), s2\<lparr>agent_app := a\<rparr>)"
      using init_agent_loaded [OF _ _ l [unfolded Inr] p] False by auto
    have "disk_frame s (s2\<lparr>agent_app := a\<rparr>)"
      using f12 disk_frame_trans disk_frame_agent by blast
    with a False c12 show ?thesis by auto
  qed
qed

subsection \<open>Handler lemmas\<close>

lemma validate_accepts:
  "validate_setup_data data = Inr (True, m) \<Longrightarrow> truthy data \<and> m = None"
  by (cases data)
     (auto simp: validate_setup_data_def dict_get_def py_get_def split: if_splits sum.splits option.splits
           elim!: sbind_eq_Inr [THEN iffD1, elim_format])

lemma same_frame_app:
  "same_frame s s' \<Longrightarrow> sess s' = sess s \<and> agent_app s' = agent_app s \<and> environ s' = environ s"
  using more_app_fields by (auto simp: same_frame_def)

lemma disk_frame_mgr:
  "disk_frame s s' \<Longrightarrow> cipher s' = cipher s \<Longrightarrow>
   mgr_inv F s' = mgr_inv F s \<and> is_configured s' = is_configured s"
proof -
  assume f: "disk_frame s s'" and c: "cipher s' = cipher s"
  then have "files s' = files s" "config_file s' = config_file s"
    "master_key_file s' = master_key_file s" by (simp_all add: disk_frame_def)
  with c show ?thesis unfolding mgr_inv_def is_configured_def path_exists_def by metis
qed

text \<open>A valid setup whose save succeeds answers "Configuration saved" after initialising the agent.\<close>

lemma setup_post_saved:
  assumes v: "validate_setup_data data = Inr (True, None)"
    and sv: "save_config F r data s = (Inr (), s1)"
  shows "setup_post A F r data s = (success_json ''Configuration saved'',
                                    snd (initialize_agent_from_config A F r s1))"
proof -
  have t: "truthy data" using validate_accepts [OF v] by simp
  obtain s2 where i: "initialize_agent_from_config A F r s1 = (Inr (), s2)"
    using init_agent_result [of A F r s1] by blast
  show ?thesis
    using t v sv i by (simp add: setup_post_def handle_500_def lift_exc_def ebind_def)
qed

lemma reset_config_ok:
  assumes "config_file s \<notin> denied s" "master_key_file s \<notin> denied s"
  shows "\<exists>s'. reset_config s = (success_json ''Configuration reset'', s') \<and> same_frame s s' \<and>
              cipher s' = cipher s \<and>
              files s' = (files s)(config_file s := None, master_key_file s := None)"
  using delete_config_ok [OF assms]
  by (auto simp: reset_config_def handle_500_def ebind_def)

lemma reset_config_keeps_app: "agent_app (snd (reset_config s)) = agent_app s \<and>
    sess (snd (reset_config s)) = sess s"
proof -
  obtain x s' where d: "delete_config s = (x, s')" by fastforce
  with delete_config_frame [of s] have "same_frame s s'" by simp
  from same_frame_app [OF this] d show ?thesis
    by (auto simp: reset_config_def handle_500_def ebind_def split: sum.splits)
qed

text \<open>
  A valid setup on a manager satisfying the invariant, with writable files: the answer is
  "Configuration saved", the manager is configured, a cipher is cached, and every later
  load returns the submitted data.
\<close>

lemma setup_post_valid:
  assumes F: "fernet_ok F" and inv: "mgr_inv F s"
    and kf: "master_key_file s \<notin> denied s" and cf: "config_file s \<notin> denied s"
    and v: "validate_setup_data data = Inr (True, None)" and w: "pyval_wf data"
  shows "\<exists>s'. setup_post A F r data s = (success_json ''Configuration saved'', s') \<and>
              mgr_inv F s' \<and> is_configured s' \<and> cipher s' \<noteq> None \<and>
              config_file s' = config_file s \<and> master_key_file s' = master_key_file s \<and>
              denied s' = denied s \<and> sess s' = sess s \<and>
              (\<forall>r'. \<exists>s''. load_config F r' s' = (Inr (Some data), s''))"
proof -
  let ?k = "active_key F r s"
  let ?b = "encrypt F ?k r (utf8_encode (json_dumps data))"
  obtain s1 where sv: "save_config F r data s = (Inr (), s1)" and i1: "mgr_inv F s1"
    and f1: "same_frame s s1"
    and fl: "files s1 = (files s)(master_key_file s \<mapsto> ?k, config_file s \<mapsto> ?b)"
    and c1: "cipher s1 = Some ?k"
    using save_config_ok [OF F inv kf cf] by blast
  have conf1: "is_configured s1" by (rule configured_after_save [OF sv i1 f1 fl])
  obtain s2 where ini: "initialize_agent_from_config A F r s1 = (Inr (), s2)"
    and f2: "disk_frame s1 s2" and c2: "cipher s2 = Some ?k"
    using init_agent_result [of A F r s1] c1 by blast
  have i2: "mgr_inv F s2" and conf2: "is_configured s2"
    using disk_frame_mgr [OF f2, of F] c1 c2 i1 conf1 by simp_all
  have p2: "config_file s2 = config_file s" "master_key_file s2 = master_key_file s"
      "denied s2 = denied s" "sess s2 = sess s"
    using f1 f2 same_frame_app [OF f1] by (simp_all add: same_frame_def disk_frame_def)
  have "\<exists>s''. load_config F r' s2 = (Inr (Some data), s'')" for r'
  proof (rule load_saved [OF F i2 conf2])
    show "active_key F r' s2 = ?k" using c2 by (simp add: active_key_def)
  qed (use p2 f2 fl kf cf active_key_valid [OF F inv] w in \<open>simp_all add: disk_frame_def\<close>)
  moreover have "setup_post A F r data s = (success_json ''Configuration saved'', s2)"
    using setup_post_saved [OF v sv, of A] ini by simp
  ultimately show ?thesis using i2 conf2 c2 p2 by auto
qed

lemma setup_post_agent:
  assumes a: "agent_app s = Some cfg"
  shows "agent_app (snd (setup_post A F r d s)) = Some cfg"
proof -
  obtain x s1 where sv: "save_config F r d s = (x, s1)" by fastforce
  from save_config_frame [of s F r d] sv have "agent_app s1 = agent_app s"
    using same_frame_app by auto
  with a have i: "initialize_agent_from_config A F r s1 = (Inr (), s1)"
    by (simp add: initialize_agent_from_config_def)
  show ?thesis using a sv i
    by (auto simp: setup_post_def handle_500_def lift_exc_def ebind_def \<open>agent_app s1 = agent_app s\<close>
             split: sum.splits if_splits prod.splits)
qed

lemma save_cached_files:
  assumes "cipher s = Some k" "config_file s \<notin> denied s"
  shows "\<exists>s'. save_config F r c s = (Inr (), s') \<and>
              files s' = (files s)(config_file s \<mapsto> encrypt F k r (utf8_encode (json_dumps c))) \<and>
              config_file s' = config_file s \<and> master_key_file s' = master_key_file s"
proof -
  obtain s' where sv: "save_config F r c s = (Inr (), s')"
    using save_cached [OF assms, of F r c] by (simp add: chmod_600_def)
  have "same_frame s s'" using save_config_frame [of s F r c] sv by simp
  moreover have "files s' = (files s)(config_file s \<mapsto> encrypt F k r (utf8_encode (json_dumps c)))"
    using save_cached [OF assms, of F r c] sv assms(2) by (auto simp: chmod_600_def)
  ultimately show ?thesis using sv by (simp add: same_frame_def)
qed

subsection \<open>Properties of the application\<close>

text \<open>
  C13. Reset followed by a new setup loses the configuration (the stale cipher of
  \<open>delete_config\<close> seen through the HTTP layer): on a manager satisfying the invariant
  with writable files, the requests POST /setup (valid), POST /reset-config, POST /setup
  (valid) all answer success, yet GET / then redirects to /setup and the application is
  not configured.
\<close>

theorem reset_then_setup_stays_unconfigured:
  assumes F: "fernet_ok F" and inv: "mgr_inv F s"
    and kf: "master_key_file s \<notin> denied s" and cf: "config_file s \<notin> denied s"
    and v1: "validate_setup_data d1 = Inr (True, None)" and w1: "pyval_wf d1"
    and v2: "validate_setup_data d2 = Inr (True, None)"
  shows "\<exists>s'. run A F [PostSetup r1 d1, PostResetConfig, PostSetup r2 d2, GetIndex] s =
           ([success_json ''Configuration saved'', success_json ''Configuration reset'',
             success_json ''Configuration saved'', Redirect ''/setup''], s') \<and>
           \<not> is_configured s'"
proof -
  obtain s1 where st1: "setup_post A F r1 d1 s = (success_json ''Configuration saved'', s1)"
    and i1: "mgr_inv F s1" and c1: "cipher s1 \<noteq> None"
    and p1: "config_file s1 = config_file s" "master_key_file s1 = master_key_file s"
            "denied s1 = denied s"
    using setup_post_valid [OF F inv kf cf v1 w1, of A r1] by blast
  obtain k where k: "cipher s1 = Some k" using c1 by blast
  obtain s2 where rs: "reset_config s1 = (success_json ''Configuration reset'', s2)"
    and f2: "same_frame s1 s2" and c2: "cipher s2 = Some k"
    and fl2: "files s2 = (files s1)(config_file s1 := None, master_key_file s1 := None)"
    using reset_config_ok [of s1] p1 kf cf k by auto
  have cf2: "config_file s2 \<notin> denied s2" and ne: "config_file s2 \<noteq> master_key_file s2"
    using f2 p1 cf i1 by (auto simp: same_frame_def mgr_inv_def)
  obtain s3 where sv: "save_config F r2 d2 s2 = (Inr (), s3)"
    and fl3: "files s3 = (files s2)(config_file s2 \<mapsto> encrypt F k r2 (utf8_encode (json_dumps d2)))"
    and f3: "config_file s3 = config_file s2" "master_key_file s3 = master_key_file s2"
    using save_cached_files [OF c2 cf2, of F r2 d2] by blast
  have nc: "\<not> is_configured s3"
    using fl3 fl2 f2 f3 ne by (auto simp: is_configured_def path_exists_def same_frame_def)
  then have "initialize_agent_from_config A F r2 s3 = (Inr (), s3)"
    by (simp add: initialize_agent_from_config_def)
  with setup_post_saved [OF v2 sv, of A]
  have st2: "setup_post A F r2 d2 s2 = (success_json ''Configuration saved'', s3)" by simp
  have "index s3 = (Redirect ''/setup'', s3)" using nc by (simp add: index_def)
  with st1 rs st2 nc show ?thesis by simp
qed

theorem reset_then_setup_stays_unconfigured_witness:
  "validate_setup_data (PDict [(''llm_provider'', PStr ''openai''), (''openai_api_key'', PStr ''sk-1'')]) = Inr (True, None) \<and> validate_setup_data (PDict [(''llm_provider'', PStr ''openai''), (''openai_api_key'', PStr ''sk-2'')]) = Inr (True, None) \<and>
   (\<exists>s'. run demo_agent toy_fernet [PostSetup 0 (PDict [(''llm_provider'', PStr ''openai''), (''openai_api_key'', PStr ''sk-1'')]), PostResetConfig, PostSetup 1 (PDict [(''llm_provider'', PStr ''openai''), (''openai_api_key'', PStr ''sk-2'')]), GetIndex]
           (app_init Map.empty {} True Map.empty) =
         ([success_json ''Configuration saved'', success_json ''Configuration reset'',
           success_json ''Configuration saved'', Redirect ''/setup''], s') \<and>
         \<not> is_configured s')"
proof -
  have i: "mgr_inv toy_fernet (app_init Map.empty {} True Map.empty)" by (simp add: mgr_inv_def app_init_def)
  have p: "master_key_file (app_init Map.empty {} True Map.empty) \<notin> denied (app_init Map.empty {} True Map.empty)" "config_file (app_init Map.empty {} True Map.empty) \<notin> denied (app_init Map.empty {} True Map.empty)"
    by (simp_all add: app_init_def)
  have v1: "validate_setup_data (PDict [(''llm_provider'', PStr ''openai''), (''openai_api_key'', PStr ''sk-1'')]) = Inr (True, None)"
    and v2: "validate_setup_data (PDict [(''llm_provider'', PStr ''openai''), (''openai_api_key'', PStr ''sk-2'')]) = Inr (True, None)"
    by (simp_all add: validate_setup_data_def key_missing_for_def key_format_bad_def dict_get_def
                      py_getitem_def)
  have w: "pyval_wf (PDict [(''llm_provider'', PStr ''openai''), (''openai_api_key'', PStr ''sk-1'')])" by simp
  from reset_then_setup_stays_unconfigured [OF toy_fernet_ok i p v1 w v2, of demo_agent 0 1] v1 v2
  show ?thesis by blast
qed

text \<open>
  C14. Validation precedes persistence: a POST /setup whose data the validator does not
  accept (falsy body, a failing rule, or a validator exception) leaves the whole state
  unchanged, files included, and answers 400 or 500.
\<close>

theorem setup_rejects_without_writing:
  assumes "validate_setup_data data \<noteq> Inr (True, None)"
  shows "snd (setup_post A F r data s) = s \<and>
         (\<exists>body. fst (setup_post A F r data s) = Json body 400 \<or>
                 fst (setup_post A F r data s) = Json body 500)"
proof (cases "validate_setup_data data")
  case (Inr res)
  obtain ok m where res: "res = (ok, m)" by fastforce
  have "\<not> ok" using assms validate_accepts [of data m] Inr res by auto
  with Inr res show ?thesis
    by (auto simp: setup_post_def handle_500_def lift_exc_def ebind_def json_error_def)
qed (auto simp: setup_post_def handle_500_def lift_exc_def ebind_def json_error_def)

theorem setup_rejects_without_writing_witness:
  "validate_setup_data (PDict [(''llm_provider'', PStr ''groq'')]) \<noteq> Inr (True, None) \<and>
   snd (setup_post demo_agent toy_fernet 0 (PDict [(''llm_provider'', PStr ''groq'')]) (app_init Map.empty {} True Map.empty)) = app_init Map.empty {} True Map.empty"
proof -
  have v: "validate_setup_data (PDict [(''llm_provider'', PStr ''groq'')]) \<noteq> Inr (True, None)"
    by (simp add: validate_setup_data_def key_missing_for_def dict_get_def)
  from setup_rejects_without_writing [OF v, of demo_agent toy_fernet 0 "app_init Map.empty {} True Map.empty"] v show ?thesis
    by blast
qed

text \<open>
  C15. A valid first setup configures the application: POST /setup answers
  "Configuration saved", GET / then serves the main page, and the manager loads back
  exactly the submitted data.
\<close>

theorem setup_configures:
  assumes F: "fernet_ok F" and inv: "mgr_inv F s"
    and kf: "master_key_file s \<notin> denied s" and cf: "config_file s \<notin> denied s"
    and v: "validate_setup_data data = Inr (True, None)" and w: "pyval_wf data"
  shows "\<exists>s'. setup_post A F r data s = (success_json ''Configuration saved'', s') \<and>
              index s' = (Page ''index.html'', s') \<and>
              (\<exists>s''. load_config F r' s' = (Inr (Some data), s''))"
  using setup_post_valid [OF F inv kf cf v w, of A r] by (auto simp: index_def)

theorem setup_configures_witness:
  "validate_setup_data (PDict [(''llm_provider'', PStr ''openai''), (''openai_api_key'', PStr ''sk-1'')]) = Inr (True, None) \<and>
   (\<exists>s'. setup_post demo_agent toy_fernet 0 (PDict [(''llm_provider'', PStr ''openai''), (''openai_api_key'', PStr ''sk-1'')]) (app_init Map.empty {} True Map.empty) = (success_json ''Configuration saved'', s') \<and>
         index s' = (Page ''index.html'', s') \<and>
         (\<exists>s''. load_config toy_fernet 0 s' = (Inr (Some (PDict [(''llm_provider'', PStr ''openai''), (''openai_api_key'', PStr ''sk-1'')])), s'')))"
proof -
  have i: "mgr_inv toy_fernet (app_init Map.empty {} True Map.empty)" by (simp add: mgr_inv_def app_init_def)
  have p: "master_key_file (app_init Map.empty {} True Map.empty) \<notin> denied (app_init Map.empty {} True Map.empty)" "config_file (app_init Map.empty {} True Map.empty) \<notin> denied (app_init Map.empty {} True Map.empty)"
    by (simp_all add: app_init_def)
  have v: "validate_setup_data (PDict [(''llm_provider'', PStr ''openai''), (''openai_api_key'', PStr ''sk-1'')]) = Inr (True, None)"
    by (simp add: validate_setup_data_def key_missing_for_def key_format_bad_def dict_get_def
                  py_getitem_def)
  have w: "pyval_wf (PDict [(''llm_provider'', PStr ''openai''), (''openai_api_key'', PStr ''sk-1'')])" by simp
  from setup_configures [OF toy_fernet_ok i p v w, of demo_agent 0 0] v show ?thesis by blast
qed

text \<open>
  C16. Reset keeps the running agent (a defect of \<open>reset_config\<close>): POST /reset-config
  does not drop \<open>agent_app\<close>, and since \<open>_initialize_agent_from_config\<close> reuses an existing
  agent, a following POST /setup, whatever its data, leaves the agent built from the old
  configuration in place.
\<close>

theorem reset_keeps_stale_agent:
  assumes "agent_app s = Some cfg"
  shows "agent_app (snd (reset_config s)) = Some cfg \<and>
         agent_app (snd (setup_post A F r d (snd (reset_config s)))) = Some cfg"
  using assms reset_config_keeps_app [of s] setup_post_agent [of "snd (reset_config s)" cfg A F r d]
  by simp

theorem reset_keeps_stale_agent_witness:
  "agent_app ((app_init Map.empty {} True Map.empty)\<lparr>agent_app := Some demo_config\<rparr>) = Some demo_config \<and>
   agent_app (snd (setup_post demo_agent toy_fernet 0 (PDict [(''llm_provider'', PStr ''openai''), (''openai_api_key'', PStr ''sk-2'')])
      (snd (reset_config ((app_init Map.empty {} True Map.empty)\<lparr>agent_app := Some demo_config\<rparr>))))) = Some demo_config"
  using reset_keeps_stale_agent [of "(app_init Map.empty {} True Map.empty)\<lparr>agent_app := Some demo_config\<rparr>" demo_config
      demo_agent toy_fernet 0 "PDict [(''llm_provider'', PStr ''openai''), (''openai_api_key'', PStr ''sk-2'')]"]
  by simp

text \<open>
  C17. Gating on the configuration: while the manager is not configured, GET / redirects
  to /setup, GET /setup serves the form, and POST /chat and POST /poster answer 503;
  none of them changes the state.
\<close>

theorem unconfigured_gating:
  assumes "\<not> is_configured s"
  shows "index s = (Redirect ''/setup'', s) \<and> setup_get s = (Page ''setup.html'', s) \<and>
         chat A F r fresh d s = (not_configured_503, s) \<and>
         poster A F r fresh tmp now u s = (not_configured_503, s)"
  using assms by (simp add: index_def setup_get_def chat_def poster_def handle_500_def)

theorem unconfigured_gating_witness:
  "\<not> is_configured (app_init Map.empty {} True Map.empty) \<and>
   chat demo_agent toy_fernet 0 ''sid'' (PDict [(''query'', PStr ''hi'')])
     (app_init Map.empty {} True Map.empty) =
     (not_configured_503, app_init Map.empty {} True Map.empty)"
proof -
  have n: "\<not> is_configured (app_init Map.empty {} True Map.empty)" by (simp add: app_init_def is_configured_def path_exists_def)
  from unconfigured_gating [OF n, of demo_agent toy_fernet 0 "''sid''" "PDict [(''query'', PStr ''hi'')]"]
  show ?thesis using n by blast
qed

subsection \<open>Every request is a session step\<close>

named_theorems sess_mono_intros "actions whose outcomes are session steps"

lemma keeps_lift [keeps_intros]: "keeps R (lift_exc r)"
  unfolding lift_exc_def by (rule keeps_unit)

lemma keeps_finally [keeps_intros]:
  assumes "keeps R m" "keeps R f"
  shows "keeps R (finally_exc m f)"
  unfolding keeps_def
proof
  fix s
  obtain y s1 where m: "m s = (y, s1)" by fastforce
  obtain z s2 where f: "f s1 = (z, s2)" by fastforce
  have "R\<^sup>*\<^sup>* s s1" using assms(1) m unfolding keeps_def by (metis snd_conv)
  moreover have "R\<^sup>*\<^sup>* s1 s2" using assms(2) f unfolding keeps_def by (metis snd_conv)
  ultimately show "R\<^sup>*\<^sup>* s (snd (finally_exc m f s))"
    using m f by (cases z) (auto simp: finally_exc_def intro: rtranclp_trans)
qed

lemma sess_mono_iff: "sess_mono m \<longleftrightarrow> (\<forall>s. session_step (sess s) (sess (snd (m s))))"
proof
  assume m: "sess_mono m"
  show "\<forall>s. session_step (sess s) (sess (snd (m s)))"
  proof
    fix s
    have "sess_rel s (snd (m s))"
      by (rule keeps_apply [OF m]) (unfold sess_rel_def, rule session_step.keep, erule (1) session_step.trans)
    then show "session_step (sess s) (sess (snd (m s)))" by (simp add: sess_rel_def)
  qed
qed (intro keeps_step, simp add: sess_rel_def)

lemma sess_mono_same: "(\<And>s. sess (snd (m s)) = sess s) \<Longrightarrow> sess_mono m"
  by (rule keeps_step) (simp add: sess_rel_def session_step.keep)

lemma sess_mono_write [sess_mono_intros]: "sess_mono (write_bytes p b)"
  by (rule sess_mono_same) (simp add: write_bytes_def)

lemma sess_mono_unlink [sess_mono_intros]: "sess_mono (unlink p)"
  by (rule sess_mono_same) (simp add: unlink_def)

lemma sess_mono_delete [sess_mono_intros]: "sess_mono delete_config"
  by (rule sess_mono_same) (use delete_config_frame same_frame_app in blast)

lemma sess_mono_save [sess_mono_intros]: "sess_mono (save_config F r c)"
  by (rule sess_mono_same) (use save_config_frame same_frame_app in blast)

lemma sess_mono_init [sess_mono_intros]: "sess_mono (initialize_agent_from_config A F r)"
proof (rule sess_mono_same)
  fix s
  obtain s' where "initialize_agent_from_config A F r s = (Inr (), s')" "disk_frame s s'"
    using init_agent_result [of A F r s] by blast
  then show "sess (snd (initialize_agent_from_config A F r s)) = sess s"
    by (simp add: disk_frame_def)
qed

lemma sess_mono_ensure [sess_mono_intros]: "sess_mono (ensure_session_id fresh)"
  by (rule keeps_step)
     (auto simp: sess_rel_def ensure_session_id_def intro: session_step.intros split: option.splits)

lemma sess_mono_analyse: "sess_mono (poster_analyse A agent fresh tmp now)"
  unfolding poster_analyse_def
proof (intro keeps_intros sess_mono_intros)
  fix sid
  show "sess_mono (\<lambda>s. let s' = s\<lparr>sess := (sess s)\<lparr>poster_state := None\<rparr>\<rparr> in
          case agent_analyze_poster A agent tmp sid of
            None \<Rightarrow> (Inl (ValueError ''orchestration error''), s')
          | Some pr \<Rightarrow> (let ps = poster_state_of pr now in
              (Inr (Json (poster_json pr) 200),
               s'\<lparr>sess := push_poster_history ps ((sess s')\<lparr>poster_state := Some ps\<rparr>)\<rparr>)))"
    by (rule keeps_step) (auto simp: sess_rel_def Let_def intro: session_step.intros split: option.splits)
qed

lemma handle_500_step: "sess_mono m \<Longrightarrow> session_step (sess s) (sess (snd (handle_500 m s)))"
  by (auto simp: sess_mono_iff handle_500_def split: prod.splits sum.splits dest: spec [of _ s])

lemma sess_mono_chat_query: "sess_mono (chat_query A agent fresh data)"
  unfolding chat_query_def Let_def by (intro keeps_intros sess_mono_intros)

lemma sess_mono_upload: "sess_mono (poster_upload A agent fresh tmp now u)"
  unfolding poster_upload_def by (intro keeps_intros sess_mono_intros sess_mono_analyse)

lemma init_sess: "sess (snd (initialize_agent_from_config A F r s)) = sess s"
  using sess_mono_init [of A F r]
  by (metis disk_frame_def init_agent_result snd_conv)

lemma serve_session_step: "session_step (sess s) (sess (snd (serve A F q s)))"
proof (cases q)
  case (PostSetup r d)
  show ?thesis unfolding PostSetup serve.simps setup_post_def
    by (rule handle_500_step) (intro keeps_intros sess_mono_intros)
next
  case (PostChat r fresh d)
  show ?thesis unfolding PostChat serve.simps chat_def
    by (rule handle_500_step) (intro keeps_intros sess_mono_intros sess_mono_chat_query)
next
  case (PostPoster r fresh tmp now u)
  let ?s1 = "snd (initialize_agent_from_config A F r s)"
  have "session_step (sess ?s1) (sess (snd (handle_500 (poster_upload A ag fresh tmp now u) ?s1)))"
    for ag by (rule handle_500_step [OF sess_mono_upload])
  with PostPoster show ?thesis
    by (auto simp: poster_def init_sess session_step.keep Let_def split: option.splits)
next
  case PostResetConfig
  show ?thesis unfolding PostResetConfig serve.simps reset_config_def
    by (rule handle_500_step) (intro keeps_intros sess_mono_intros)
next
  case (PostClearPoster fresh)
  show ?thesis unfolding PostClearPoster serve.simps clear_poster_def clear_service_memory_def
    by (rule handle_500_step) (intro keeps_intros sess_mono_intros keeps_step,
        simp add: sess_rel_def session_step.clear_all)
qed (simp_all add: index_def setup_get_def session_step.keep)

lemma push_poster_history_ok: "history_ok (push_poster_history ps se)"
  by (simp add: history_ok_def push_poster_history_def Let_def)

lemma session_step_history: "session_step se se' \<Longrightarrow> history_ok se \<Longrightarrow> history_ok se'"
  by (induction rule: session_step.induct)
     (simp_all add: history_ok_def push_poster_history_ok [unfolded history_ok_def])

lemma session_step_id:
  "session_step se se' \<Longrightarrow> session_id se = Some x \<Longrightarrow> session_id se' = Some x"
  by (induction rule: session_step.induct) (simp_all add: push_poster_history_def Let_def)

lemma analyse_disk:
  "files (snd (poster_analyse A ag fresh tmp now s)) = files s \<and>
   denied (snd (poster_analyse A ag fresh tmp now s)) = denied s"
  by (auto simp: poster_analyse_def ensure_session_id_def ebind_def Let_def
           split: option.splits)

lemma upload_files:
  assumes t: "files s tmp = None" "tmp \<notin> denied s"
  shows "files (snd (poster_upload A ag fresh tmp now u s)) = files s"
proof (cases u)
  case (Some fc)
  obtain fname content where fc: "fc = (fname, content)" by fastforce
  obtain s1 where w: "write_bytes tmp content s = (Inr (), s1)"
    and f1: "files s1 = (files s)(tmp \<mapsto> content)" and d1: "denied s1 = denied s"
    using t by simp
  obtain y s2 where an: "poster_analyse A ag fresh tmp now s1 = (y, s2)" by fastforce
  have f2: "files s2 = (files s)(tmp \<mapsto> content)" "denied s2 = denied s"
    using analyse_disk [of A ag fresh tmp now s1] an f1 d1 by simp_all
  then have "unlink tmp s2 = (Inr (), s2\<lparr>files := (files s)(tmp := None),
                 owner_only := owner_only s2 - {tmp}\<rparr>)"
    using t by simp
  moreover have "(files s)(tmp := None) = files s" using t by auto
  ultimately show ?thesis
    using Some fc w an
    by (auto simp: poster_upload_def ebind_def finally_exc_def split: sum.splits)
qed (simp add: poster_upload_def)

lemma handle_500_state: "snd (handle_500 m s) = snd (m s)"
  by (simp add: handle_500_def split: prod.splits sum.splits)

text \<open>
  C18. Invariant of the session: in every state reachable by any sequence of requests
  from a state whose poster history holds at most three entries, it still holds at most
  three (\<open>poster_history[-3:]\<close> after every append).
\<close>

theorem poster_history_bounded:
  "reachable A F s0 s \<Longrightarrow> history_ok (sess s0) \<Longrightarrow> history_ok (sess s)"
  by (induction rule: reachable.induct) (auto intro: session_step_history serve_session_step)

theorem poster_history_bounded_witness:
  "reachable demo_agent toy_fernet (app_init Map.empty {} True Map.empty)
     (snd (serve demo_agent toy_fernet (PostClearPoster ''u1'') (app_init Map.empty {} True Map.empty))) \<and>
   history_ok (sess (app_init Map.empty {} True Map.empty)) \<and>
   history_ok (sess (snd (serve demo_agent toy_fernet (PostClearPoster ''u1'') (app_init Map.empty {} True Map.empty))))"
proof -
  have r: "reachable demo_agent toy_fernet (app_init Map.empty {} True Map.empty)
     (snd (serve demo_agent toy_fernet (PostClearPoster ''u1'') (app_init Map.empty {} True Map.empty)))"
    by (rule reachable.step [OF reachable.start])
  have h: "history_ok (sess (app_init Map.empty {} True Map.empty))" by (simp add: history_ok_def app_init_def)
  from poster_history_bounded [OF r h] r h show ?thesis by blast
qed

text \<open>
  C19. Invariant of the session: once a client has a session id, every later request,
  in any order, keeps it (the agent's memory stays keyed by one id).
\<close>

theorem session_id_stable:
  "reachable A F s0 s \<Longrightarrow> session_id (sess s0) = Some x \<Longrightarrow> session_id (sess s) = Some x"
  by (induction rule: reachable.induct) (auto intro: session_step_id serve_session_step)

theorem session_id_stable_witness:
  "reachable demo_agent toy_fernet ((app_init Map.empty {} True Map.empty)\<lparr>sess := \<lparr>session_id = Some ''u0'', poster_state = None,
       poster_history = None\<rparr>\<rparr>)
     (snd (serve demo_agent toy_fernet (PostClearPoster ''u1'') ((app_init Map.empty {} True Map.empty)\<lparr>sess := \<lparr>session_id = Some ''u0'',
       poster_state = None, poster_history = None\<rparr>\<rparr>))) \<and>
   session_id (sess (snd (serve demo_agent toy_fernet (PostClearPoster ''u1'') ((app_init Map.empty {} True Map.empty)\<lparr>sess :=
       \<lparr>session_id = Some ''u0'', poster_state = None, poster_history = None\<rparr>\<rparr>)))) = Some ''u0''"
proof -
  let ?s0 = "(app_init Map.empty {} True Map.empty)\<lparr>sess := \<lparr>session_id = Some ''u0'', poster_state = None, poster_history = None\<rparr>\<rparr>"
  have r: "reachable demo_agent toy_fernet ?s0
     (snd (serve demo_agent toy_fernet (PostClearPoster ''u1'') ?s0))"
    by (rule reachable.step [OF reachable.start])
  have h: "session_id (sess ?s0) = Some ''u0''" by simp
  from session_id_stable [OF r h] r show ?thesis by blast
qed

text \<open>
  C20. POST /poster leaves no temporary file behind: for a fresh, writable temporary
  path, the files after the request are exactly those before it, on every path through
  the handler (not configured, no agent, a missing or unnamed upload, an analysis that
  succeeds or raises).
\<close>

theorem poster_leaves_no_temp_file:
  assumes t: "files s tmp = None" "tmp \<notin> denied s"
  shows "files (snd (poster A F r fresh tmp now u s)) = files s"
proof -
  obtain s1 where i: "initialize_agent_from_config A F r s = (Inr (), s1)" and f: "disk_frame s s1"
    using init_agent_result [of A F r s] by blast
  have t1: "files s1 tmp = None" "tmp \<notin> denied s1" using f t by (simp_all add: disk_frame_def)
  have "files (snd (handle_500 (poster_upload A ag fresh tmp now u) s1)) = files s1" for ag
    using upload_files [OF t1] by (simp add: handle_500_state)
  with i f show ?thesis
    by (auto simp: poster_def disk_frame_def split: option.splits)
qed

theorem poster_leaves_no_temp_file_witness:
  "files ((app_init [''config.encrypted'' \<mapsto> ''c'', ''.master_key'' \<mapsto> ''k''] {} True Map.empty)\<lparr>agent_app := Some demo_config\<rparr>) ''/tmp/p1'' = None \<and>
   files (snd (poster demo_agent toy_fernet 0 ''u1'' ''/tmp/p1'' ''2026-11-09'' (Some (''a.png'', ''PNG''))
      ((app_init [''config.encrypted'' \<mapsto> ''c'', ''.master_key'' \<mapsto> ''k''] {} True Map.empty)\<lparr>agent_app := Some demo_config\<rparr>))) = files ((app_init [''config.encrypted'' \<mapsto> ''c'', ''.master_key'' \<mapsto> ''k''] {} True Map.empty)\<lparr>agent_app := Some demo_config\<rparr>)"
proof -
  have t: "files ((app_init [''config.encrypted'' \<mapsto> ''c'', ''.master_key'' \<mapsto> ''k''] {} True Map.empty)\<lparr>agent_app := Some demo_config\<rparr>) ''/tmp/p1'' = None" "''/tmp/p1'' \<notin> denied ((app_init [''config.encrypted'' \<mapsto> ''c'', ''.master_key'' \<mapsto> ''k''] {} True Map.empty)\<lparr>agent_app := Some demo_config\<rparr>)"
    by (simp_all add: app_init_def)
  from poster_leaves_no_temp_file [OF t, of demo_agent toy_fernet 0 "''u1''" "''2026-11-09''"
      "Some (''a.png'', ''PNG'')"] t show ?thesis by blast
qed

lemmas env_defs = set_provider_env_def set_env_if_def set_env_def py_get_def py_getitem_def
  py_get_or_def dict_get_def lift_exc_def ebind_def

text \<open>
  C21. With OpenAI as the provider and both an \<open>openai_llm_api_key\<close> and an
  \<open>openai_api_key\<close> configured, \<open>_initialize_agent_from_config\<close> first exports the LLM key
  as \<open>OPENAI_API_KEY\<close> and then overwrites it with the embeddings key: the reasoning
  provider runs on \<open>openai_api_key\<close>, and \<open>openai_llm_api_key\<close> has no effect.
\<close>

theorem openai_llm_key_overridden:
  assumes "map_of d ''llm_provider'' = Some (PStr ''openai'')"
    and "map_of d ''openai_llm_api_key'' = Some (PStr a)" "a \<noteq> []"
    and "map_of d ''openai_api_key'' = Some (PStr b)" "b \<noteq> []"
  shows "set_provider_env (PDict d) s = (Inr (), s\<lparr>environ := (environ s)(''OPENAI_API_KEY'' \<mapsto> b)\<rparr>)"
  using assms by (simp add: env_defs)

theorem openai_llm_key_overridden_witness:
  "set_provider_env (PDict [(''llm_provider'', PStr ''openai''), (''openai_llm_api_key'', PStr ''sk-llm''),
      (''openai_api_key'', PStr ''sk-emb'')]) ((app_init [''config.encrypted'' \<mapsto> ''c'', ''.master_key'' \<mapsto> ''k''] {} True Map.empty)\<lparr>agent_app := Some demo_config\<rparr>) =
   (Inr (), ((app_init [''config.encrypted'' \<mapsto> ''c'', ''.master_key'' \<mapsto> ''k''] {} True Map.empty)\<lparr>agent_app := Some demo_config\<rparr>)\<lparr>environ := [''OPENAI_API_KEY'' \<mapsto> ''sk-emb'']\<rparr>)"
  using openai_llm_key_overridden [of "[(''llm_provider'', PStr ''openai''),
      (''openai_llm_api_key'', PStr ''sk-llm''), (''openai_api_key'', PStr ''sk-emb'')]" "''sk-llm''"
      "''sk-emb''" "(app_init [''config.encrypted'' \<mapsto> ''c'', ''.master_key'' \<mapsto> ''k''] {} True Map.empty)\<lparr>agent_app := Some demo_config\<rparr>"]
  by (simp add: app_init_def)

text \<open>
  C22. The two defaults for a missing \<open>llm_provider\<close> disagree: for a stored mapping with
  no provider, a Groq key and no OpenAI key, the environment is prepared for Groq
  (\<open>GROQ_API_KEY\<close> is exported, as \<open>get("llm_provider", "groq")\<close> says), while the agent is
  configured with provider \<open>openai\<close> (\<open>get("llm_provider", "openai")\<close>).
\<close>

theorem default_provider_mismatch:
  assumes "map_of d ''llm_provider'' = None"
    and "map_of d ''groq_api_key'' = Some (PStr g)" "g \<noteq> []"
    and "map_of d ''openai_api_key'' = None"
  shows "set_provider_env (PDict d) s = (Inr (), s\<lparr>environ := (environ s)(''GROQ_API_KEY'' \<mapsto> g)\<rparr>) \<and>
         (\<exists>c. make_agent_config (PDict d) = Inr c \<and> cfg_llm_provider c = PStr ''openai'')"
  using assms by (simp add: env_defs make_agent_config_def)

theorem default_provider_mismatch_witness:
  "set_provider_env (PDict [(''groq_api_key'', PStr ''gsk_1'')]) ((app_init [''config.encrypted'' \<mapsto> ''c'', ''.master_key'' \<mapsto> ''k''] {} True Map.empty)\<lparr>agent_app := Some demo_config\<rparr>) =
     (Inr (), ((app_init [''config.encrypted'' \<mapsto> ''c'', ''.master_key'' \<mapsto> ''k''] {} True Map.empty)\<lparr>agent_app := Some demo_config\<rparr>)\<lparr>environ := [''GROQ_API_KEY'' \<mapsto> ''gsk_1'']\<rparr>) \<and>
   (\<exists>c. make_agent_config (PDict [(''groq_api_key'', PStr ''gsk_1'')]) = Inr c \<and>
        cfg_llm_provider c = PStr ''openai'')"
  using default_provider_mismatch [of "[(''groq_api_key'', PStr ''gsk_1'')]" "''gsk_1''" "(app_init [''config.encrypted'' \<mapsto> ''c'', ''.master_key'' \<mapsto> ''k''] {} True Map.empty)\<lparr>agent_app := Some demo_config\<rparr>"]
  by (simp add: app_init_def)

lemma init_with_agent: "agent_app s \<noteq> None \<Longrightarrow> initialize_agent_from_config A F r s = (Inr (), s)"
  by (simp add: initialize_agent_from_config_def)

text \<open>
  C23. Chat with a running agent: on a configured application whose agent exists, a
  body whose \<open>query\<close>, stripped, is non-empty is answered with the agent's reply to the
  stripped query under the client's session id (a fresh one is stored if the client had
  none), as the JSON object of lines 210-226, or with a 500 carrying the agent's error.
\<close>

theorem chat_answers:
  assumes c: "is_configured s" and a: "agent_app s = Some ag"
    and q: "map_of d ''query'' = Some (PStr q)" and ne: "py_strip q \<noteq> []"
  shows "chat A F r fresh (PDict d) s =
           (let sid = (case session_id (sess s) of Some x \<Rightarrow> x | None \<Rightarrow> fresh);
                s' = s\<lparr>sess := (sess s)\<lparr>session_id := Some sid\<rparr>\<rparr> in
            case agent_chat A ag (py_strip q) sid of
              None \<Rightarrow> (json_error ''agent error'' 500, s')
            | Some resp \<Rightarrow> (Json (chat_result resp) 200, s'))"
proof -
  have d: "d \<noteq> []" using q by auto
  have k: "''query'' \<in> fst ` set d" using map_of_SomeD [OF q] by force
  have i: "initialize_agent_from_config A F r s = (Inr (), s)" using a by (simp add: init_with_agent)
  show ?thesis
    using c a q ne d i k
    by (auto simp: chat_def handle_500_def chat_query_def py_contains_def py_getitem_def
                   py_str_strip_def ensure_session_id_def lift_exc_def ebind_def Let_def
                   weak_map_of_SomeI split: option.splits)
qed

theorem chat_answers_witness:
  "is_configured ((app_init [''config.encrypted'' \<mapsto> ''c'', ''.master_key'' \<mapsto> ''k''] {} True Map.empty)\<lparr>agent_app := Some demo_config\<rparr>) \<and> py_strip '' hi '' \<noteq> [] \<and>
   chat demo_agent toy_fernet 0 ''u1'' (PDict [(''query'', PStr '' hi '')]) ((app_init [''config.encrypted'' \<mapsto> ''c'', ''.master_key'' \<mapsto> ''k''] {} True Map.empty)\<lparr>agent_app := Some demo_config\<rparr>) =
     (Json (chat_result \<lparr>answer = PStr ''hi'', movies = PList [], tools_used = PList [],
                      llm_latency_ms = PInt 1, tool_latency_ms = PInt 0, latency_ms = PInt 1,
                      reasoning_type = PStr ''direct'', resolution_metadata = PNone,
                      quiz_data = PNone\<rparr>) 200,
      ((app_init [''config.encrypted'' \<mapsto> ''c'', ''.master_key'' \<mapsto> ''k''] {} True Map.empty)\<lparr>agent_app := Some demo_config\<rparr>)\<lparr>sess := (sess ((app_init [''config.encrypted'' \<mapsto> ''c'', ''.master_key'' \<mapsto> ''k''] {} True Map.empty)\<lparr>agent_app := Some demo_config\<rparr>))\<lparr>session_id := Some ''u1''\<rparr>\<rparr>)"
proof -
  have c: "is_configured ((app_init [''config.encrypted'' \<mapsto> ''c'', ''.master_key'' \<mapsto> ''k''] {} True Map.empty)\<lparr>agent_app := Some demo_config\<rparr>)" by (simp add: app_init_def is_configured_def path_exists_def)
  have st: "py_strip '' hi '' = ''hi''" by (simp add: py_strip_def py_space_def)
  have "map_of [(''query'', PStr '' hi '')] ''query'' = Some (PStr '' hi '')" by simp
  from chat_answers [OF c _ this, of demo_config demo_agent toy_fernet 0 "''u1''"] c st
  show ?thesis by (simp add: app_init_def demo_agent_def)
qed



subsection \<open>The shape of every answer\<close>

lemma returns_finally [returns_intros]:
  assumes "returns P m"
  shows "returns P (finally_exc m f)"
  unfolding returns_def
proof
  fix s
  obtain y s1 where m: "m s = (y, s1)" by fastforce
  obtain z s2 where f: "f s1 = (z, s2)" by fastforce
  have "case y of Inr b \<Rightarrow> P b | Inl _ \<Rightarrow> True" using assms m by (rule returns_outcome)
  with m f show "case fst (finally_exc m f s) of Inr a \<Rightarrow> P a | Inl _ \<Rightarrow> True"
    by (cases z) (simp_all add: finally_exc_def)
qed

lemma handle_500_ok: "returns response_ok m \<Longrightarrow> response_ok (fst (handle_500 m s))"
  by (auto simp: handle_500_def json_error_def returns_def split: prod.splits sum.splits
           dest: spec [of _ s])

lemmas response_defs = json_error_def success_json_def not_configured_503_def
  agent_failed_500_def chat_result_def poster_json_def

lemma chat_query_ok: "returns response_ok (chat_query A agent fresh data)"
  unfolding chat_query_def Let_def by (intro returns_intros) (simp_all add: response_defs)

lemma poster_upload_ok: "returns response_ok (poster_upload A agent fresh tmp now u)"
  unfolding poster_upload_def poster_analyse_def Let_def
  by (intro returns_intros) (simp_all add: response_defs)

text \<open>
  C32. Type of the HTTP interface: whatever the request, the state and the agent library,
  every handler answers with a redirect to /setup or /, one of the two templates, or a
  JSON object with status 200, 400, 500 or 503; an exception inside a handler never
  escapes as another status.
\<close>

theorem serve_response_ok: "response_ok (fst (serve A F q s))"
proof (cases q)
  case (PostSetup r d)
  show ?thesis unfolding PostSetup serve.simps setup_post_def
    by (rule handle_500_ok) (intro returns_intros, simp_all add: response_defs)
next
  case (PostChat r fresh d)
  show ?thesis unfolding PostChat serve.simps chat_def
    by (rule handle_500_ok) (intro returns_intros chat_query_ok, simp_all add: response_defs)
next
  case (PostPoster r fresh tmp now u)
  have "response_ok (fst (handle_500 (poster_upload A ag fresh tmp now u) s1))" for ag s1
    by (rule handle_500_ok [OF poster_upload_ok])
  with PostPoster show ?thesis
    by (auto simp: poster_def Let_def response_defs split: option.split)
next
  case PostResetConfig
  show ?thesis unfolding PostResetConfig serve.simps reset_config_def
    by (rule handle_500_ok) (intro returns_intros, simp add: response_defs)
next
  case (PostClearPoster fresh)
  show ?thesis unfolding PostClearPoster serve.simps clear_poster_def
    by (rule handle_500_ok) (intro returns_intros, simp add: response_defs)
qed (simp_all add: index_def setup_get_def)

end
