(* ===== verification/Entry.thy ===== *)
theory Entry
  imports App
begin

text \<open>
  The entry point of src/app.py (lines 367-369): \<open>port = int(os.getenv("PORT", 8765))\<close>
  before \<open>app.run\<close>. \<open>py_int\<close> is Python's \<open>int(s)\<close> on a string in base 10, following
  CPython's \<open>PyLong_FromUnicodeObject\<close> and \<open>PyLong_FromString\<close>: surrounding whitespace
  is ignored, one optional sign, then decimal digits in which single underscores may
  separate digits; anything else raises \<open>ValueError\<close>. Leading zeros are allowed. The
  whitespace is not that of \<open>str.strip\<close>: characters below 127 are kept as they are and
  skipped only when \<open>Py_ISSPACE\<close> (tab, line feed, vertical tab, form feed, carriage return,
  space), while characters from 127 on that \<open>str.isspace\<close> accepts (0x85, 0xA0) are first
  turned into spaces; so 0x1C-0x1F, which \<open>str.strip\<close> removes, make \<open>int()\<close> fail. \<open>app.run\<close> itself (binding the socket,
  serving) is I/O and not modelled.
\<close>























end
