(* ===== verification/PathResolver.thy ===== *)
theory PathResolver
  imports Prelude
begin

text \<open>
  \<open>ServicePathResolver\<close> (src/path_resolver.py) and the path arithmetic it performs. The
  resolver's state is the record \<open>resolver\<close> (\<open>_base_file\<close>, the cached \<open>_resolved_path\<close>);
  \<open>add_to_sys_path\<close> also changes \<open>sys.path\<close>, a list of strings. What the operating system
  answers (the working directory, \<open>exists()\<close>, and \<open>Path.resolve()\<close>, which follows symbolic
  links and may raise \<open>OSError\<close> or \<open>ValueError\<close>) is the environment \<open>pr_env\<close>. The
  functions of \<open>posixpath\<close> the fallback branch calls (\<open>normpath\<close>, \<open>abspath\<close>, \<open>dirname\<close>,
  \<open>join\<close>) are translated from CPython's pure-Python definitions in posixpath.py; the
  \<open>pathlib\<close> operations on resolved (absolute, normalised) paths are \<open>pp_parent\<close> and
  \<open>pp_join\<close>. The module-level search of src/app.py (lines 22-26) is \<open>app_service_path\<close>.
\<close>

subsection \<open>Strings\<close>

text \<open>\<open>s.split(c)\<close>: never empty; a separator at either end gives an empty field.\<close>

fun split_on :: "char \<Rightarrow> string \<Rightarrow> string list" where
  "split_on c [] = [[]]"
| "split_on c (x # xs) =
     (if x = c then [] # split_on c xs
      else (let ws = split_on c xs in (x # hd ws) # tl ws))"

text \<open>\<open>sep.join(ws)\<close>.\<close>

fun str_join :: "string \<Rightarrow> string list \<Rightarrow> string" where
  "str_join sep [] = []"
| "str_join sep [w] = w"
| "str_join sep (w # ws) = w @ sep @ str_join sep ws"

subsection \<open>posixpath\<close>

text \<open>One iteration of the loop of \<open>normpath\<close> over the components.\<close>

definition norm_step :: "bool \<Rightarrow> string list \<Rightarrow> string \<Rightarrow> string list" where
  "norm_step absolute new_comps c =
     (if c = [] \<or> c = ''.'' then new_comps
      else if c \<noteq> ''..'' \<or> (\<not> absolute \<and> new_comps = []) \<or>
              (new_comps \<noteq> [] \<and> last new_comps = ''..'')
      then new_comps @ [c]
      else if new_comps \<noteq> [] then butlast new_comps else new_comps)"

text \<open>\<open>initial_slashes\<close>: two leading slashes are kept (POSIX leaves \<open>//\<close> implementation-defined), one or three and more become one.\<close>

definition initial_slashes :: "string \<Rightarrow> nat" where
  "initial_slashes p =
     (if startswith p ''/'' then (if startswith p ''//'' \<and> \<not> startswith p ''///'' then 2 else 1)
      else 0)"

definition normpath :: "string \<Rightarrow> string" where
  "normpath p =
     (if p = [] then ''.''
      else (let n = initial_slashes p;
                comps = foldl (norm_step (n \<noteq> 0)) [] (split_on CHR ''/'' p);
                q = replicate n CHR ''/'' @ str_join ''/'' comps
            in if q = [] then ''.'' else q))"

text \<open>\<open>os.path.join(a, *ps)\<close>.\<close>

fun os_join :: "string \<Rightarrow> string list \<Rightarrow> string" where
  "os_join a [] = a"
| "os_join a (b # ps) =
     os_join (if startswith b ''/'' then b
              else if a = [] \<or> last a = CHR ''/'' then a @ b else a @ ''/'' @ b) ps"

definition abspath :: "string \<Rightarrow> string \<Rightarrow> string" where
  "abspath cwd p = normpath (if startswith p ''/'' then p else os_join cwd [p])"

text \<open>\<open>os.path.dirname\<close>: everything up to the last slash, trailing slashes removed unless it is all slashes.\<close>

definition dirname :: "string \<Rightarrow> string" where
  "dirname p =
     (let i = length p - length (takeWhile (\<lambda>c. c \<noteq> CHR ''/'') (rev p));
          head = take i p
      in if head \<noteq> [] \<and> head \<noteq> replicate (length head) CHR ''/''
         then rev (dropWhile (\<lambda>c. c = CHR ''/'') (rev head)) else head)"

subsection \<open>pathlib on resolved paths\<close>

definition pp_parent :: "string \<Rightarrow> string" where
  "pp_parent p = (let d = dirname p in if d = [] then ''.'' else d)"

definition pp_join :: "string \<Rightarrow> string \<Rightarrow> string" where
  "pp_join p x = (if p \<noteq> [] \<and> last p = CHR ''/'' then p @ x else p @ ''/'' @ x)"

text \<open>\<open>p / "movie-agent-service" / "src"\<close>.\<close>

definition service_dir :: "string \<Rightarrow> string" where
  "service_dir p = pp_join (pp_join p ''movie-agent-service'') ''src''"

subsection \<open>The resolver\<close>

record pr_env =
  cwd :: string
  dir_exists :: "string \<Rightarrow> bool"
  realpath :: "string \<Rightarrow> string option"

record resolver =
  base_file :: string
  resolved_path :: "string option"

definition ServicePathResolver_init :: "string \<Rightarrow> resolver" where
  "ServicePathResolver_init b = \<lparr>base_file = b, resolved_path = None\<rparr>"

text \<open>Lines 52-62, the \<open>except (OSError, ValueError)\<close> branch.\<close>

definition resolve_fallback :: "pr_env \<Rightarrow> resolver \<Rightarrow> string option \<times> resolver" where
  "resolve_fallback e s =
     (let base_dir = dirname (abspath (cwd e) (base_file s));
          sp1 = os_join (dirname base_dir) [''movie-agent-service'', ''src''];
          sp = (if dir_exists e sp1 then sp1 else os_join base_dir [''movie-agent-service'', ''src''])
      in if dir_exists e sp
         then (let r = abspath (cwd e) sp in (Some r, s\<lparr>resolved_path := Some r\<rparr>))
         else (None, s))"

definition resolve :: "pr_env \<Rightarrow> resolver \<Rightarrow> string option \<times> resolver" where
  "resolve e s =
     (case resolved_path s of
        Some p \<Rightarrow> (Some p, s)
      | None \<Rightarrow>
          (case realpath e (base_file s) of
             None \<Rightarrow> resolve_fallback e s
           | Some current_file \<Rightarrow>
               (let sp1 = service_dir (pp_parent (pp_parent current_file));
                    sp = (if dir_exists e sp1 then sp1 else service_dir (pp_parent current_file))
                in if dir_exists e sp
                   then (case realpath e sp of
                           None \<Rightarrow> resolve_fallback e s
                         | Some r \<Rightarrow> (Some r, s\<lparr>resolved_path := Some r\<rparr>))
                   else (None, s))))"

text \<open>\<open>add_to_sys_path\<close>: a found path goes to the front of \<open>sys.path\<close> (a \<open>Path\<close> is always true).\<close>

definition add_to_sys_path ::
  "pr_env \<Rightarrow> resolver \<times> string list \<Rightarrow> bool \<times> (resolver \<times> string list)" where
  "add_to_sys_path e st =
     (case resolve e (fst st) of
        (Some p, s') \<Rightarrow> (True, (s', p # snd st))
      | (None, s') \<Rightarrow> (False, (s', snd st)))"

text \<open>src/app.py lines 22-25: the same search at import time, on \<open>Path(__file__)\<close> unresolved.\<close>

definition app_service_path :: "pr_env \<Rightarrow> string \<Rightarrow> string" where
  "app_service_path e file =
     (let sp = service_dir (pp_parent (pp_parent file))
      in if dir_exists e sp then sp else service_dir (pp_parent file))"

text \<open>src/app.py line 26: \<open>sys.path.insert(0, str(service_path))\<close>, whether or not it exists.\<close>

definition app_sys_path :: "pr_env \<Rightarrow> string \<Rightarrow> string list \<Rightarrow> string list" where
  "app_sys_path e file path = app_service_path e file # path"

text \<open>
  The components \<open>normpath\<close> emits: non-empty, neither \<open>.\<close> nor containing a slash, and
  \<open>..\<close> only in a leading run of a relative path (none in an absolute one).
\<close>

fun rel_ok :: "string list \<Rightarrow> bool" where
  "rel_ok [] = True"
| "rel_ok (x # xs) = (if x = ''..'' then rel_ok xs else ''..'' \<notin> set xs)"

definition normal_comps :: "bool \<Rightarrow> string list \<Rightarrow> bool" where
  "normal_comps absolute cs \<longleftrightarrow>
     list_all (\<lambda>x. x \<noteq> [] \<and> x \<noteq> ''.'' \<and> CHR ''/'' \<notin> set x) cs \<and>
     (if absolute then ''..'' \<notin> set cs else rel_ok cs)"

text \<open>
  An environment for the examples: working directory \<open>/r\<close>, no symbolic links, and the
  service checked out beside the demo, at \<open>/r/movie-agent-service/src\<close>.
\<close>

abbreviation demo_env :: pr_env where
  "demo_env \<equiv> \<lparr>cwd = ''/r'', dir_exists = (\<lambda>p. p = ''/r/movie-agent-service/src''),
                realpath = (\<lambda>p. Some (abspath ''/r'' p))\<rparr>"

subsection \<open>normpath is idempotent\<close>

lemma split_on_nosep: "c \<notin> set w \<Longrightarrow> split_on c w = [w]"
  by (induction w) (auto simp: Let_def)

lemma split_on_nosep_append: "c \<notin> set w \<Longrightarrow> split_on c (w @ c # r) = w # split_on c r"
  by (induction w) (auto simp: Let_def)

lemma split_on_sep_free: "w \<in> set (split_on c s) \<Longrightarrow> c \<notin> set w"
proof (induction s arbitrary: w)
  case (Cons x xs)
  obtain v vs where vs: "split_on c xs = v # vs"
    by (cases "split_on c xs") (induction xs; auto simp: Let_def split: if_splits)+
  with Cons show ?case by (auto simp: Let_def split: if_splits)
qed simp

lemma split_on_replicate:
  "split_on c (replicate n c @ t) = replicate n [] @ split_on c t"
  by (induction n) simp_all

lemma split_str_join:
  "list_all (\<lambda>w. CHR ''/'' \<notin> set w) ws \<Longrightarrow> ws \<noteq> [] \<Longrightarrow> split_on CHR ''/'' (str_join ''/'' ws) = ws"
proof (induction ws)
  case (Cons w ws)
  then show ?case
    by (cases ws) (simp_all add: split_on_nosep split_on_nosep_append)
qed simp

lemma foldl_norm_empties: "foldl (norm_step a) acc (replicate n [] @ xs) = foldl (norm_step a) acc xs"
  by (induction n) (simp_all add: norm_step_def)

lemma rel_ok_snoc:
  "rel_ok (xs @ [c]) \<longleftrightarrow> rel_ok xs \<and> (c = ''..'' \<longrightarrow> (\<forall>x \<in> set xs. x = ''..''))"
  by (induction xs) auto

lemma rel_ok_butlast: "rel_ok xs \<Longrightarrow> rel_ok (butlast xs)"
  by (induction xs) (auto dest: in_set_butlastD)

lemma rel_ok_all_dots: "rel_ok (xs @ [''..'']) \<Longrightarrow> xs = [] \<or> last xs = ''..''"
  by (metis last_in_set rel_ok_snoc)

lemma rel_ok_last_dots:
  "rel_ok xs \<Longrightarrow> xs \<noteq> [] \<Longrightarrow> last xs = ''..'' \<Longrightarrow> \<forall>x \<in> set xs. x = ''..''"
  by (cases xs rule: rev_cases) (auto simp: rel_ok_snoc)

lemma norm_step_normal:
  assumes n: "normal_comps a nc" and c: "CHR ''/'' \<notin> set c"
  shows "normal_comps a (norm_step a nc c)"
proof (cases "c = [] \<or> c = ''.''")
  case False
  show ?thesis
  proof (cases a)
    case True
    with n have "nc \<noteq> [] \<Longrightarrow> last nc \<noteq> ''..''"
      by (auto simp: normal_comps_def dest!: last_in_set)
    with True n c False show ?thesis
      by (auto simp: norm_step_def normal_comps_def list_all_iff dest: in_set_butlastD)
  next
    case rel: False
    have "rel_ok nc" using n rel by (simp add: normal_comps_def)
    moreover have "nc \<noteq> [] \<Longrightarrow> last nc = ''..'' \<Longrightarrow> \<forall>x \<in> set nc. x = ''..''"
      using \<open>rel_ok nc\<close> by (rule rel_ok_last_dots)
    ultimately show ?thesis using rel n c False
      by (auto simp: norm_step_def normal_comps_def list_all_iff rel_ok_snoc rel_ok_butlast
               dest: in_set_butlastD)
  qed
qed (use n in \<open>auto simp: norm_step_def\<close>)

lemma foldl_norm_normal:
  "normal_comps a acc \<Longrightarrow> list_all (\<lambda>w. CHR ''/'' \<notin> set w) xs \<Longrightarrow>
   normal_comps a (foldl (norm_step a) acc xs)"
  by (induction xs arbitrary: acc) (simp_all add: norm_step_normal)

lemma foldl_norm_id:
  "normal_comps a (acc @ cs) \<Longrightarrow> foldl (norm_step a) acc cs = acc @ cs"
proof (induction cs arbitrary: acc)
  case (Cons c cs)
  have step: "norm_step a acc c = acc @ [c]"
  proof (cases "c = ''..''")
    case True
    with Cons.prems have "\<not> a" "rel_ok ((acc @ [c]) @ cs)"
      by (auto simp: normal_comps_def split: if_splits)
    then have "rel_ok (acc @ [c])" by (induction acc) auto
    with True \<open>\<not> a\<close> show ?thesis
      using rel_ok_all_dots [of acc] by (auto simp: norm_step_def)
  qed (use Cons.prems in \<open>auto simp: norm_step_def normal_comps_def\<close>)
  have "normal_comps a ((acc @ [c]) @ cs)" using Cons.prems by simp
  from Cons.IH [OF this] step show ?case by simp
qed simp

lemma str_join_head:
  "list_all (\<lambda>x. x \<noteq> [] \<and> CHR ''/'' \<notin> set x) cs \<Longrightarrow> cs \<noteq> [] \<Longrightarrow>
   \<exists>x r. str_join ''/'' cs = x # r \<and> x \<noteq> CHR ''/''"
  by (cases cs; cases "tl cs") (auto simp: neq_Nil_conv)

lemma initial_slashes_normal:
  assumes n: "n \<le> 2" and cs: "list_all (\<lambda>x. x \<noteq> [] \<and> CHR ''/'' \<notin> set x) cs"
    and ne: "replicate n CHR ''/'' @ str_join ''/'' cs \<noteq> []"
  shows "initial_slashes (replicate n CHR ''/'' @ str_join ''/'' cs) = n"
proof (cases "cs = []")
  case True
  with ne n show ?thesis
    by (cases n; cases "n - 1") (auto simp: initial_slashes_def numeral_2_eq_2)
next
  case False
  from str_join_head [OF cs False] obtain x r where
    j: "str_join ''/'' cs = x # r" "x \<noteq> CHR ''/''" by blast
  with n show ?thesis
    by (cases n; cases "n - 1") (auto simp: initial_slashes_def numeral_2_eq_2)
qed

lemma normpath_dot: "normpath ''.'' = ''.''"
  by (simp add: normpath_def initial_slashes_def norm_step_def)

lemma normpath_shape:
  assumes "p \<noteq> []" "normpath p \<noteq> ''.''"
  shows "\<exists>n cs. n \<le> 2 \<and> normal_comps (n \<noteq> 0) cs \<and> normpath p = replicate n CHR ''/'' @ str_join ''/'' cs \<and>
               replicate n CHR ''/'' @ str_join ''/'' cs \<noteq> []"
proof -
  let ?n = "initial_slashes p"
  let ?cs = "foldl (norm_step (?n \<noteq> 0)) [] (split_on CHR ''/'' p)"
  have "normal_comps (?n \<noteq> 0) ?cs"
    by (rule foldl_norm_normal) (auto simp: normal_comps_def list_all_iff dest: split_on_sep_free)
  moreover have "?n \<le> 2" by (simp add: initial_slashes_def)
  ultimately show ?thesis using assms
    by (intro exI [of _ ?n] exI [of _ ?cs]) (auto simp: normpath_def Let_def split: if_splits)
qed


subsection \<open>Properties of the resolver\<close>

lemma resolve_some_cached: "resolve e s = (Some p, s') \<Longrightarrow> resolved_path s' = Some p"
  by (auto simp: resolve_def resolve_fallback_def Let_def split: option.splits if_splits)

lemma resolve_cached: "resolved_path s = Some p \<Longrightarrow> resolve e s = (Some p, s)"
  by (simp add: resolve_def)

text \<open>
  \<open>os.path.normpath\<close>, as posixpath.py defines it, is idempotent: normalising a
  normalised path changes nothing (so the fallback's \<open>abspath\<close> of an already absolute,
  normalised candidate returns it unchanged).
\<close>

theorem normpath_idempotent: "normpath (normpath p) = normpath p"
proof (cases "p = [] \<or> normpath p = ''.''")
  case True
  then have "normpath p = ''.''" by (auto simp: normpath_def)
  then show ?thesis by (simp only: normpath_dot)
next
  case False
  then obtain n cs where n: "n \<le> 2" and nc: "normal_comps (n \<noteq> 0) cs"
    and q: "normpath p = replicate n CHR ''/'' @ str_join ''/'' cs"
    and ne: "replicate n CHR ''/'' @ str_join ''/'' cs \<noteq> []"
    using normpath_shape [of p] by blast
  have la: "list_all (\<lambda>x. x \<noteq> [] \<and> CHR ''/'' \<notin> set x) cs"
    using nc by (auto simp: normal_comps_def list_all_iff)
  have isl: "initial_slashes (replicate n CHR ''/'' @ str_join ''/'' cs) = n"
    by (rule initial_slashes_normal [OF n la ne])
  have "foldl (norm_step (n \<noteq> 0)) [] (split_on CHR ''/'' (replicate n CHR ''/'' @ str_join ''/'' cs)) = cs"
  proof (cases "cs = []")
    case True
    then show ?thesis
      using split_on_replicate [of "CHR ''/''" n "[]"] foldl_norm_empties [of _ "[]" n "[[]]"]
      by (simp add: norm_step_def)
  next
    case False
    have "split_on CHR ''/'' (str_join ''/'' cs) = cs"
      using la False by (intro split_str_join) (auto simp: list_all_iff)
    moreover have "foldl (norm_step (n \<noteq> 0)) [] cs = cs"
      using foldl_norm_id [of "n \<noteq> 0" "[]" cs] nc by simp
    ultimately show ?thesis by (simp only: split_on_replicate foldl_norm_empties)
  qed
  with q ne isl show ?thesis by (simp add: normpath_def Let_def)
qed

text \<open>
  C25. The first path \<open>resolve()\<close> finds is kept for the resolver's lifetime: after a
  call that returns a path, every later call returns the same path and changes nothing,
  whatever the filesystem has become meanwhile (the cache is never revalidated).
\<close>

theorem resolve_sticky:
  assumes "resolve e s = (Some p, s')"
  shows "resolved_path s' = Some p \<and> resolve e' s' = (Some p, s')"
  using resolve_some_cached [OF assms] resolve_cached by blast

theorem resolve_sticky_witness:
  "resolve demo_env (\<lparr>base_file = ''/r/demo/app.py'', resolved_path = None\<rparr>) = (Some ''/r/movie-agent-service/src'', (\<lparr>base_file = ''/r/demo/app.py'', resolved_path = None\<rparr>)\<lparr>resolved_path := Some ''/r/movie-agent-service/src''\<rparr>) \<and>
   resolve (demo_env\<lparr>dir_exists := (\<lambda>p. False)\<rparr>) ((\<lparr>base_file = ''/r/demo/app.py'', resolved_path = None\<rparr>)\<lparr>resolved_path := Some ''/r/movie-agent-service/src''\<rparr>) =
     (Some ''/r/movie-agent-service/src'', (\<lparr>base_file = ''/r/demo/app.py'', resolved_path = None\<rparr>)\<lparr>resolved_path := Some ''/r/movie-agent-service/src''\<rparr>)"
proof -
  have r: "resolve demo_env (\<lparr>base_file = ''/r/demo/app.py'', resolved_path = None\<rparr>) = (Some ''/r/movie-agent-service/src'', (\<lparr>base_file = ''/r/demo/app.py'', resolved_path = None\<rparr>)\<lparr>resolved_path := Some ''/r/movie-agent-service/src''\<rparr>)"
    by (simp add: resolve_def service_dir_def pp_join_def pp_parent_def dirname_def abspath_def
                  normpath_def initial_slashes_def norm_step_def Let_def)
  from resolve_sticky [OF r, of "demo_env\<lparr>dir_exists := (\<lambda>p. False)\<rparr>"] r show ?thesis by simp
qed

text \<open>
  C26. A search that finds nothing is not cached: \<open>resolve()\<close> returning \<open>None\<close> leaves
  the resolver unchanged, so a later call searches again.
\<close>

theorem resolve_failure_not_cached:
  "resolve e s = (None, s') \<Longrightarrow> s' = s \<and> resolved_path s = None"
  by (auto simp: resolve_def resolve_fallback_def Let_def split: option.splits if_splits)

theorem resolve_failure_not_cached_witness:
  "resolve (demo_env\<lparr>dir_exists := (\<lambda>p. False)\<rparr>) (\<lparr>base_file = ''/r/demo/app.py'', resolved_path = None\<rparr>) = (None, \<lparr>base_file = ''/r/demo/app.py'', resolved_path = None\<rparr>) \<and> resolved_path (\<lparr>base_file = ''/r/demo/app.py'', resolved_path = None\<rparr>) = None"
proof -
  have r: "resolve (demo_env\<lparr>dir_exists := (\<lambda>p. False)\<rparr>) (\<lparr>base_file = ''/r/demo/app.py'', resolved_path = None\<rparr>) = (None, \<lparr>base_file = ''/r/demo/app.py'', resolved_path = None\<rparr>)"
    by (simp add: resolve_def)
  from resolve_failure_not_cached [OF r] r show ?thesis by simp
qed

text \<open>
  C27. Search order: when the resolved file's grandparent holds \<open>movie-agent-service/src\<close>
  (the sibling layout), that directory is chosen, resolved, and cached, even if the
  file's own directory also holds one.
\<close>

theorem resolve_prefers_sibling:
  assumes "resolved_path s = None" "realpath e (base_file s) = Some f"
    and "dir_exists e (service_dir (pp_parent (pp_parent f)))"
    and "realpath e (service_dir (pp_parent (pp_parent f))) = Some r"
  shows "resolve e s = (Some r, s\<lparr>resolved_path := Some r\<rparr>)"
  using assms by (simp add: resolve_def Let_def)

theorem resolve_prefers_sibling_witness:
  "dir_exists demo_env (service_dir (pp_parent (pp_parent ''/r/demo/app.py''))) \<and>
   resolve demo_env (\<lparr>base_file = ''/r/demo/app.py'', resolved_path = None\<rparr>) = (Some (abspath ''/r'' ''/r/movie-agent-service/src''),
      (\<lparr>base_file = ''/r/demo/app.py'', resolved_path = None\<rparr>)\<lparr>resolved_path := Some (abspath ''/r'' ''/r/movie-agent-service/src'')\<rparr>)"
proof -
  have d: "dir_exists demo_env (service_dir (pp_parent (pp_parent ''/r/demo/app.py'')))"
    by (simp add: service_dir_def pp_join_def pp_parent_def dirname_def)
  have b: "realpath demo_env (base_file (\<lparr>base_file = ''/r/demo/app.py'', resolved_path = None\<rparr>)) = Some ''/r/demo/app.py''"
    by (simp add: abspath_def normpath_def initial_slashes_def norm_step_def)
  have "realpath demo_env (service_dir (pp_parent (pp_parent ''/r/demo/app.py''))) =
        Some (abspath ''/r'' ''/r/movie-agent-service/src'')"
    by (simp add: service_dir_def pp_join_def pp_parent_def dirname_def)
  from resolve_prefers_sibling [of "\<lparr>base_file = ''/r/demo/app.py'', resolved_path = None\<rparr>", OF _ b d this] d show ?thesis by simp
qed

text \<open>
  C28. The import-time search of src/app.py (lines 22-25) and \<open>ServicePathResolver\<close>
  agree: for a base file that is its own resolved path (absolute, no symbolic links) and a
  chosen candidate that exists and resolves to itself, \<open>resolve()\<close> returns exactly the
  directory app.py puts on \<open>sys.path\<close>.
\<close>

theorem app_search_agrees:
  assumes "resolved_path s = None" "realpath e (base_file s) = Some (base_file s)"
    and "dir_exists e (app_service_path e (base_file s))"
    and "realpath e (app_service_path e (base_file s)) = Some (app_service_path e (base_file s))"
  shows "resolve e s = (Some (app_service_path e (base_file s)),
                        s\<lparr>resolved_path := Some (app_service_path e (base_file s))\<rparr>)"
  using assms by (simp add: resolve_def app_service_path_def Let_def split: if_splits)

theorem app_search_agrees_witness:
  "realpath demo_env ''/r/demo/app.py'' = Some ''/r/demo/app.py'' \<and>
   app_service_path demo_env ''/r/demo/app.py'' = ''/r/movie-agent-service/src'' \<and>
   resolve demo_env (\<lparr>base_file = ''/r/demo/app.py'', resolved_path = None\<rparr>) = (Some ''/r/movie-agent-service/src'',
      (\<lparr>base_file = ''/r/demo/app.py'', resolved_path = None\<rparr>)\<lparr>resolved_path := Some ''/r/movie-agent-service/src''\<rparr>)"
proof -
  have a: "app_service_path demo_env ''/r/demo/app.py'' = ''/r/movie-agent-service/src''"
    by (simp add: app_service_path_def service_dir_def pp_join_def pp_parent_def dirname_def)
  have b: "realpath demo_env ''/r/demo/app.py'' = Some ''/r/demo/app.py''"
    by (simp add: abspath_def normpath_def initial_slashes_def norm_step_def)
  have c: "realpath demo_env ''/r/movie-agent-service/src'' = Some ''/r/movie-agent-service/src''"
    by (simp add: abspath_def normpath_def initial_slashes_def norm_step_def)
  from app_search_agrees [of "\<lparr>base_file = ''/r/demo/app.py'', resolved_path = None\<rparr>" demo_env] a b c show ?thesis by simp
qed

text \<open>
  \<open>add_to_sys_path()\<close> is not idempotent: a second call after a successful one
  succeeds again and puts the same directory on \<open>sys.path\<close> a second time.
\<close>

theorem add_to_sys_path_twice:
  assumes "add_to_sys_path e (s, path) = (True, (s1, path1))"
  shows "\<exists>p. path1 = p # path \<and> add_to_sys_path e' (s1, path1) = (True, (s1, p # p # path))"
proof -
  obtain r s1' where res: "resolve e s = (r, s1')" by fastforce
  with assms obtain p where "r = Some p" "s1' = s1" "path1 = p # path"
    by (auto simp: add_to_sys_path_def split: option.splits)
  with res have "resolve e' s1 = (Some p, s1)" using resolve_some_cached resolve_cached by blast
  with \<open>path1 = p # path\<close> show ?thesis by (simp add: add_to_sys_path_def)
qed

theorem add_to_sys_path_twice_witness:
  "add_to_sys_path demo_env ((\<lparr>base_file = ''/r/demo/app.py'', resolved_path = None\<rparr>)\<lparr>resolved_path := Some ''/s''\<rparr>, []) =
     (True, ((\<lparr>base_file = ''/r/demo/app.py'', resolved_path = None\<rparr>)\<lparr>resolved_path := Some ''/s''\<rparr>, [''/s''])) \<and>
   add_to_sys_path demo_env ((\<lparr>base_file = ''/r/demo/app.py'', resolved_path = None\<rparr>)\<lparr>resolved_path := Some ''/s''\<rparr>, [''/s'']) =
     (True, ((\<lparr>base_file = ''/r/demo/app.py'', resolved_path = None\<rparr>)\<lparr>resolved_path := Some ''/s''\<rparr>, [''/s'', ''/s'']))"
proof -
  have a: "add_to_sys_path demo_env ((\<lparr>base_file = ''/r/demo/app.py'', resolved_path = None\<rparr>)\<lparr>resolved_path := Some ''/s''\<rparr>, []) =
     (True, ((\<lparr>base_file = ''/r/demo/app.py'', resolved_path = None\<rparr>)\<lparr>resolved_path := Some ''/s''\<rparr>, [''/s'']))"
    by (simp add: add_to_sys_path_def resolve_def)
  from add_to_sys_path_twice [OF a, of demo_env] a show ?thesis by auto
qed

end
