(* ===== verification/Logs.thy ===== *)
theory Logs
  imports JsonCodec FileSystem PathResolver
begin

text \<open>
  The logging set-up that src/app.py runs at import time (lines 41-52): the directory
  \<open>logs\<close> beside app.py is created (\<open>mkdir(exist_ok=True)\<close>, outside any \<open>try\<close>), the
  library's \<open>cleanup_logs\<close> is imported and called inside a \<open>try\<close> whose \<open>except
  Exception\<close> only prints a warning, and the day's log file is named
  \<open>flask_app_<YYYYMMDD>.log\<close> with \<open>datetime.now().strftime('%Y%m%d')\<close>. The library
  function, which the spec leaves unspecified, is a parameter with no assumption on it.
  The glob pattern language on one file name (\<open>*\<close>, \<open>?\<close>, literal characters) is
  \<open>glob_match\<close>; the log file name is shown to match the pattern given to the cleanup.
\<close>

subsection \<open>Dates and the log file name\<close>

text \<open>The date fields of \<open>datetime.now()\<close>.\<close>

record dt =
  dt_year :: nat
  dt_month :: nat
  dt_day :: nat

definition leap_year :: "nat \<Rightarrow> bool" where
  "leap_year y \<longleftrightarrow> y mod 4 = 0 \<and> (y mod 100 \<noteq> 0 \<or> y mod 400 = 0)"

definition days_in_month :: "nat \<Rightarrow> nat \<Rightarrow> nat" where
  "days_in_month y m =
     (if m = 2 then (if leap_year y then 29 else 28)
      else if m \<in> {4, 6, 9, 11} then 30 else 31)"

text \<open>The invariant of a \<open>datetime\<close> (\<open>MINYEAR = 1\<close>, \<open>MAXYEAR = 9999\<close>).\<close>

definition valid_dt :: "dt \<Rightarrow> bool" where
  "valid_dt d \<longleftrightarrow> 1 \<le> dt_year d \<and> dt_year d \<le> 9999 \<and> 1 \<le> dt_month d \<and> dt_month d \<le> 12 \<and>
                  1 \<le> dt_day d \<and> dt_day d \<le> days_in_month (dt_year d) (dt_month d)"

text \<open>A decimal field zero-padded to width \<open>w\<close>, as \<open>%Y\<close> (4), \<open>%m\<close> and \<open>%d\<close> (2) print it.\<close>

definition pad_num :: "nat \<Rightarrow> nat \<Rightarrow> string" where
  "pad_num w n = replicate (w - length (nat_repr n)) (CHR ''0'') @ nat_repr n"

definition strftime_Ymd :: "dt \<Rightarrow> string" where
  "strftime_Ymd d = pad_num 4 (dt_year d) @ pad_num 2 (dt_month d) @ pad_num 2 (dt_day d)"

text \<open>\<open>logs_dir = Path(__file__).parent / "logs"\<close> (line 41).\<close>

definition logs_dir :: "string \<Rightarrow> string" where
  "logs_dir file = pp_join (pp_parent file) ''logs''"

definition log_name :: "dt \<Rightarrow> string" where
  "log_name d = ''flask_app_'' @ strftime_Ymd d @ ''.log''"

text \<open>\<open>log_file = logs_dir / f"flask_app_{datetime.now().strftime('%Y%m%d')}.log"\<close> (line 52).\<close>

definition log_file :: "string \<Rightarrow> dt \<Rightarrow> string" where
  "log_file file d = pp_join (logs_dir file) (log_name d)"

subsection \<open>Glob patterns\<close>

text \<open>
  A glob pattern matched against one file name: \<open>*\<close> matches any string, \<open>?\<close> any one
  character, every other character itself.
\<close>

fun glob_match :: "string \<Rightarrow> string \<Rightarrow> bool" where
  "glob_match [] s \<longleftrightarrow> s = []"
| "glob_match (c # p) [] \<longleftrightarrow> c = CHR ''*'' \<and> glob_match p []"
| "glob_match (c # p) (x # s) \<longleftrightarrow>
     (if c = CHR ''*'' then glob_match p (x # s) \<or> glob_match (c # p) s
      else (c = CHR ''?'' \<or> c = x) \<and> glob_match p s)"

text \<open>A pattern without wildcards matches only itself.\<close>

definition wildcard_free :: "string \<Rightarrow> bool" where
  "wildcard_free p \<longleftrightarrow> CHR ''*'' \<notin> set p \<and> CHR ''?'' \<notin> set p"

text \<open>The pattern passed to \<open>cleanup_logs\<close> on line 47.\<close>

definition log_pattern :: string where
  "log_pattern = ''flask_app_*.log''"

subsection \<open>The start-up sequence\<close>

text \<open>
  \<open>Path.mkdir(exist_ok=True)\<close>: an existing directory is accepted; a path on which the
  call is denied, or that is an existing regular file, raises \<open>OSError\<close>
  (\<open>PermissionError\<close>, \<open>FileExistsError\<close>). Directories are not files of the model, so
  a successful call leaves the files unchanged.
\<close>

definition mkdir_exist_ok :: "path \<Rightarrow> ('a disk_scheme, unit) exc" where
  "mkdir_exist_ok p = (\<lambda>s.
     if p \<in> denied s \<or> files s p \<noteq> None then (Inl (OSError p), s) else (Inr (), s))"

text \<open>
  \<open>cleanup_logs(dir, max_files, max_age_days, pattern)\<close> of the agent library (lines 46-47),
  an arbitrary action on the files that may raise.
\<close>

type_synonym 'a cleanup_fn = "string \<Rightarrow> nat \<Rightarrow> nat \<Rightarrow> string \<Rightarrow> ('a disk_scheme, unit) exc"

text \<open>
  Lines 41-52: create the directory, run the cleanup with every exception swallowed, and
  name the day's log file, which is returned.
\<close>

definition startup_logs :: "'a cleanup_fn \<Rightarrow> string \<Rightarrow> dt \<Rightarrow> ('a disk_scheme, string) exc" where
  "startup_logs cl file now =
     ebind (mkdir_exist_ok (logs_dir file)) (\<lambda>_.
     ebind (catch (cl (logs_dir file) 10 7 log_pattern) (\<lambda>e. ret ())) (\<lambda>_.
     ret (log_file file now)))"

subsection \<open>Zero-padded decimal fields\<close>

lemma nat_repr_length_le: "n < 10 ^ w \<Longrightarrow> 0 < w \<Longrightarrow> length (nat_repr n) \<le> w"
proof (induction n arbitrary: w rule: nat_repr.induct)
  case (1 n)
  show ?case
  proof (cases "n < 10")
    case False
    have "1 < w"
    proof (rule ccontr)
      assume "\<not> 1 < w"
      with "1.prems" False show False by (simp add: not_less le_Suc_eq)
    qed
    then obtain w' where w: "w = Suc w'" "0 < w'" by (cases w) auto
    have "n div 10 < 10 ^ w'" using "1.prems"(1) w by (simp add: div_less_iff_less_mult)
    then have "length (nat_repr (n div 10)) \<le> w'" using "1.IH" False w by simp
    with False w show ?thesis by (simp add: nat_repr.simps [of n])
  qed (use "1.prems" in \<open>simp add: nat_repr.simps [of n]\<close>)
qed

lemma digits_value_append: "digits_value (xs @ ys) = digits_value xs * 10 ^ length ys + digits_value ys"
  by (induction ys rule: rev_induct) (simp_all add: digits_value_snoc digits_value_def flip: append_assoc)

lemma digits_value_zeros [simp]: "digits_value (replicate k (CHR ''0'')) = 0"
  by (induction k) (simp_all add: digits_value_def digit_val_def replicate_append_same [symmetric])

lemma pad_num_length: "n < 10 ^ w \<Longrightarrow> 0 < w \<Longrightarrow> length (pad_num w n) = w"
  using nat_repr_length_le [of n w] by (simp add: pad_num_def)

lemma pad_num_digits: "list_all is_digit (pad_num w n)"
  using nat_repr_digits [of n] by (auto simp: pad_num_def list_all_iff is_digit_def)

lemma pad_num_value: "digits_value (pad_num w n) = n"
  by (simp add: pad_num_def digits_value_append digits_value_nat_repr)

lemma strftime_Ymd_fields:
  assumes "valid_dt d"
  shows "length (strftime_Ymd d) = 8 \<and> list_all is_digit (strftime_Ymd d) \<and>
         digits_value (take 4 (strftime_Ymd d)) = dt_year d \<and>
         digits_value (take 2 (drop 4 (strftime_Ymd d))) = dt_month d \<and>
         digits_value (drop 6 (strftime_Ymd d)) = dt_day d"
proof -
  have y: "length (pad_num 4 (dt_year d)) = 4"
    using assms by (intro pad_num_length) (simp_all add: valid_dt_def)
  have m: "length (pad_num 2 (dt_month d)) = 2"
    using assms by (intro pad_num_length) (simp_all add: valid_dt_def)
  have "dt_day d \<le> 31" using assms by (simp add: valid_dt_def days_in_month_def split: if_splits)
  then have dd: "length (pad_num 2 (dt_day d)) = 2" by (intro pad_num_length) simp_all
  show ?thesis
    using y m dd by (simp add: strftime_Ymd_def pad_num_digits pad_num_value)
qed

lemma log_name_inj: "valid_dt d1 \<Longrightarrow> valid_dt d2 \<Longrightarrow> log_name d1 = log_name d2 \<Longrightarrow> d1 = d2"
  using strftime_Ymd_fields [of d1] strftime_Ymd_fields [of d2] by (simp add: log_name_def)

subsection \<open>Glob patterns\<close>

lemma glob_star_append: "glob_match q s \<Longrightarrow> glob_match (CHR ''*'' # q) (u @ s)"
proof (induction u)
  case Nil
  then show ?case by (cases s) simp_all
qed simp

lemma glob_star_split: "glob_match (CHR ''*'' # q) s \<Longrightarrow> \<exists>u v. s = u @ v \<and> glob_match q v"
proof (induction s)
  case (Cons x s)
  then show ?case by (auto intro: exI [of _ "[]"]) (metis append_Cons)
qed (auto intro: exI [of _ "[]"])

lemma glob_literal: "wildcard_free p \<Longrightarrow> glob_match (p @ q) s \<longleftrightarrow> (\<exists>v. s = p @ v \<and> glob_match q v)"
proof (induction p arbitrary: s)
  case (Cons c p)
  then show ?case by (cases s) (auto simp: wildcard_free_def)
qed simp

lemma glob_literal_only: "wildcard_free p \<Longrightarrow> glob_match p s \<longleftrightarrow> s = p"
  using glob_literal [of p "[]" s] by simp

lemma log_pattern_iff: "glob_match log_pattern n \<longleftrightarrow> (\<exists>u. n = ''flask_app_'' @ u @ ''.log'')"
proof -
  have lp: "log_pattern = ''flask_app_'' @ CHR ''*'' # ''.log''" by (simp add: log_pattern_def)
  have w1: "wildcard_free ''flask_app_''" and w2: "wildcard_free ''.log''"
    by (simp_all add: wildcard_free_def)
  show ?thesis
  proof
    assume "glob_match log_pattern n"
    then obtain v where v: "n = ''flask_app_'' @ v" "glob_match (CHR ''*'' # ''.log'') v"
      unfolding lp glob_literal [OF w1] by blast
    from glob_star_split [OF v(2)] obtain u w where "v = u @ w" "glob_match ''.log'' w" by blast
    with v(1) show "\<exists>u. n = ''flask_app_'' @ u @ ''.log''"
      using glob_literal_only [OF w2] by auto
  next
    assume "\<exists>u. n = ''flask_app_'' @ u @ ''.log''"
    then show "glob_match log_pattern n"
      unfolding lp glob_literal [OF w1]
      using glob_star_append [of "''.log''" "''.log''"] glob_literal_only [OF w2] by blast
  qed
qed

subsection \<open>Properties\<close>

text \<open>
  C29. The day's log file name is \<open>flask_app_\<close>, eight digits and \<open>.log\<close>: the digits
  read back as the year, month and day of the date, so each day has its own file, and
  the name matches the pattern \<open>flask_app_*.log\<close> that start-up hands to
  \<open>cleanup_logs\<close>, so the files the application writes are the ones it rotates.
\<close>

theorem log_name_roundtrip:
  assumes "valid_dt d"
  shows "log_name d = ''flask_app_'' @ strftime_Ymd d @ ''.log'' \<and>
         length (strftime_Ymd d) = 8 \<and> list_all is_digit (strftime_Ymd d) \<and>
         digits_value (take 4 (strftime_Ymd d)) = dt_year d \<and>
         digits_value (take 2 (drop 4 (strftime_Ymd d))) = dt_month d \<and>
         digits_value (drop 6 (strftime_Ymd d)) = dt_day d \<and>
         glob_match log_pattern (log_name d)"
  using strftime_Ymd_fields [OF assms] log_pattern_iff [of "log_name d"] by (auto simp: log_name_def)

theorem log_name_roundtrip_witness:
  "log_name \<lparr>dt_year = 2024, dt_month = 3, dt_day = 7\<rparr> = ''flask_app_20240307.log'' \<and>
   digits_value (take 2 (drop 4 (strftime_Ymd \<lparr>dt_year = 2024, dt_month = 3, dt_day = 7\<rparr>))) = 3"
proof -
  have v: "valid_dt \<lparr>dt_year = 2024, dt_month = 3, dt_day = 7\<rparr>"
    by (simp add: valid_dt_def days_in_month_def)
  have "strftime_Ymd \<lparr>dt_year = 2024, dt_month = 3, dt_day = 7\<rparr> = ''20240307''"
    by code_simp
  with log_name_roundtrip [OF v] show ?thesis by simp
qed

end
