(* ===== verification/Spec2Isabelle.thy ===== *)
theory Spec2Isabelle
  imports Validator ConfigManager Entry PathResolver Logs
begin

text \<open>
  \<^bold>\<open>A verification model of movie-agent-demo.\<close>
  The repository is a Flask front-end (src/app.py) for an external movie-agent library,
  with a secrets manager (src/movie-agent-demo/config_manager.py) that stores the
  provider configuration encrypted on disk, and a resolver
  (src/path_resolver.py) that locates the library's sources. The handlers of app.py
  validate a submitted configuration with \<open>validate_setup_data\<close>, persist and read it
  through the shared \<open>SecureConfigManager\<close>, export its API keys to \<open>os.environ\<close>, build
  the agent from it, and keep per-client state in the Flask session.

  \<^bold>\<open>Theories.\<close>
  \<^item> \<open>Prelude\<close>: the Python exceptions as the datatype \<open>exn\<close>; the exception-with-state
    monad \<open>('s, 'a) exc\<close> (\<open>ret\<close>, \<open>raise\<close>, \<open>ebind\<close>, \<open>catch\<close>) in which every method that
    mutates state and may raise is written, the state being returned on both outcomes;
    \<open>keeps R m\<close>, the actions whose every outcome is reached by \<open>R\<close>-steps, with the
    composition rules \<open>keeps_intros\<close> that the invariant proofs share; \<open>str.startswith\<close>.
  \<^item> \<open>PyValue\<close>: JSON-shaped Python values \<open>pyval\<close>, truthiness, and the \<open>dict\<close> operations
    as association lists in insertion order.
  \<^item> \<open>Validator\<close>: \<open>validate_setup_data\<close> (config_manager.py 125-152) with its raising
    branches, and the rule table of the spec (\<open>setup_rules\<close>, \<open>spec_outcome\<close>).
  \<^item> \<open>JsonCodec\<close>: \<open>json.dumps(indent=2)\<close>, \<open>json.loads\<close> and UTF-8, translated from CPython's
    encoder and scanner. The recursive decoder \<open>parse_value\<close> carries fuel; \<open>json_loads\<close>
    gives it \<open>Suc (2 * length s)\<close>. That bound is enough on every input: each call that
    returns consumes input (\<open>parse_length\<close>), and with any larger fuel the decoder returns
    the same result (\<open>parse_fuel_stable\<close>, lemma \<open>json_loads_fuel_enough\<close>), so the bound
    never cuts off a decoding that Python's unbounded recursion would complete.
  \<^item> \<open>FileSystem\<close>, \<open>Fernet\<close>: the directory the manager writes (record \<open>disk\<close>: contents,
    unwritable paths, owner-only modes, \<open>chmod\<close> support) and the interface of
    \<open>cryptography.fernet\<close> as a record \<open>fernet\<close> with its contract \<open>fernet_ok\<close>.
  \<^item> \<open>ConfigManager\<close>: \<open>SecureConfigManager\<close> (lines 13-122). Its state \<open>mgr\<close> extends \<open>disk\<close>
    with \<open>config_file\<close>, \<open>master_key_file\<close> and the cached \<open>_cipher\<close>; one definition per
    method (\<open>is_configured\<close>, \<open>get_or_create_master_key\<close>, \<open>get_cipher\<close>, \<open>save_config\<close>,
    \<open>load_config\<close>, \<open>update_config\<close>, \<open>delete_config\<close>). The invariant \<open>mgr_inv\<close> and the
    frame lemmas are proved for every outcome, exceptions included.
  \<^item> \<open>AgentService\<close>: the external library as a parameter \<open>agent_lib\<close> (start-up under an
    environment, \<open>chat\<close>, \<open>analyze_poster\<close>), modelled from the spec's collaborator contract.
  \<^item> \<open>App\<close>: app.py. Its state \<open>app\<close> extends \<open>mgr\<close> with the global \<open>agent_app\<close>,
    \<open>os.environ\<close> and one client's session, so the manager's operations run on it
    unchanged. One definition per handler (\<open>index\<close>, \<open>setup_get\<close>, \<open>setup_post\<close>, \<open>chat\<close>,
    \<open>poster\<close>, \<open>reset_config\<close>, \<open>clear_poster\<close> with the service's \<open>clear_memory\<close>) and for
    \<open>_initialize_agent_from_config\<close>; \<open>serve\<close> dispatches a \<open>request\<close>, \<open>run\<close> serves a
    sequence, \<open>reachable\<close> is the inductive closure. The session's admissible changes
    are the abstract step relation \<open>session_step\<close>, which every request refines.
  \<^item> \<open>Entry\<close>: the \<open>__main__\<close> block of app.py: Python's \<open>int()\<close> on a string
    (\<open>py_int\<close>, after CPython's \<open>PyLong_FromUnicodeObject\<close> and \<open>PyLong_FromString\<close>:
    the whitespace \<open>int()\<close> skips, \<open>int_space\<close>, which is not that of \<open>str.strip\<close>; sign;
    digits with single underscores; the \<open>repr\<close> of the text in the error message) and the
    port \<open>main_port\<close> read from \<open>PORT\<close>, proved to invert \<open>repr\<close>.
  \<^item> \<open>PathResolver\<close>: \<open>ServicePathResolver\<close> (record \<open>resolver\<close>, \<open>resolve\<close>,
    \<open>add_to_sys_path\<close>) over an environment \<open>pr_env\<close> of filesystem answers, CPython's
    \<open>posixpath.normpath\<close>, \<open>abspath\<close>, \<open>dirname\<close>, \<open>join\<close>, and app.py's own search
    \<open>app_service_path\<close> (lines 22-25).
  \<^item> \<open>Logs\<close>: the logging set-up of app.py at import time (lines 41-52) as
    \<open>startup_logs\<close>: \<open>logs_dir.mkdir(exist_ok=True)\<close> (\<open>mkdir_exist_ok\<close>), the library's
    \<open>cleanup_logs\<close> as an unconstrained parameter (the spec does not specify it), called
    inside the \<open>try\<close> whose handler swallows every exception, and the day's file name
    \<open>log_file\<close> from \<open>strftime('%Y%m%d')\<close> (\<open>strftime_Ymd\<close>, zero-padded fields) with the glob
    matcher \<open>glob_match\<close> for the pattern \<open>flask_app_*.log\<close>.
  \<^item> This theory: the properties that span the manager and the application.

  \<^bold>\<open>What is proved.\<close>
  Round trips of the manager (save then load returns the configuration, also through a
  new instance) and of the codec (\<open>json_loads (json_dumps v) = Some v\<close>, UTF-8), with the
  decoder's fuel shown sufficient on every input; the manager's key invariant under
  every operation but \<open>delete_config\<close>, and, here, under every request sequence without
  /reset-config; rejection of a tampered blob; the validator against the spec's rule
  table, with the branches where it raises; the handlers' functional behaviour, gating
  before setup, the shape of every answer (redirect, template, or JSON object with
  status 200, 400, 500 or 503), the bounded poster history and the stable session id for
  every reachable state (rule induction), the temporary file always removed, the error
  path of /clear-poster when the agent's \<open>clear_memory\<close> raises; the port round trip of
  \<open>int()\<close>; the resolver's caching, search order, agreement with app.py and idempotence
  of \<open>normpath\<close>; that the log file name encodes the date and matches the pattern handed
  to the log cleanup. Several theorems record defects:
  reset followed by setup leaves the application unconfigured, and in fact no request
  sequence configures it again before a restart (the cipher cache survives
  \<open>delete_config\<close>); the stale agent survives a reset; the default provider differs
  between the environment and the agent's configuration; the alternate OpenAI key is
  overwritten.

  \<^bold>\<open>Not modelled.\<close>
  The internals of Fernet (AES, HMAC, base64), which are represented by the contract
  \<open>fernet_ok\<close>; the agent library's internals, \<open>cleanup_logs\<close> included (no property
  of start-up depends on what it does); the imports of lines 10-32 and the log file
  handler of line 58, which can also fail at import time; \<open>logging.basicConfig\<close> and the logger calls, which only direct
  output; \<open>load_dotenv\<close> (the environment it produces is the parameter of \<open>app_init\<close>);
  directories other than as the target of \<open>mkdir\<close>; years below 1000, whose \<open>%Y\<close>
  rendering differs between C libraries (the model pads to four digits); the \<open>IntentRouter\<close> call in \<open>chat\<close>, whose result
  is only logged although the call can raise (a 500); Flask's session machinery: the
  model serves the requests of one client, whose cookie session is part of the state
  (the signed cookie, \<open>app.secret_key\<close>, several clients and parallel requests are not
  modelled); \<open>app.run\<close> (binding and serving); floats and code points above 255 in JSON.
\<close>

section \<open>Properties across components\<close>

text \<open>
  The requests that leave the key file \<open>k\<close> alone: /reset-config deletes it, and a
  poster upload writes and then unlinks its temporary file, which must not be \<open>k\<close>.
\<close>

fun keeps_key :: "path \<Rightarrow> request \<Rightarrow> bool" where
  "keeps_key k PostResetConfig = False"
| "keeps_key k (PostPoster r fresh tmp now u) = (tmp \<noteq> k)"
| "keeps_key k _ = True"

text \<open>A step that keeps the key file at \<open>k\<close> and the manager's key invariant.\<close>

definition key_rel :: "fernet \<Rightarrow> path \<Rightarrow> 'a app_scheme \<Rightarrow> 'a app_scheme \<Rightarrow> bool" where
  "key_rel F k s s' \<longleftrightarrow>
     master_key_file s = k \<longrightarrow> master_key_file s' = k \<and> (mgr_inv F s \<longrightarrow> mgr_inv F s')"

lemma key_rel_refl [simp]: "key_rel F k s s"
  by (simp add: key_rel_def)

lemma key_rel_trans: "key_rel F k a b \<Longrightarrow> key_rel F k b c \<Longrightarrow> key_rel F k a c"
  by (simp add: key_rel_def)

lemma key_rel_keeps: "keeps (key_rel F k) m \<Longrightarrow> key_rel F k s (snd (m s))"
  by (erule keeps_apply) (simp, erule (1) key_rel_trans)

lemma key_rel_frame:
  "config_file s' = config_file s \<Longrightarrow> master_key_file s' = master_key_file s \<Longrightarrow>
   cipher s' = cipher s \<Longrightarrow> files s' (master_key_file s) = files s (master_key_file s) \<Longrightarrow>
   key_rel F k s s'"
  by (auto simp: key_rel_def mgr_inv_def split: option.splits)

lemma keeps_key_sess [keeps_intros]:
  "keeps (key_rel F k) (\<lambda>s. (x, s\<lparr>sess := g s\<rparr>))"
  by (rule keeps_step) (simp add: key_rel_frame)

lemma keeps_key_agent [keeps_intros]:
  "keeps (key_rel F k) (\<lambda>s. (x, s\<lparr>agent_app := a\<rparr>))"
  by (rule keeps_step) (simp add: key_rel_frame)

lemma keeps_key_ensure [keeps_intros]: "keeps (key_rel F k) (ensure_session_id fresh)"
  by (rule keeps_step) (simp add: ensure_session_id_def key_rel_frame split: option.split)

lemma keeps_key_env: "keeps (key_rel F k) (set_provider_env cd)"
proof (rule keeps_step)
  fix s
  from env_only_keeps [OF env_only_set_provider_env [of s cd]]
  show "key_rel F k s (snd (set_provider_env cd s))"
    by (auto simp: disk_frame_def intro!: key_rel_frame)
qed

lemma keeps_key_write: "p \<noteq> k \<Longrightarrow> keeps (key_rel F k) (write_bytes p b)"
  by (rule keeps_step) (auto simp: write_bytes_def key_rel_def mgr_inv_def split: option.splits)

lemma keeps_key_unlink: "p \<noteq> k \<Longrightarrow> keeps (key_rel F k) (unlink p)"
  by (rule keeps_step) (auto simp: unlink_def key_rel_def mgr_inv_def split: option.splits)

lemma keeps_key_save:
  assumes F: "fernet_ok F"
  shows "keeps (key_rel F k) (save_config F r c)"
proof (rule keeps_step)
  fix s
  show "key_rel F k s (snd (save_config F r c s))"
    using save_config_frame [of s F r c] save_config_inv [OF F, of s r c]
    by (auto simp: key_rel_def same_frame_def)
qed

lemma keeps_key_load:
  assumes F: "fernet_ok F"
  shows "keeps (key_rel F k) (load_config F r)"
proof (rule keeps_step)
  fix s
  show "key_rel F k s (snd (load_config F r s))"
    using load_config_frame [of s F r] load_config_inv [OF F, of s r]
    by (auto simp: key_rel_def same_frame_def)
qed

lemma keeps_key_init:
  assumes F: "fernet_ok F"
  shows "keeps (key_rel F k) (initialize_agent_from_config A F r)"
  unfolding initialize_agent_from_config_def Let_def
  by (intro keeps_intros keeps_key_load [OF F] keeps_key_env)

lemma keeps_key_analyse: "keeps (key_rel F k) (poster_analyse A agent fresh tmp now)"
  unfolding poster_analyse_def
  by (intro keeps_intros keeps_step) (simp add: Let_def key_rel_frame split: option.split)

lemma keeps_key_upload:
  "tmp \<noteq> k \<Longrightarrow> keeps (key_rel F k) (poster_upload A agent fresh tmp now u)"
  unfolding poster_upload_def
  by (intro keeps_intros keeps_key_write keeps_key_unlink keeps_key_analyse)

lemma serve_key_rel:
  assumes F: "fernet_ok F" and q: "keeps_key k q"
  shows "key_rel F k s (snd (serve A F q s))"
proof (cases q)
  case (PostSetup r d)
  show ?thesis unfolding PostSetup serve.simps setup_post_def handle_500_state
    by (rule key_rel_keeps) (intro keeps_intros keeps_key_save [OF F] keeps_key_init [OF F])
next
  case (PostChat r fresh d)
  show ?thesis unfolding PostChat serve.simps chat_def handle_500_state
    by (rule key_rel_keeps) (unfold chat_query_def Let_def, intro keeps_intros keeps_key_init [OF F])
next
  case (PostPoster r fresh tmp now u)
  with q have t: "tmp \<noteq> k" by simp
  let ?s1 = "snd (initialize_agent_from_config A F r s)"
  have i: "key_rel F k s ?s1" by (rule key_rel_keeps [OF keeps_key_init [OF F]])
  have "key_rel F k s (snd (handle_500 (poster_upload A ag fresh tmp now u) ?s1))" for ag
    using key_rel_trans [OF i key_rel_keeps [OF keeps_key_upload [OF t]]] by (simp add: handle_500_state)
  with i PostPoster show ?thesis by (auto simp: poster_def Let_def split: option.splits)
next
  case (PostClearPoster fresh)
  show ?thesis unfolding PostClearPoster serve.simps clear_poster_def clear_service_memory_def handle_500_state
    by (rule key_rel_keeps) (intro keeps_intros)
qed (use q in \<open>simp_all add: index_def setup_get_def\<close>)

lemma run_key_rel:
  "fernet_ok F \<Longrightarrow> list_all (keeps_key k) qs \<Longrightarrow> key_rel F k s (snd (run A F qs s))"
proof (induction qs arbitrary: s)
  case (Cons q qs)
  from Cons.prems have F: "fernet_ok F" and "keeps_key k q" "list_all (keeps_key k) qs" by simp_all
  then have "key_rel F k s (snd (serve A F q s))"
    "key_rel F k (snd (serve A F q s)) (snd (run A F qs (snd (serve A F q s))))"
    using serve_key_rel Cons.IH by blast+
  then show ?case by (auto split: prod.split elim: key_rel_trans)
qed simp

text \<open>
  C30. The application keeps the manager's key invariant (\<open>mgr_inv\<close>: the two files
  differ, a cached cipher is the key on disk, the key on disk is valid) through every
  sequence of requests that contains no /reset-config and whose poster uploads never use
  the key file as their temporary file: whatever the requests' bodies, the agent library
  and the failures along the way, only \<open>delete_config\<close> can break it.
\<close>

theorem app_keeps_key_invariant:
  assumes "fernet_ok F" "mgr_inv F s" "list_all (keeps_key (master_key_file s)) qs"
  shows "mgr_inv F (snd (run A F qs s)) \<and> master_key_file (snd (run A F qs s)) = master_key_file s"
  using run_key_rel [OF assms(1,3), of s A] assms(2) by (simp add: key_rel_def)

theorem app_keeps_key_invariant_witness:
  "mgr_inv toy_fernet (app_init Map.empty {} True Map.empty) \<and>
   mgr_inv toy_fernet (snd (run demo_agent toy_fernet
     [PostSetup 0 (PDict [(''llm_provider'', PStr ''openai''), (''openai_api_key'', PStr ''sk-1'')]),
      PostChat 0 ''u1'' (PDict [(''query'', PStr ''hi'')]),
      PostPoster 0 ''u1'' ''/tmp/p1'' ''t0'' (Some (''a.png'', ''img'')), GetIndex]
     (app_init Map.empty {} True Map.empty)))"
proof -
  have i: "mgr_inv toy_fernet (app_init Map.empty {} True Map.empty)"
    by (simp add: mgr_inv_def app_init_def)
  have q: "list_all (keeps_key (master_key_file (app_init Map.empty {} True Map.empty)))
     [PostSetup 0 (PDict [(''llm_provider'', PStr ''openai''), (''openai_api_key'', PStr ''sk-1'')]),
      PostChat 0 ''u1'' (PDict [(''query'', PStr ''hi'')]),
      PostPoster 0 ''u1'' ''/tmp/p1'' ''t0'' (Some (''a.png'', ''img'')), GetIndex]"
    by (simp add: app_init_def)
  from app_keeps_key_invariant [OF toy_fernet_ok i q, of demo_agent] i show ?thesis by blast
qed

text \<open>
  The state /reset-config leaves behind in a process that has used its key: the cipher
  is still cached, the key file is gone, and the two paths differ. No handler writes the
  key file while a cipher is cached, and every handler but /setup returns at once when
  the application is not configured.
\<close>

definition stale_cipher :: "'a app_scheme \<Rightarrow> bool" where
  "stale_cipher s \<longleftrightarrow>
     cipher s \<noteq> None \<and> files s (master_key_file s) = None \<and> config_file s \<noteq> master_key_file s"

lemma stale_unconfigured: "stale_cipher s \<Longrightarrow> \<not> is_configured s"
  by (simp add: stale_cipher_def is_configured_def path_exists_def)

lemma save_config_stale:
  assumes "stale_cipher s"
  shows "stale_cipher (snd (save_config F r c s))"
proof -
  from assms obtain k where k: "cipher s = Some k" by (auto simp: stale_cipher_def)
  have "same_frame s (snd (save_config F r c s))" by (rule save_config_frame)
  with assms k show ?thesis
    by (auto simp: stale_cipher_def same_frame_def save_config_def get_cipher_def ebind_def Let_def
                   write_bytes_def chmod_600_def split: prod.splits sum.splits if_splits)
qed

lemma init_stale:
  "stale_cipher s \<Longrightarrow> initialize_agent_from_config A F r s = (Inr (), s)"
  by (simp add: initialize_agent_from_config_def stale_unconfigured)

lemma serve_stale: "stale_cipher s \<Longrightarrow> stale_cipher (snd (serve A F q s))"
proof (cases q)
  case (PostSetup r d)
  assume st: "stale_cipher s"
  obtain x s1 where sv: "save_config F r d s = (x, s1)" by fastforce
  with save_config_stale [OF st, of F r d] have st1: "stale_cipher s1" by simp
  with sv st PostSetup show ?thesis
    by (auto simp: setup_post_def handle_500_state lift_exc_def ebind_def init_stale
             split: sum.splits if_splits prod.splits)
next
  case PostResetConfig
  assume st: "stale_cipher s"
  obtain x s1 where d: "delete_config s = (x, s1)" by fastforce
  have "same_frame s s1" "cipher s1 = cipher s" using delete_config_frame [of s] d by simp_all
  moreover have "files s1 (master_key_file s) = None"
    using st d by (auto simp: delete_config_def ebind_def unlink_def stale_cipher_def
                        split: if_splits prod.splits sum.splits)
  ultimately show ?thesis using st d PostResetConfig
    by (auto simp: reset_config_def handle_500_state ebind_def stale_cipher_def same_frame_def
             split: sum.splits)
next
  case (PostClearPoster fresh)
  assume "stale_cipher s"
  then show ?thesis using PostClearPoster
    by (simp add: clear_poster_def clear_service_memory_def handle_500_state ebind_def
                  ensure_session_id_def stale_cipher_def split: option.split)
qed (simp_all add: index_def setup_get_def chat_def poster_def handle_500_def stale_unconfigured)

lemma reachable_stale: "reachable A F s0 s \<Longrightarrow> stale_cipher s0 \<Longrightarrow> stale_cipher s"
  by (induction rule: reachable.induct) (simp_all add: serve_stale)

text \<open>
  C31. A reset is permanent for the running process: after /reset-config on a writable
  state whose manager has cached its cipher (any process that has saved or loaded a
  configuration), no sequence of requests makes the application configured again, so
  every later GET / redirects to /setup and /chat and /poster answer 503 until the
  process is restarted.
\<close>

theorem reset_is_permanent:
  assumes "cipher s \<noteq> None" "config_file s \<noteq> master_key_file s"
    and "config_file s \<notin> denied s" "master_key_file s \<notin> denied s"
    and "reachable A F (snd (reset_config s)) s'"
  shows "\<not> is_configured s' \<and> index s' = (Redirect ''/setup'', s')"
proof -
  obtain s1 where r: "reset_config s = (success_json ''Configuration reset'', s1)"
    and f: "same_frame s s1" "cipher s1 = cipher s"
    and fl: "files s1 = (files s)(config_file s := None, master_key_file s := None)"
    using reset_config_ok [OF assms(3,4)] by blast
  have "stale_cipher s1" using assms(1,2) f fl by (simp add: stale_cipher_def same_frame_def)
  with r assms(5) have "stale_cipher s'" using reachable_stale by fastforce
  then show ?thesis using stale_unconfigured by (simp add: index_def)
qed

theorem reset_is_permanent_witness:
  "reachable demo_agent toy_fernet
     (snd (reset_config ((app_init [''config.encrypted'' \<mapsto> ''c'', ''.master_key'' \<mapsto> ''k''] {} True Map.empty)\<lparr>cipher := Some ''k''\<rparr>)))
     (snd (serve demo_agent toy_fernet (PostSetup 0 (PDict [(''llm_provider'', PStr ''openai''), (''openai_api_key'', PStr ''sk-1'')]))
        (snd (reset_config ((app_init [''config.encrypted'' \<mapsto> ''c'', ''.master_key'' \<mapsto> ''k''] {} True Map.empty)\<lparr>cipher := Some ''k''\<rparr>))))) \<and>
   \<not> is_configured (snd (serve demo_agent toy_fernet (PostSetup 0 (PDict [(''llm_provider'', PStr ''openai''), (''openai_api_key'', PStr ''sk-1'')]))
        (snd (reset_config ((app_init [''config.encrypted'' \<mapsto> ''c'', ''.master_key'' \<mapsto> ''k''] {} True Map.empty)\<lparr>cipher := Some ''k''\<rparr>)))))"
proof -
  let ?s = "(app_init [''config.encrypted'' \<mapsto> ''c'', ''.master_key'' \<mapsto> ''k''] {} True Map.empty)\<lparr>cipher := Some ''k''\<rparr>"
  let ?q = "PostSetup 0 (PDict [(''llm_provider'', PStr ''openai''), (''openai_api_key'', PStr ''sk-1'')])"
  have r: "reachable demo_agent toy_fernet (snd (reset_config ?s)) (snd (serve demo_agent toy_fernet ?q (snd (reset_config ?s))))"
    by (rule reachable.step [OF reachable.start])
  have h: "cipher ?s \<noteq> None" "config_file ?s \<noteq> master_key_file ?s"
    "config_file ?s \<notin> denied ?s" "master_key_file ?s \<notin> denied ?s"
    by (simp_all add: app_init_def)
  from reset_is_permanent [OF h r] r show ?thesis by blast
qed

end
